(* ===== verification/Psf_Prelude.thy ===== *)
theory Psf_Prelude
  imports Main "HOL-Library.Word" "HOL-Library.Signed_Division"
begin

text \<open>
  Shared vocabulary of the development: the names of the machine types the sources use, the
  collections of facts the component proofs draw on, and the generic lemmas on lists, bit masks
  and little-endian byte layouts that more than one component needs.
\<close>

unbundle bit_operations_syntax

section \<open>Collections\<close>

named_theorems pss_enum \<open>the numeric values of the protocol's enumerators and masks\<close>
named_theorems sdm_defs \<open>the defining equations of the SDM request predicates and evaluators\<close>
named_theorems atl_frame \<open>fields of the ATL state an operation does not change\<close>
named_theorems atl_ops \<open>the defining equations of the ATL operations\<close>
named_theorems pss_fs \<open>the defining equations of the delivery fail-safe operations\<close>
named_theorems rpc_ops \<open>the defining equations of the RPC server operations\<close>
named_theorems gw_defs \<open>the defining equations of the gateway contract\<close>

section \<open>Machine types\<close>

type_synonym u8 = "8 word"
type_synonym u16 = "16 word"
type_synonym u32 = "32 word"
type_synonym u64 = "64 word"

text \<open>An IEEE-754 binary32 value is carried as its bit pattern.\<close>

type_synonym f32 = "32 word"

type_synonym byte = "8 word"

section \<open>Durations\<close>

text \<open>\<open>duration_cast<milliseconds>\<close> of a duration in nanoseconds truncates towards zero.\<close>

definition ms_of :: "int \<Rightarrow> int" where
  "ms_of ns = ns sdiv 1000000"

lemma sdiv_nonneg: "0 \<le> a \<Longrightarrow> 0 < b \<Longrightarrow> a sdiv b = a div b" for a b :: int
  by (cases "a = 0") (auto simp: signed_divide_int_def sgn_if)

lemma ms_of_nonneg: "0 \<le> d \<Longrightarrow> ms_of d = d div 1000000"
  by (simp add: ms_of_def sdiv_nonneg)

section \<open>Bit masks\<close>

lemma and_bit_iff: "(w AND push_bit k 1 = 0) \<longleftrightarrow> \<not> bit w k" for w :: "'a::len word"
  using and_exp_eq_0_iff_not_bit [of w k] by (simp add: push_bit_eq_mult)

lemma word_or_eq_0 [simp]: "(a OR b = 0) \<longleftrightarrow> a = 0 \<and> b = 0" for a b :: "'a::len word"
  by (fact or_eq_0_iff)

lemma word_or_neq_0I: "a \<noteq> 0 \<Longrightarrow> a OR b \<noteq> 0" for a b :: "'a::len word"
  by simp

lemma word_subset_andI: "a AND NOT b = 0 \<Longrightarrow> a AND b = a" for a b :: "'a::len word"
  by (metis and.right_neutral bit.conj_disj_distrib bit.disj_cancel_right or.right_neutral)

lemma word_and_not_eq_0_iff: "a AND NOT b = 0 \<longleftrightarrow> a AND b = a" for a b :: "'a::len word"
proof
  assume "a AND b = a"
  then have "a AND NOT b = (a AND b) AND NOT b" by simp
  then show "a AND NOT b = 0" by (simp add: and.assoc)
qed (rule word_subset_andI)

lemma word_eq_0_bits: "w = 0 \<longleftrightarrow> (\<forall>n. \<not> bit w n)" for w :: "'a::len word"
  by (auto simp: bit_eq_iff dest: bit_imp_le_length)

lemma word_and_eq_0I: "(\<And>n. bit a n \<Longrightarrow> bit b n \<Longrightarrow> False) \<Longrightarrow> a AND b = 0" for a b :: "'a::len word"
  by (auto simp: word_eq_0_bits [of "a AND b"] bit_and_iff)

lemma unat_plus_1_less: "a < b \<Longrightarrow> unat (a + 1) = unat a + 1" for a b :: "'a::len word"
proof -
  assume "a < b"
  then have "unat a < unat b" by (simp add: word_less_nat_alt)
  moreover have "unat b < 2 ^ LENGTH('a)" by simp
  ultimately have "unat a + 1 < 2 ^ LENGTH('a)" by linarith
  then show ?thesis by (simp add: unat_word_ariths)
qed

section \<open>Little-endian byte layout\<close>

definition le_bytes :: "nat \<Rightarrow> 'a::len word \<Rightarrow> byte list" where
  "le_bytes n w = map (\<lambda>i. ucast (drop_bit (8 * i) w)) [0..<n]"

lemma length_le_bytes [simp]: "length (le_bytes n w) = n"
  by (simp add: le_bytes_def)

lemma le_bytes_inj:
  fixes v w :: "'a::len word"
  assumes "le_bytes n v = le_bytes n w" and "LENGTH('a) \<le> 8 * n"
  shows "v = w"
proof (rule bit_word_eqI)
  fix k assume k: "k < LENGTH('a)"
  let ?i = "k div 8"
  have i: "?i < n" using k assms(2) by auto
  have "le_bytes n v ! ?i = le_bytes n w ! ?i" using assms(1) by simp
  then have eq: "(ucast (drop_bit (8 * ?i) v) :: byte) = ucast (drop_bit (8 * ?i) w)"
    using i by (simp add: le_bytes_def)
  have "bit (ucast (drop_bit (8 * ?i) v) :: byte) (k mod 8)
      = bit (ucast (drop_bit (8 * ?i) w) :: byte) (k mod 8)"
    using eq by simp
  then show "bit v k = bit w k"
    by (simp add: bit_ucast_iff bit_drop_bit_eq)
qed

text \<open>A bool member of a packed struct is one byte.\<close>

definition bool_byte :: "bool \<Rightarrow> byte" where
  "bool_byte b = (if b then 1 else 0)"

section \<open>Lists\<close>

text \<open>Two lists of equal length that differ in exactly one position.\<close>

lemma list_update_split:
  assumes "i < length xs"
  shows "xs = take i xs @ xs ! i # drop (Suc i) xs"
    and "xs[i := y] = take i xs @ y # drop (Suc i) xs"
  using assms by (auto simp: id_take_nth_drop upd_conv_take_nth_drop)

lemma take_min_length: "take (min n (length xs)) xs = take n xs"
  by (cases "n \<le> length xs") (auto simp: min_def)

end
