(* ===== verification/Pss_Protocol.thy ===== *)
theory Pss_Protocol
  imports Psf_Prelude
begin

text \<open>
  The wire protocol of \<^verbatim>\<open>event-integrator/daemon/include/pss_protocol.h\<close>: its enumerators,
  masks and packed structs, and the byte image of the two top-level messages.

  A C enum member of a packed struct is 32 bits wide and, on receipt, may hold a value that is no
  enumerator; an enum is therefore a \<open>u32\<close>, its enumerators are constants, and the range
  checks of the validator have something to reject. An array of length two is a pair, the longer
  arrays are lists whose length the well-formedness predicates fix. A \<open>float\<close> is its bit
  pattern. The targets are little-endian.
\<close>

section \<open>Sizes and versions\<close>

definition MAX_SENSORS_DATA_SUMMARY_SIZE :: nat where
  [pss_enum]: "MAX_SENSORS_DATA_SUMMARY_SIZE = 8"

definition MAX_TRAJECTORY_COORDINATES :: nat where
  [pss_enum]: "MAX_TRAJECTORY_COORDINATES = 10"

definition MAX_INDENTIFIER_LENGTH :: nat where
  [pss_enum]: "MAX_INDENTIFIER_LENGTH = 64"

definition PSS_SCHEMA_VERSION :: u16 where
  [pss_enum]: "PSS_SCHEMA_VERSION = 5"

section \<open>Enumerators\<close>

type_synonym EventType = u32
type_synonym ObjectType = u32
type_synonym OperationalMode = u32
type_synonym SafetyEventStatus = u32
type_synonym RecommendedAction = u32
type_synonym SeverityLevel = u8
type_synonym EventCause = u8

definition EVENT_0 :: EventType where [pss_enum]: "EVENT_0 = 0"
definition EVENT_23 :: EventType where [pss_enum]: "EVENT_23 = 23"
definition SW_FAIL :: EventType where [pss_enum]: "SW_FAIL = 24"
definition EVENT_UNKNOWN :: EventType where [pss_enum]: "EVENT_UNKNOWN = 25"
definition SENSOR_INVALID :: EventType where [pss_enum]: "SENSOR_INVALID = 26"
definition SENSOR_VALID :: EventType where [pss_enum]: "SENSOR_VALID = 27"
definition AI_PIPELINE_INVALID :: EventType where [pss_enum]: "AI_PIPELINE_INVALID = 28"
definition AI_PIPELINE_VALID :: EventType where [pss_enum]: "AI_PIPELINE_VALID = 29"
definition PSS_STATUS_NOOP :: EventType where [pss_enum]: "PSS_STATUS_NOOP = 30"

definition PERSON :: ObjectType where [pss_enum]: "PERSON = 7"
definition VEHICLE :: ObjectType where [pss_enum]: "VEHICLE = 8"
definition OBJECT :: ObjectType where [pss_enum]: "OBJECT = 9"

definition OPERATIONAL :: SeverityLevel where [pss_enum]: "OPERATIONAL = 0"
definition CRITICAL :: SeverityLevel where [pss_enum]: "CRITICAL = 1"

definition CAUSE_NONE :: EventCause where [pss_enum]: "CAUSE_NONE = 0"
definition CAUSE_SAIM_INIT :: EventCause where [pss_enum]: "CAUSE_SAIM_INIT = 1"
definition CAUSE_SAIM_INPUT_DEGRADED :: EventCause where [pss_enum]: "CAUSE_SAIM_INPUT_DEGRADED = 2"
definition CAUSE_SAIM_INTERNAL_ERROR :: EventCause where [pss_enum]: "CAUSE_SAIM_INTERNAL_ERROR = 3"
definition CAUSE_SAIM_STREAM_DISCONNECT :: EventCause where
  [pss_enum]: "CAUSE_SAIM_STREAM_DISCONNECT = 4"
definition CAUSE_SAIM_FRAME_DROP :: EventCause where [pss_enum]: "CAUSE_SAIM_FRAME_DROP = 5"
definition CAUSE_SAIM_UNKNOWN :: EventCause where [pss_enum]: "CAUSE_SAIM_UNKNOWN = 6"
definition CAUSE_SAIM_SENSOR_HEALTHY :: EventCause where [pss_enum]: "CAUSE_SAIM_SENSOR_HEALTHY = 7"
definition CAUSE_HEARTBEAT_FAULT :: EventCause where [pss_enum]: "CAUSE_HEARTBEAT_FAULT = 8"
definition CAUSE_GATEWAY_SEQUENCE_GAP :: EventCause where
  [pss_enum]: "CAUSE_GATEWAY_SEQUENCE_GAP = 9"
definition CAUSE_PSS_REQUEST_SEQUENCE_GAP :: EventCause where
  [pss_enum]: "CAUSE_PSS_REQUEST_SEQUENCE_GAP = 10"
definition CAUSE_PSS_REQUEST_ID_INVALID :: EventCause where
  [pss_enum]: "CAUSE_PSS_REQUEST_ID_INVALID = 11"
definition CAUSE_PSS_ERROR :: EventCause where [pss_enum]: "CAUSE_PSS_ERROR = 12"
definition CAUSE_CLIENT_INPUT_UNUSABLE :: EventCause where
  [pss_enum]: "CAUSE_CLIENT_INPUT_UNUSABLE = 13"
definition CAUSE_PSS_COMM_RECOVERED :: EventCause where [pss_enum]: "CAUSE_PSS_COMM_RECOVERED = 14"
definition CAUSE_SAFETY_MONITOR_LOST :: EventCause where
  [pss_enum]: "CAUSE_SAFETY_MONITOR_LOST = 15"
definition CAUSE_SOURCE_PRESENCE :: EventCause where [pss_enum]: "CAUSE_SOURCE_PRESENCE = 16"
definition CAUSE_PERCEPTION_MONITOR_LOST :: EventCause where
  [pss_enum]: "CAUSE_PERCEPTION_MONITOR_LOST = 17"
definition CAUSE_MDX_CLIENT_LOST :: EventCause where [pss_enum]: "CAUSE_MDX_CLIENT_LOST = 18"
definition CAUSE_COUNT :: EventCause where [pss_enum]: "CAUSE_COUNT = 19"

definition NORMAL :: OperationalMode where [pss_enum]: "NORMAL = 0"
definition DEGRADED :: OperationalMode where [pss_enum]: "DEGRADED = 1"
definition ERROR :: OperationalMode where [pss_enum]: "ERROR = 2"

definition FUSED :: SafetyEventStatus where [pss_enum]: "FUSED = 0"
definition PASSTHROUGH :: SafetyEventStatus where [pss_enum]: "PASSTHROUGH = 1"
definition STALE :: SafetyEventStatus where [pss_enum]: "STALE = 2"
definition UNKNOWN :: SafetyEventStatus where [pss_enum]: "UNKNOWN = 3"

text \<open>The bit pattern of \<open>1.0F\<close>.\<close>

definition F32_ONE :: f32 where [pss_enum]: "F32_ONE = 0x3F800000"

section \<open>Presence and input-state masks\<close>

definition PSS_PRESENCE_SAFETY_MONITOR :: u32 where
  [pss_enum]: "PSS_PRESENCE_SAFETY_MONITOR = 0x00000001"

definition PSS_PRESENCE_PERCEPTION_MONITOR :: u32 where
  [pss_enum]: "PSS_PRESENCE_PERCEPTION_MONITOR = 0x00000002"

definition PSS_PRESENCE_MDX_MASK :: u32 where
  [pss_enum]: "PSS_PRESENCE_MDX_MASK = 0x0000FF00"

definition PSS_PRESENCE_MDX_INSTANCE :: "u32 \<Rightarrow> u32" where
  "PSS_PRESENCE_MDX_INSTANCE k =
     (if 1 \<le> k \<and> k \<le> 8 then push_bit (unat (k - 1)) 0x00000100 else 0)"

definition PSS_INPUT_ANONYMOUS_CLIENT :: u32 where
  [pss_enum]: "PSS_INPUT_ANONYMOUS_CLIENT = 0x00000004"

definition PSS_INPUT_STATE_MASK :: u32 where
  [pss_enum]: "PSS_INPUT_STATE_MASK =
     (((PSS_PRESENCE_SAFETY_MONITOR OR PSS_PRESENCE_PERCEPTION_MONITOR) OR
       PSS_INPUT_ANONYMOUS_CLIENT) OR PSS_PRESENCE_MDX_MASK)"

definition PSS_INPUT_STATE_SHIFT :: nat where
  [pss_enum]: "PSS_INPUT_STATE_SHIFT = 16"

section \<open>Structs\<close>

record TrajectoryCoordinates =
  tc_x :: f32
  tc_y :: f32

record EventFusionMetadata =
  fm_coordinates :: "TrajectoryCoordinates list"
  fm_pipelineID :: u8
  fm_clientID :: u8
  fm_objectType :: "ObjectType \<times> ObjectType"
  fm_speed :: f32
  fm_objectID :: "u32 \<times> u32"

record MessageIntegrity =
  mi_schemaVersion :: u16
  mi_crc32 :: u32

record SafetyEvent =
  se_id :: u32
  se_sensorIdentifier :: "byte list"
  se_type :: EventType
  se_timestamp :: u64
  se_confidenceLevel :: f32
  se_processed :: bool
  se_fusionMetadata :: EventFusionMetadata
  se_cause :: EventCause
  se_integrity :: MessageIntegrity

record FusedSafetyEvent =
  fe_id :: u32
  fe_sensorIdentifier :: "byte list"
  fe_type :: EventType
  fe_cause :: EventCause
  fe_severity :: SeverityLevel
  fe_timestamp :: u64
  fe_confidenceLevel :: f32
  fe_status :: SafetyEventStatus
  fe_fusionMetadata :: EventFusionMetadata

record SensorData =
  sd_clientID :: u32
  sd_isHealthy :: bool
  sd_isTrustedSource :: bool
  sd_event :: FusedSafetyEvent

record SystemStatus =
  ss_hardwareErrorFlag :: bool
  ss_softwareErrorFlag :: bool
  ss_mode :: OperationalMode

record DecisionRequest =
  dr_requestId :: u32
  dr_sensorDataSummarySize :: u8
  dr_sensorDataSummary :: "SensorData list"
  dr_pssStatus :: SystemStatus
  dr_integrity :: MessageIntegrity

record DecisionResponse =
  rs_decisionId :: u32
  rs_action :: RecommendedAction
  rs_confidenceLevel :: f32

section \<open>Well-formed objects\<close>

text \<open>The array lengths that the C types fix.\<close>

definition fm_wf :: "EventFusionMetadata \<Rightarrow> bool" where
  "fm_wf m \<longleftrightarrow> length (fm_coordinates m) = MAX_TRAJECTORY_COORDINATES"

definition se_wf :: "SafetyEvent \<Rightarrow> bool" where
  "se_wf e \<longleftrightarrow> length (se_sensorIdentifier e) = MAX_INDENTIFIER_LENGTH \<and> fm_wf (se_fusionMetadata e)"

definition fe_wf :: "FusedSafetyEvent \<Rightarrow> bool" where
  "fe_wf e \<longleftrightarrow> length (fe_sensorIdentifier e) = MAX_INDENTIFIER_LENGTH \<and> fm_wf (fe_fusionMetadata e)"

definition dr_wf :: "DecisionRequest \<Rightarrow> bool" where
  "dr_wf r \<longleftrightarrow> length (dr_sensorDataSummary r) = MAX_SENSORS_DATA_SUMMARY_SIZE \<and>
     list_all (\<lambda>sd. fe_wf (sd_event sd)) (dr_sensorDataSummary r)"

section \<open>Objects cleared by memset\<close>

definition zero_coordinates :: TrajectoryCoordinates where
  "zero_coordinates = \<lparr>tc_x = 0, tc_y = 0\<rparr>"

definition zero_metadata :: EventFusionMetadata where
  "zero_metadata = \<lparr>fm_coordinates = replicate MAX_TRAJECTORY_COORDINATES zero_coordinates,
     fm_pipelineID = 0, fm_clientID = 0, fm_objectType = (0, 0), fm_speed = 0, fm_objectID = (0, 0)\<rparr>"

definition zero_event :: FusedSafetyEvent where
  "zero_event = \<lparr>fe_id = 0, fe_sensorIdentifier = replicate MAX_INDENTIFIER_LENGTH 0, fe_type = 0,
     fe_cause = 0, fe_severity = 0, fe_timestamp = 0, fe_confidenceLevel = 0, fe_status = 0,
     fe_fusionMetadata = zero_metadata\<rparr>"

definition zero_sensor_data :: SensorData where
  "zero_sensor_data = \<lparr>sd_clientID = 0, sd_isHealthy = False, sd_isTrustedSource = False,
     sd_event = zero_event\<rparr>"

definition zero_status :: SystemStatus where
  "zero_status = \<lparr>ss_hardwareErrorFlag = False, ss_softwareErrorFlag = False, ss_mode = 0\<rparr>"

definition zero_request :: DecisionRequest where
  "zero_request = \<lparr>dr_requestId = 0, dr_sensorDataSummarySize = 0,
     dr_sensorDataSummary = replicate MAX_SENSORS_DATA_SUMMARY_SIZE zero_sensor_data,
     dr_pssStatus = zero_status, dr_integrity = \<lparr>mi_schemaVersion = 0, mi_crc32 = 0\<rparr>\<rparr>"

text \<open>\<open>snprintf(buf, 64, "%s", s)\<close> on a zeroed buffer: at most 63 bytes of the string, then NUL.\<close>

definition snprintf_identifier :: "string \<Rightarrow> byte list" where
  "snprintf_identifier s =
     (let cs = map (\<lambda>c. of_nat (of_char c)) (take (MAX_INDENTIFIER_LENGTH - 1) s)
      in cs @ replicate (MAX_INDENTIFIER_LENGTH - length cs) 0)"

section \<open>Byte images\<close>

definition coordinates_bytes :: "TrajectoryCoordinates \<Rightarrow> byte list" where
  "coordinates_bytes c = le_bytes 4 (tc_x c) @ le_bytes 4 (tc_y c)"

definition metadata_bytes :: "EventFusionMetadata \<Rightarrow> byte list" where
  "metadata_bytes m =
     concat (map coordinates_bytes (fm_coordinates m)) @
     [fm_pipelineID m, fm_clientID m] @
     le_bytes 4 (fst (fm_objectType m)) @ le_bytes 4 (snd (fm_objectType m)) @
     le_bytes 4 (fm_speed m) @
     le_bytes 4 (fst (fm_objectID m)) @ le_bytes 4 (snd (fm_objectID m))"

definition fused_event_bytes :: "FusedSafetyEvent \<Rightarrow> byte list" where
  "fused_event_bytes e =
     le_bytes 4 (fe_id e) @ fe_sensorIdentifier e @ le_bytes 4 (fe_type e) @
     [fe_cause e, fe_severity e] @ le_bytes 8 (fe_timestamp e) @
     le_bytes 4 (fe_confidenceLevel e) @ le_bytes 4 (fe_status e) @
     metadata_bytes (fe_fusionMetadata e)"

definition sensor_data_bytes :: "SensorData \<Rightarrow> byte list" where
  "sensor_data_bytes d =
     le_bytes 4 (sd_clientID d) @ [bool_byte (sd_isHealthy d), bool_byte (sd_isTrustedSource d)] @
     fused_event_bytes (sd_event d)"

definition status_bytes :: "SystemStatus \<Rightarrow> byte list" where
  "status_bytes s =
     [bool_byte (ss_hardwareErrorFlag s), bool_byte (ss_softwareErrorFlag s)] @
     le_bytes 4 (ss_mode s)"

text \<open>The bytes before \<open>integrity.crc32\<close>: everything the CRC covers.\<close>

definition safety_event_payload :: "SafetyEvent \<Rightarrow> byte list" where
  "safety_event_payload e =
     le_bytes 4 (se_id e) @ se_sensorIdentifier e @ le_bytes 4 (se_type e) @
     le_bytes 8 (se_timestamp e) @ le_bytes 4 (se_confidenceLevel e) @
     [bool_byte (se_processed e)] @ metadata_bytes (se_fusionMetadata e) @ [se_cause e] @
     le_bytes 2 (mi_schemaVersion (se_integrity e))"

definition decision_request_payload :: "DecisionRequest \<Rightarrow> byte list" where
  "decision_request_payload r =
     le_bytes 4 (dr_requestId r) @ [dr_sensorDataSummarySize r] @
     concat (map sensor_data_bytes (dr_sensorDataSummary r)) @
     status_bytes (dr_pssStatus r) @ le_bytes 2 (mi_schemaVersion (dr_integrity r))"

definition decision_request_bytes :: "DecisionRequest \<Rightarrow> byte list" where
  "decision_request_bytes r = decision_request_payload r @ le_bytes 4 (mi_crc32 (dr_integrity r))"

section \<open>Sizes of the images\<close>

lemma length_metadata_bytes: "fm_wf m \<Longrightarrow> length (metadata_bytes m) = 102"
proof -
  have "length (concat (map coordinates_bytes cs)) = 8 * length cs" for cs
    by (induction cs) (auto simp: coordinates_bytes_def)
  then show "fm_wf m \<Longrightarrow> length (metadata_bytes m) = 102"
    by (simp add: metadata_bytes_def fm_wf_def pss_enum)
qed

lemma length_fused_event_bytes: "fe_wf e \<Longrightarrow> length (fused_event_bytes e) = 192"
  by (simp add: fused_event_bytes_def fe_wf_def length_metadata_bytes pss_enum)

lemma length_sensor_data_bytes: "fe_wf (sd_event d) \<Longrightarrow> length (sensor_data_bytes d) = 198"
  by (simp add: sensor_data_bytes_def length_fused_event_bytes)

lemma length_sensor_list_bytes:
  "list_all (\<lambda>sd. fe_wf (sd_event sd)) ds \<Longrightarrow>
   length (concat (map sensor_data_bytes ds)) = 198 * length ds"
  by (induction ds) (auto simp: length_sensor_data_bytes)

lemma length_safety_event_payload: "se_wf e \<Longrightarrow> length (safety_event_payload e) = 190"
  by (simp add: safety_event_payload_def se_wf_def length_metadata_bytes pss_enum)

lemma length_decision_request_payload:
  "dr_wf r \<Longrightarrow> length (decision_request_payload r) = 1597"
  by (simp add: decision_request_payload_def dr_wf_def length_sensor_list_bytes status_bytes_def
      pss_enum)

lemma zero_objects_wf [simp]:
  "fm_wf zero_metadata" "fe_wf zero_event" "dr_wf zero_request"
  by (auto simp: fm_wf_def fe_wf_def dr_wf_def zero_metadata_def zero_event_def zero_request_def
      zero_sensor_data_def list_all_iff pss_enum)

lemma length_snprintf_identifier [simp]:
  "length (snprintf_identifier s) = MAX_INDENTIFIER_LENGTH"
  by (auto simp: snprintf_identifier_def Let_def pss_enum)

lemma snprintf_identifier_terminated: "0 \<in> set (snprintf_identifier s)"
  by (auto simp: snprintf_identifier_def Let_def pss_enum)

end
