(* ===== verification/Pss_Message_Validate.thy ===== *)
theory Pss_Message_Validate
  imports Pss_Protocol
begin

text \<open>
  Integrity and field validation of the wire messages
  (\<^verbatim>\<open>safecomm/validation/src/pss_message_validate.c\<close>): the CRC-32, the operations that stamp
  and verify it, and the two validators with their error bitmask. A pointer argument that the code
  tests against NULL is an \<open>option\<close>.

  The locale \<open>sealed_message\<close> is what the rest of the system relies on in a message with an
  integrity trailer; both top-level messages interpret it.
\<close>

section \<open>Error flags\<close>

definition PSS_VALID :: u32 where [pss_enum]: "PSS_VALID = 0"
definition PSS_ERR_NULL_POINTER :: u32 where [pss_enum]: "PSS_ERR_NULL_POINTER = push_bit 0 1"
definition PSS_ERR_SCHEMA_VERSION :: u32 where [pss_enum]: "PSS_ERR_SCHEMA_VERSION = push_bit 1 1"
definition PSS_ERR_CRC :: u32 where [pss_enum]: "PSS_ERR_CRC = push_bit 2 1"
definition PSS_ERR_EVENT_TYPE :: u32 where [pss_enum]: "PSS_ERR_EVENT_TYPE = push_bit 3 1"
definition PSS_ERR_SEVERITY :: u32 where [pss_enum]: "PSS_ERR_SEVERITY = push_bit 4 1"
definition PSS_ERR_CONFIDENCE :: u32 where [pss_enum]: "PSS_ERR_CONFIDENCE = push_bit 5 1"
definition PSS_ERR_SENSOR_IDENTIFIER :: u32 where
  [pss_enum]: "PSS_ERR_SENSOR_IDENTIFIER = push_bit 6 1"
definition PSS_ERR_EVENT_CAUSE :: u32 where [pss_enum]: "PSS_ERR_EVENT_CAUSE = push_bit 7 1"
definition PSS_ERR_OBJECT_TYPE :: u32 where [pss_enum]: "PSS_ERR_OBJECT_TYPE = push_bit 8 1"
definition PSS_ERR_EVENT_STATUS :: u32 where [pss_enum]: "PSS_ERR_EVENT_STATUS = push_bit 9 1"
definition PSS_ERR_OPERATIONAL_MODE :: u32 where
  [pss_enum]: "PSS_ERR_OPERATIONAL_MODE = push_bit 10 1"
definition PSS_ERR_SENSOR_DATA_SUMMARY_SIZE :: u32 where
  [pss_enum]: "PSS_ERR_SENSOR_DATA_SUMMARY_SIZE = push_bit 11 1"
definition PSS_ERR_TIMESTAMP :: u32 where [pss_enum]: "PSS_ERR_TIMESTAMP = push_bit 12 1"

definition PSS_CLIENT_EVENTTYPE_MAX :: int where
  [pss_enum]: "PSS_CLIENT_EVENTTYPE_MAX = sint AI_PIPELINE_VALID"
definition PSS_EVENTTYPE_MAX :: int where [pss_enum]: "PSS_EVENTTYPE_MAX = sint PSS_STATUS_NOOP"
definition PSS_OBJECTTYPE_MAX :: int where [pss_enum]: "PSS_OBJECTTYPE_MAX = sint OBJECT"
definition PSS_SEVERITY_LEVEL_MAX :: u8 where [pss_enum]: "PSS_SEVERITY_LEVEL_MAX = CRITICAL"
definition PSS_OPERATIONAL_MODE_MAX :: int where [pss_enum]: "PSS_OPERATIONAL_MODE_MAX = sint ERROR"
definition PSS_SAFETY_EVENT_STATUS_MAX :: int where
  [pss_enum]: "PSS_SAFETY_EVENT_STATUS_MAX = sint UNKNOWN"

section \<open>CRC-32\<close>

text \<open>One iteration of the inner loop, one byte, a buffer.\<close>

definition crc_bit :: "u32 \<Rightarrow> u32" where
  "crc_bit crc = drop_bit 1 crc XOR (if crc AND 1 \<noteq> 0 then 0xEDB88320 else 0)"

definition crc_byte :: "u32 \<Rightarrow> byte \<Rightarrow> u32" where
  "crc_byte crc b = (crc_bit ^^ 8) (crc XOR ucast b)"

definition pssComputeCRC32 :: "byte list option \<Rightarrow> nat \<Rightarrow> u32" where
  "pssComputeCRC32 data len =
     (case data of
        None \<Rightarrow> (if len = 0 then 0xFFFFFFFF XOR 0xFFFFFFFF else 0)
      | Some p \<Rightarrow> foldl crc_byte 0xFFFFFFFF (take len p) XOR 0xFFFFFFFF)"

text \<open>The CRC of a whole buffer.\<close>

definition crc32_of :: "byte list \<Rightarrow> u32" where
  "crc32_of bs = pssComputeCRC32 (Some bs) (length bs)"

section \<open>Accessors and trailers\<close>

definition pssSetSchemaVersion :: "u16 \<Rightarrow> MessageIntegrity \<Rightarrow> MessageIntegrity" where
  "pssSetSchemaVersion v mi = mi\<lparr>mi_schemaVersion := v\<rparr>"

definition pssSetCrc32 :: "u32 \<Rightarrow> MessageIntegrity \<Rightarrow> MessageIntegrity" where
  "pssSetCrc32 v mi = mi\<lparr>mi_crc32 := v\<rparr>"

definition seal_event :: "SafetyEvent \<Rightarrow> SafetyEvent" where
  "seal_event e =
     (let e1 = e\<lparr>se_integrity := pssSetSchemaVersion PSS_SCHEMA_VERSION (se_integrity e)\<rparr>;
          e2 = e1\<lparr>se_integrity := pssSetCrc32 0 (se_integrity e1)\<rparr>;
          p = safety_event_payload e2
      in e2\<lparr>se_integrity := pssSetCrc32 (pssComputeCRC32 (Some p) (length p)) (se_integrity e2)\<rparr>)"

definition pssSafetyEventSetCRC :: "SafetyEvent option \<Rightarrow> SafetyEvent option" where
  "pssSafetyEventSetCRC event = map_option seal_event event"

definition pssSafetyEventVerifyCRC :: "SafetyEvent option \<Rightarrow> bool" where
  "pssSafetyEventVerifyCRC event =
     (case event of None \<Rightarrow> False
      | Some e \<Rightarrow> mi_crc32 (se_integrity e) =
          pssComputeCRC32 (Some (safety_event_payload e)) (length (safety_event_payload e)))"

definition seal_request :: "DecisionRequest \<Rightarrow> DecisionRequest" where
  "seal_request r =
     (let r1 = r\<lparr>dr_integrity := pssSetSchemaVersion PSS_SCHEMA_VERSION (dr_integrity r)\<rparr>;
          r2 = r1\<lparr>dr_integrity := pssSetCrc32 0 (dr_integrity r1)\<rparr>;
          p = decision_request_payload r2
      in r2\<lparr>dr_integrity := pssSetCrc32 (pssComputeCRC32 (Some p) (length p)) (dr_integrity r2)\<rparr>)"

definition pssDecisionRequestSetCRC :: "DecisionRequest option \<Rightarrow> DecisionRequest option" where
  "pssDecisionRequestSetCRC req = map_option seal_request req"

definition pssDecisionRequestVerifyCRC :: "DecisionRequest option \<Rightarrow> bool" where
  "pssDecisionRequestVerifyCRC req =
     (case req of None \<Rightarrow> False
      | Some r \<Rightarrow> mi_crc32 (dr_integrity r) =
          pssComputeCRC32 (Some (decision_request_payload r)) (length (decision_request_payload r)))"

section \<open>Field validation\<close>

text \<open>
  Comparison of binary32 values. A NaN compares false with everything; otherwise the order is that
  of the sign-magnitude integers, in which both zeros are equal.
\<close>

definition f32_is_nan :: "f32 \<Rightarrow> bool" where
  "f32_is_nan x \<longleftrightarrow> 0x7F800000 < x AND 0x7FFFFFFF"

definition f32_key :: "f32 \<Rightarrow> int" where
  "f32_key x = (if bit x 31 then - uint (x AND 0x7FFFFFFF) else uint (x AND 0x7FFFFFFF))"

definition f32_le :: "f32 \<Rightarrow> f32 \<Rightarrow> bool" where
  "f32_le x y \<longleftrightarrow> \<not> f32_is_nan x \<and> \<not> f32_is_nan y \<and> f32_key x \<le> f32_key y"

definition isNulTerminated :: "byte list \<Rightarrow> nat \<Rightarrow> bool" where
  "isNulTerminated s maxLen = list_ex (\<lambda>c. c = 0) (take maxLen s)"

definition eventTypeRequiresCriticalSeverity :: "EventType \<Rightarrow> bool" where
  "eventTypeRequiresCriticalSeverity type \<longleftrightarrow>
     type = SW_FAIL \<or> type = SENSOR_INVALID \<or> type = SENSOR_VALID \<or>
     type = AI_PIPELINE_INVALID \<or> type = AI_PIPELINE_VALID"

text \<open>The range check of an enum: \<open>(int)t < 0 || (int)t > max\<close>.\<close>

definition enumOutOfRange :: "u32 \<Rightarrow> int \<Rightarrow> bool" where
  "enumOutOfRange t maxVal \<longleftrightarrow> sint t < 0 \<or> sint t > maxVal"

definition validateCommonEventFields ::
  "EventType \<Rightarrow> int \<Rightarrow> f32 \<Rightarrow> u64 \<Rightarrow> byte list \<Rightarrow> EventCause \<Rightarrow> EventFusionMetadata \<Rightarrow> u32" where
  "validateCommonEventFields type maxEventType confidenceLevel timestamp sensorIdentifier cause meta =
     (let errors = PSS_VALID;
          errors = errors OR (if enumOutOfRange type maxEventType then PSS_ERR_EVENT_TYPE else 0);
          errors = errors OR
            (if \<not> (f32_le 0 confidenceLevel \<and> f32_le confidenceLevel F32_ONE)
             then PSS_ERR_CONFIDENCE else 0);
          errors = errors OR (if timestamp = 0 then PSS_ERR_TIMESTAMP else 0);
          errors = errors OR
            (if \<not> isNulTerminated sensorIdentifier MAX_INDENTIFIER_LENGTH
             then PSS_ERR_SENSOR_IDENTIFIER else 0);
          errors = errors OR (if cause \<ge> CAUSE_COUNT then PSS_ERR_EVENT_CAUSE else 0);
          errors = errors OR
            (if enumOutOfRange (fst (fm_objectType meta)) PSS_OBJECTTYPE_MAX then PSS_ERR_OBJECT_TYPE else 0);
          errors = errors OR
            (if enumOutOfRange (snd (fm_objectType meta)) PSS_OBJECTTYPE_MAX then PSS_ERR_OBJECT_TYPE else 0)
      in errors)"

definition validateFusedEventFields :: "FusedSafetyEvent option \<Rightarrow> u32" where
  "validateFusedEventFields ev =
     (case ev of None \<Rightarrow> PSS_ERR_NULL_POINTER
      | Some e \<Rightarrow>
        (let errors = validateCommonEventFields (fe_type e) PSS_EVENTTYPE_MAX (fe_confidenceLevel e)
               (fe_timestamp e) (fe_sensorIdentifier e) (fe_cause e) (fe_fusionMetadata e);
             errors = errors OR (if fe_severity e > PSS_SEVERITY_LEVEL_MAX then PSS_ERR_SEVERITY else 0);
             errors = errors OR
               (if enumOutOfRange (fe_status e) PSS_SAFETY_EVENT_STATUS_MAX
                then PSS_ERR_EVENT_STATUS else 0)
         in errors))"

definition validateSafetyEvent :: "SafetyEvent option \<Rightarrow> u32" where
  "validateSafetyEvent event =
     (case event of None \<Rightarrow> PSS_ERR_NULL_POINTER
      | Some e \<Rightarrow>
        (let errors = PSS_VALID;
             errors = errors OR
               (if mi_schemaVersion (se_integrity e) \<noteq> PSS_SCHEMA_VERSION
                then PSS_ERR_SCHEMA_VERSION else 0);
             errors = errors OR (if \<not> pssSafetyEventVerifyCRC event then PSS_ERR_CRC else 0);
             errors = errors OR
               validateCommonEventFields (se_type e) PSS_CLIENT_EVENTTYPE_MAX (se_confidenceLevel e)
                 (se_timestamp e) (se_sensorIdentifier e) (se_cause e) (se_fusionMetadata e)
         in errors))"

text \<open>
  The loop over the populated entries. Its state is the accumulated errors and the severity of the
  first entry that had one in range (\<open>haveSeverity\<close> and \<open>expectedSeverity\<close>).
\<close>

fun validate_entries ::
  "OperationalMode \<Rightarrow> SensorData list \<Rightarrow> u32 \<Rightarrow> SeverityLevel option \<Rightarrow> u32" where
  "validate_entries mode [] errors expected = errors"
| "validate_entries mode (sd # sds) errors expected =
     (let event = sd_event sd;
          errors = errors OR validateFusedEventFields (Some event)
      in if fe_severity event \<le> PSS_SEVERITY_LEVEL_MAX then
           (let errors = (case expected of None \<Rightarrow> errors
                          | Some s \<Rightarrow> if fe_severity event \<noteq> s then errors OR PSS_ERR_SEVERITY else errors);
                expected = (case expected of None \<Rightarrow> Some (fe_severity event) | Some s \<Rightarrow> Some s);
                errors = errors OR
                  (if mode = ERROR \<and> fe_severity event \<noteq> CRITICAL then PSS_ERR_SEVERITY else 0);
                errors = errors OR
                  (if (eventTypeRequiresCriticalSeverity (fe_type event) \<or> \<not> sd_isHealthy sd \<or>
                       \<not> sd_isTrustedSource sd) \<and> fe_severity event \<noteq> CRITICAL
                   then PSS_ERR_SEVERITY else 0)
            in validate_entries mode sds errors expected)
         else validate_entries mode sds errors expected)"

text \<open>The populated entries: every loop in the system caps the count at the array bound.\<close>

definition populated :: "DecisionRequest \<Rightarrow> SensorData list" where
  "populated r =
     take (min (unat (dr_sensorDataSummarySize r)) MAX_SENSORS_DATA_SUMMARY_SIZE)
       (dr_sensorDataSummary r)"

definition validateDecisionRequest :: "DecisionRequest option \<Rightarrow> u32" where
  "validateDecisionRequest req =
     (case req of None \<Rightarrow> PSS_ERR_NULL_POINTER
      | Some r \<Rightarrow>
        (let errors = PSS_VALID;
             mode = ss_mode (dr_pssStatus r);
             errors = errors OR
               (if mi_schemaVersion (dr_integrity r) \<noteq> PSS_SCHEMA_VERSION
                then PSS_ERR_SCHEMA_VERSION else 0);
             errors = errors OR (if \<not> pssDecisionRequestVerifyCRC req then PSS_ERR_CRC else 0);
             errors = errors OR
               (if unat (dr_sensorDataSummarySize r) > MAX_SENSORS_DATA_SUMMARY_SIZE
                then PSS_ERR_SENSOR_DATA_SUMMARY_SIZE else 0);
             errors = errors OR
               (if dr_sensorDataSummarySize r = 0 \<and>
                   \<not> (dr_requestId r = 0xFFFFFFFF \<and> sint mode = sint ERROR)
                then PSS_ERR_SENSOR_DATA_SUMMARY_SIZE else 0);
             errors = errors OR
               (if enumOutOfRange mode PSS_OPERATIONAL_MODE_MAX
                then PSS_ERR_OPERATIONAL_MODE else 0)
         in validate_entries mode (populated r) errors None))"

section \<open>Acceptance conditions\<close>

text \<open>The acceptance condition of one entry and of a request, as documented for the validator.\<close>

definition fused_event_ok :: "FusedSafetyEvent \<Rightarrow> bool" where
  "fused_event_ok e \<longleftrightarrow>
     fe_type e \<le> PSS_STATUS_NOOP \<and>
     f32_le 0 (fe_confidenceLevel e) \<and> f32_le (fe_confidenceLevel e) F32_ONE \<and>
     fe_timestamp e \<noteq> 0 \<and> 0 \<in> set (take MAX_INDENTIFIER_LENGTH (fe_sensorIdentifier e)) \<and>
     fe_cause e < CAUSE_COUNT \<and>
     fst (fm_objectType (fe_fusionMetadata e)) \<le> OBJECT \<and>
     snd (fm_objectType (fe_fusionMetadata e)) \<le> OBJECT \<and>
     fe_severity e \<le> CRITICAL \<and> fe_status e \<le> UNKNOWN"

definition critical_evidence :: "OperationalMode \<Rightarrow> SensorData \<Rightarrow> bool" where
  "critical_evidence mode sd \<longleftrightarrow>
     mode = ERROR \<or> eventTypeRequiresCriticalSeverity (fe_type (sd_event sd)) \<or>
     \<not> sd_isHealthy sd \<or> \<not> sd_isTrustedSource sd"

definition request_fields_ok :: "DecisionRequest \<Rightarrow> bool" where
  "request_fields_ok r \<longleftrightarrow>
     unat (dr_sensorDataSummarySize r) \<le> MAX_SENSORS_DATA_SUMMARY_SIZE \<and>
     (dr_sensorDataSummarySize r = 0 \<longrightarrow>
        dr_requestId r = 0xFFFFFFFF \<and> ss_mode (dr_pssStatus r) = ERROR) \<and>
     ss_mode (dr_pssStatus r) \<le> ERROR \<and>
     (\<forall>sd \<in> set (populated r). fused_event_ok (sd_event sd) \<and>
        (critical_evidence (ss_mode (dr_pssStatus r)) sd \<longrightarrow> fe_severity (sd_event sd) = CRITICAL)) \<and>
     (\<forall>sd \<in> set (populated r). \<forall>sd' \<in> set (populated r).
        fe_severity (sd_event sd) = fe_severity (sd_event sd'))"

definition request_ok :: "DecisionRequest \<Rightarrow> bool" where
  "request_ok r \<longleftrightarrow>
     mi_schemaVersion (dr_integrity r) = PSS_SCHEMA_VERSION \<and>
     mi_crc32 (dr_integrity r) = crc32_of (decision_request_payload r) \<and>
     request_fields_ok r"

section \<open>CRC-32 detects a corrupted byte\<close>

lemma word_xor_cancel: "a XOR c = b XOR c \<Longrightarrow> a = b" for a b c :: "'a::len word"
proof -
  assume "a XOR c = b XOR c"
  then have "(a XOR c) XOR c = (b XOR c) XOR c" by simp
  then show "a = b" by (simp add: xor.assoc)
qed

lemma ucast_byte_inj: "(ucast (b :: byte) :: u32) = ucast c \<Longrightarrow> b = c"
proof (rule bit_word_eqI)
  fix k assume eq: "(ucast b :: u32) = ucast c" and k: "k < LENGTH(8)"
  from eq have "bit (ucast b :: u32) k = bit (ucast c :: u32) k" by simp
  with k show "bit b k = bit c k" by (simp add: bit_ucast_iff)
qed

lemma crc_bit_top: "bit (crc_bit a) 31 \<longleftrightarrow> bit a 0"
proof -
  have "\<not> bit a 32" using bit_imp_le_length [of a 32] by auto
  then show ?thesis
    by (simp add: crc_bit_def bit_xor_iff bit_drop_bit_eq and_one_eq bit_0 odd_iff_mod_2_eq_one)
qed

lemma crc_bit_inj: "crc_bit a = crc_bit b \<Longrightarrow> a = b"
proof -
  assume eq: "crc_bit a = crc_bit b"
  from eq have low: "bit a 0 = bit b 0" using crc_bit_top by metis
  then have "(a AND 1 \<noteq> 0) = (b AND 1 \<noteq> 0)"
    by (simp add: and_one_eq bit_0 odd_iff_mod_2_eq_one)
  with eq have "drop_bit 1 a = drop_bit 1 b"
    by (auto simp: crc_bit_def dest: word_xor_cancel split: if_splits)
  then have "bit (drop_bit 1 a) k = bit (drop_bit 1 b) k" for k by simp
  then have high: "bit a (Suc k) = bit b (Suc k)" for k by (simp add: bit_drop_bit_eq)
  have "bit a k = bit b k" for k using low high by (cases k) auto
  then show "a = b" by (simp add: bit_eq_iff)
qed

lemma crc_bit_funpow_inj: "(crc_bit ^^ n) a = (crc_bit ^^ n) b \<Longrightarrow> a = b"
  by (induction n) (auto dest: crc_bit_inj)

lemma crc_byte_inj_crc: "crc_byte c b = crc_byte c' b \<Longrightarrow> c = c'"
  by (auto simp: crc_byte_def dest!: crc_bit_funpow_inj word_xor_cancel)

lemma crc_byte_inj_byte: "crc_byte c b = crc_byte c b' \<Longrightarrow> b = b'"
proof -
  assume "crc_byte c b = crc_byte c b'"
  then have "ucast b XOR c = ucast b' XOR c"
    by (auto simp: crc_byte_def xor.commute dest: crc_bit_funpow_inj)
  then show "b = b'" by (rule ucast_byte_inj [OF word_xor_cancel])
qed

lemma foldl_crc_byte_inj: "foldl crc_byte c bs = foldl crc_byte c' bs \<Longrightarrow> c = c'"
  by (induction bs arbitrary: c c') (auto dest: crc_byte_inj_crc)

lemma crc32_of_byte_change:
  assumes "i < length bs" and "b \<noteq> bs ! i"
  shows "crc32_of (bs[i := b]) \<noteq> crc32_of bs"
proof
  assume "crc32_of (bs[i := b]) = crc32_of bs"
  then have "foldl crc_byte 0xFFFFFFFF (bs[i := b]) = foldl crc_byte 0xFFFFFFFF bs"
    by (auto simp: crc32_of_def pssComputeCRC32_def dest: word_xor_cancel)
  then have "foldl crc_byte 0xFFFFFFFF (take i bs @ b # drop (Suc i) bs)
      = foldl crc_byte 0xFFFFFFFF (take i bs @ bs ! i # drop (Suc i) bs)"
    using list_update_split [OF assms(1)] by metis
  then have "crc_byte (foldl crc_byte 0xFFFFFFFF (take i bs)) b
      = crc_byte (foldl crc_byte 0xFFFFFFFF (take i bs)) (bs ! i)"
    by (simp add: foldl_crc_byte_inj)
  then have "b = bs ! i" by (rule crc_byte_inj_byte)
  with assms(2) show False by simp
qed

section \<open>Messages with an integrity trailer\<close>

text \<open>
  The contract of a message that carries a CRC-32 of its own bytes. PSS messages also
  carry a schema version and are verified through a pointer; the command packets of the SDMs
  only carry the CRC.
\<close>

locale crc_message =
  fixes payload :: "'m \<Rightarrow> byte list"
    and crc :: "'m \<Rightarrow> u32"
    and seal :: "'m \<Rightarrow> 'm"
    and verify :: "'m \<Rightarrow> bool"
  assumes verify_crc: "verify m \<longleftrightarrow> crc m = crc32_of (payload m)"
    and seal_crc: "crc (seal m) = crc32_of (payload (seal m))"
begin

lemma seal_verifies: "verify (seal m)"
  by (simp add: verify_crc seal_crc)

lemma corrupted_byte_rejected:
  assumes "verify m" and "i < length (payload m)" and "b \<noteq> payload m ! i"
    and "payload m' = (payload m)[i := b]" and "crc m' = crc m"
  shows "\<not> verify m'"
  using assms crc32_of_byte_change [of i "payload m" b] by (auto simp: verify_crc)

lemma corrupted_trailer_rejected:
  assumes "verify m" and "payload m' = payload m" and "crc m' \<noteq> crc m"
  shows "\<not> verify m'"
  using assms by (simp add: verify_crc)

end

locale sealed_message = crc_message +
  fixes version :: "'a \<Rightarrow> u16"
    and verify_ptr :: "'a option \<Rightarrow> bool"
  assumes verify_ptr_eq: "verify_ptr p \<longleftrightarrow> (case p of None \<Rightarrow> False | Some m \<Rightarrow> verify m)"
    and seal_version: "version (seal m) = PSS_SCHEMA_VERSION"

lemmas seal_defs = seal_event_def seal_request_def pssSetSchemaVersion_def pssSetCrc32_def Let_def
  safety_event_payload_def decision_request_payload_def crc32_of_def

interpretation se: sealed_message safety_event_payload "\<lambda>e. mi_crc32 (se_integrity e)" seal_event
  "\<lambda>e. pssSafetyEventVerifyCRC (Some e)" "\<lambda>e. mi_schemaVersion (se_integrity e)" pssSafetyEventVerifyCRC
  by unfold_locales (simp_all add: seal_defs pssSafetyEventVerifyCRC_def split: option.split)

interpretation dr: sealed_message decision_request_payload "\<lambda>r. mi_crc32 (dr_integrity r)" seal_request
  "\<lambda>r. pssDecisionRequestVerifyCRC (Some r)" "\<lambda>r. mi_schemaVersion (dr_integrity r)"
  pssDecisionRequestVerifyCRC
  by unfold_locales (simp_all add: seal_defs pssDecisionRequestVerifyCRC_def split: option.split)

lemma seal_request_fields [simp]:
  "dr_requestId (seal_request r) = dr_requestId r"
  "dr_sensorDataSummarySize (seal_request r) = dr_sensorDataSummarySize r"
  "dr_sensorDataSummary (seal_request r) = dr_sensorDataSummary r"
  "dr_pssStatus (seal_request r) = dr_pssStatus r"
  "mi_schemaVersion (dr_integrity (seal_request r)) = PSS_SCHEMA_VERSION"
  by (simp_all add: seal_request_def pssSetSchemaVersion_def pssSetCrc32_def Let_def)

lemma populated_seal [simp]: "populated (seal_request r) = populated r"
  by (simp add: populated_def)

section \<open>What the validators accept\<close>

lemma sint_of_small: "uint t < 2 ^ 31 \<Longrightarrow> sint t = uint t" for t :: u32
  using signed_take_bit_int_eq_self [of 31 "uint t"] uint_ge_0 [of t]
  by (simp add: sint_uint)

lemma sint_of_large: "\<not> uint t < 2 ^ 31 \<Longrightarrow> sint t < 0" for t :: u32
proof -
  assume "\<not> uint t < 2 ^ 31"
  then have "uint t div 2147483648 = 1" using uint_lt2p [of t] by auto
  then show "sint t < 0"
    by (simp add: sint_uint signed_take_bit_negative_iff bit_iff_odd_drop_bit drop_bit_eq_div)
qed

lemma enumOutOfRange_iff:
  assumes "0 \<le> k" and "k < 2 ^ 31"
  shows "enumOutOfRange t k \<longleftrightarrow> \<not> uint t \<le> k"
  using assms sint_of_small [of t] sint_of_large [of t]
  by (cases "uint t < 2 ^ 31") (auto simp: enumOutOfRange_def)

lemma enumOutOfRange_enum:
  "enumOutOfRange t PSS_EVENTTYPE_MAX \<longleftrightarrow> \<not> t \<le> PSS_STATUS_NOOP"
  "enumOutOfRange t PSS_CLIENT_EVENTTYPE_MAX \<longleftrightarrow> \<not> t \<le> AI_PIPELINE_VALID"
  "enumOutOfRange t PSS_OBJECTTYPE_MAX \<longleftrightarrow> \<not> t \<le> OBJECT"
  "enumOutOfRange t PSS_OPERATIONAL_MODE_MAX \<longleftrightarrow> \<not> t \<le> ERROR"
  "enumOutOfRange t PSS_SAFETY_EVENT_STATUS_MAX \<longleftrightarrow> \<not> t \<le> UNKNOWN"
  by (simp_all add: enumOutOfRange_iff pss_enum word_le_def)

lemma or_flag_eq_0: "e \<noteq> 0 \<Longrightarrow> a OR (if c then e else 0) = 0 \<longleftrightarrow> a = 0 \<and> \<not> c" for a e :: u32
  by simp

lemma err_flags_neq_0:
  "PSS_ERR_SCHEMA_VERSION \<noteq> 0" "PSS_ERR_CRC \<noteq> 0" "PSS_ERR_EVENT_TYPE \<noteq> 0" "PSS_ERR_SEVERITY \<noteq> 0"
  "PSS_ERR_CONFIDENCE \<noteq> 0" "PSS_ERR_SENSOR_IDENTIFIER \<noteq> 0" "PSS_ERR_EVENT_CAUSE \<noteq> 0"
  "PSS_ERR_OBJECT_TYPE \<noteq> 0" "PSS_ERR_EVENT_STATUS \<noteq> 0" "PSS_ERR_OPERATIONAL_MODE \<noteq> 0"
  "PSS_ERR_SENSOR_DATA_SUMMARY_SIZE \<noteq> 0" "PSS_ERR_TIMESTAMP \<noteq> 0" "PSS_ERR_NULL_POINTER \<noteq> 0"
  by (simp_all add: pss_enum)

lemmas err_accumulation = or_flag_eq_0 [OF err_flags_neq_0(1)] or_flag_eq_0 [OF err_flags_neq_0(2)]
  or_flag_eq_0 [OF err_flags_neq_0(3)] or_flag_eq_0 [OF err_flags_neq_0(4)]
  or_flag_eq_0 [OF err_flags_neq_0(5)] or_flag_eq_0 [OF err_flags_neq_0(6)]
  or_flag_eq_0 [OF err_flags_neq_0(7)] or_flag_eq_0 [OF err_flags_neq_0(8)]
  or_flag_eq_0 [OF err_flags_neq_0(9)] or_flag_eq_0 [OF err_flags_neq_0(10)]
  or_flag_eq_0 [OF err_flags_neq_0(11)] or_flag_eq_0 [OF err_flags_neq_0(12)]

lemma validateFusedEventFields_0:
  "validateFusedEventFields (Some e) = 0 \<longleftrightarrow> fused_event_ok e"
proof -
  have sev: "fe_severity e > PSS_SEVERITY_LEVEL_MAX \<longleftrightarrow> \<not> fe_severity e \<le> CRITICAL"
    by (auto simp: PSS_SEVERITY_LEVEL_MAX_def)
  have cause: "fe_cause e \<ge> CAUSE_COUNT \<longleftrightarrow> \<not> fe_cause e < CAUSE_COUNT" by auto
  have nul: "list_ex (\<lambda>c. c = 0) bs \<longleftrightarrow> 0 \<in> set bs" for bs :: "byte list"
    by (auto simp: list_ex_iff)
  show ?thesis
    unfolding validateFusedEventFields_def validateCommonEventFields_def isNulTerminated_def
      Let_def option.case enumOutOfRange_enum sev cause nul
    by (simp only: err_accumulation PSS_VALID_def fused_event_ok_def) blast
qed

lemma validate_entries_0:
  "validate_entries mode sds errors expected = 0 \<longleftrightarrow>
     errors = 0 \<and>
     (\<forall>sd \<in> set sds. fused_event_ok (sd_event sd) \<and>
        (critical_evidence mode sd \<longrightarrow> fe_severity (sd_event sd) = CRITICAL)) \<and>
     (case expected of
        Some s \<Rightarrow> \<forall>sd \<in> set sds. fe_severity (sd_event sd) = s
      | None \<Rightarrow> \<forall>sd \<in> set sds. \<forall>sd' \<in> set sds. fe_severity (sd_event sd) = fe_severity (sd_event sd'))"
proof (induction mode sds errors expected rule: validate_entries.induct)
  case (1 mode errors expected)
  then show ?case by (simp split: option.split)
next
  case (2 mode sd sds errors expected)
  let ?sev = "fe_severity (sd_event sd)"
  show ?case
  proof (cases "?sev \<le> PSS_SEVERITY_LEVEL_MAX")
    case True
    show ?thesis
      using 2(1) [OF refl refl True refl refl refl refl] True
      by (cases expected)
         (auto simp: Let_def validateFusedEventFields_0 err_flags_neq_0 critical_evidence_def
           split: if_splits)
  next
    case False
    then have "\<not> fused_event_ok (sd_event sd)"
      by (auto simp: fused_event_ok_def PSS_SEVERITY_LEVEL_MAX_def)
    then show ?thesis
      using 2(2) [OF refl refl False] False
      by (auto simp: Let_def validateFusedEventFields_0)
  qed
qed

lemma validateDecisionRequest_0: "validateDecisionRequest (Some r) = PSS_VALID \<longleftrightarrow> request_ok r"
proof -
  have mode: "sint (m :: u32) = sint ERROR \<longleftrightarrow> m = ERROR" for m
    by (rule word_eq_iff_signed [symmetric])
  show ?thesis
    unfolding validateDecisionRequest_def Let_def option.case validate_entries_0 PSS_VALID_def
      enumOutOfRange_enum mode dr.verify_crc
    by (simp only: err_accumulation request_ok_def request_fields_ok_def not_less) blast
qed

lemma request_fields_ok_seal [simp]: "request_fields_ok (seal_request r) = request_fields_ok r"
  by (simp add: request_fields_ok_def)

lemma validate_sealed: "validateDecisionRequest (Some (seal_request r)) = PSS_VALID \<longleftrightarrow> request_fields_ok r"
  by (simp only: validateDecisionRequest_0 request_ok_def dr.seal_version dr.seal_crc
      request_fields_ok_seal simp_thms)

text \<open>A small request in range: one healthy, trusted entry.\<close>

definition example_request :: DecisionRequest where
  "example_request =
     zero_request\<lparr>dr_sensorDataSummarySize := 1,
       dr_sensorDataSummary :=
         zero_sensor_data\<lparr>sd_isHealthy := True, sd_isTrustedSource := True,
           sd_event := zero_event\<lparr>fe_timestamp := 1\<rparr>\<rparr>
         # replicate 7 zero_sensor_data\<rparr>"

lemma example_request_ok: "request_fields_ok example_request"
  by (simp add: request_fields_ok_def populated_def example_request_def fused_event_ok_def
      critical_evidence_def eventTypeRequiresCriticalSeverity_def zero_request_def zero_status_def
      zero_event_def zero_metadata_def zero_sensor_data_def f32_le_def f32_is_nan_def f32_key_def pss_enum)

section \<open>Properties\<close>

text \<open>
  C31. The validator accepts a decision request exactly when the schema version and the CRC-32
  match, the entry count is at most 8 and zero only for the stop sentinel, the mode is in range, every
  populated entry is in range, critical evidence carries CRITICAL severity, and all
  entries carry one severity. A null request is refused.
\<close>

theorem validateDecisionRequest_accepts:
  "(validateDecisionRequest (Some r) = PSS_VALID \<longleftrightarrow> request_ok r) \<and>
   validateDecisionRequest None \<noteq> PSS_VALID"
  by (simp add: validateDecisionRequest_0) (simp add: validateDecisionRequest_def pss_enum)

text \<open>
  C32. Sealing round trip. A request sealed by \<open>pssDecisionRequestSetCRC\<close> passes the validator
  exactly when its fields are in range: sealing makes schema version and CRC right and changes
  no other field.
\<close>

theorem sealed_request_validates:
  "validateDecisionRequest (pssDecisionRequestSetCRC (Some r)) = PSS_VALID \<longleftrightarrow> request_fields_ok r"
  by (simp add: pssDecisionRequestSetCRC_def validate_sealed)

text \<open>
  C13. Corruption is detected. When an accepted request has one byte of its wire image
  before the trailer changed and the CRC field left as it was, the validator refuses the result, whatever
  the byte and its new value.
\<close>

theorem corrupted_request_rejected:
  assumes "validateDecisionRequest (Some r) = PSS_VALID"
    and "i < length (decision_request_payload r)" and "b \<noteq> decision_request_payload r ! i"
    and "decision_request_payload r' = (decision_request_payload r)[i := b]"
    and "mi_crc32 (dr_integrity r') = mi_crc32 (dr_integrity r)"
  shows "validateDecisionRequest (Some r') \<noteq> PSS_VALID"
proof -
  have "pssDecisionRequestVerifyCRC (Some r)"
    using assms(1) by (simp add: validateDecisionRequest_0 request_ok_def dr.verify_crc)
  then have "\<not> pssDecisionRequestVerifyCRC (Some r')"
    using assms(2-5) by (rule dr.corrupted_byte_rejected)
  then show ?thesis by (simp add: validateDecisionRequest_0 request_ok_def dr.verify_crc)
qed

theorem corrupted_request_rejected_witness:
  "validateDecisionRequest (Some ((seal_request example_request)\<lparr>dr_requestId := 7\<rparr>)) \<noteq> PSS_VALID"
proof -
  let ?r = "seal_request example_request"
  have "validateDecisionRequest (Some ?r) = PSS_VALID"
    by (simp only: validate_sealed example_request_ok)
  moreover have "dr_requestId ?r = 0" by (simp add: example_request_def zero_request_def)
  then have "decision_request_payload ?r ! 0 = 0" "0 < length (decision_request_payload ?r)"
    "decision_request_payload (?r\<lparr>dr_requestId := 7\<rparr>) = (decision_request_payload ?r)[0 := 7]"
    by (simp_all add: decision_request_payload_def le_bytes_def upt_rec)
  ultimately show ?thesis
    using corrupted_request_rejected [of ?r 0 7 "?r\<lparr>dr_requestId := 7\<rparr>"] by simp
qed

end
