(* ===== verification/Sdm_Request_State.thy ===== *)
theory Sdm_Request_State
  imports Pss_Message_Validate
begin

text \<open>
  What one decision request says about the faults a safety decision maker (SDM) holds:
  \<^verbatim>\<open>decision-makers/common/sdm_decision_request_state.h\<close>. The predicates and evaluators are pure
  in the source and in the model; a pointer the code tests against NULL is an \<open>option\<close>, an
  in-out parameter is returned.
\<close>

section \<open>Predicates on a request\<close>

abbreviation dr_mode :: "DecisionRequest \<Rightarrow> OperationalMode" where
  "dr_mode r \<equiv> ss_mode (dr_pssStatus r)"

abbreviation dr_event0 :: "DecisionRequest \<Rightarrow> FusedSafetyEvent" where
  "dr_event0 r \<equiv> sd_event (dr_sensorDataSummary r ! 0)"

definition SdmDecisionRequestIsNoopOnly :: "DecisionRequest option \<Rightarrow> bool" where
  [sdm_defs]: "SdmDecisionRequestIsNoopOnly req =
     (case req of None \<Rightarrow> False
      | Some r \<Rightarrow> dr_sensorDataSummarySize r = 1 \<and> fe_type (dr_event0 r) = PSS_STATUS_NOOP)"

definition SdmDecisionRequestContainsSwFail :: "DecisionRequest option \<Rightarrow> bool" where
  [sdm_defs]: "SdmDecisionRequestContainsSwFail req =
     (case req of None \<Rightarrow> False
      | Some r \<Rightarrow> list_ex (\<lambda>sd. fe_type (sd_event sd) = SW_FAIL) (populated r))"

definition SdmEventCauseIsGatewayComm :: "EventCause \<Rightarrow> bool" where
  [sdm_defs]: "SdmEventCauseIsGatewayComm cause \<longleftrightarrow>
     cause = CAUSE_PSS_ERROR \<or> cause = CAUSE_PSS_REQUEST_SEQUENCE_GAP \<or>
     cause = CAUSE_PSS_REQUEST_ID_INVALID"

definition SdmEventCauseIsSafetyMonitorLost :: "EventCause \<Rightarrow> bool" where
  [sdm_defs]: "SdmEventCauseIsSafetyMonitorLost cause \<longleftrightarrow> cause = CAUSE_SAFETY_MONITOR_LOST"

definition SdmEventCauseIsPerceptionMonitorLost :: "EventCause \<Rightarrow> bool" where
  [sdm_defs]: "SdmEventCauseIsPerceptionMonitorLost cause \<longleftrightarrow> cause = CAUSE_PERCEPTION_MONITOR_LOST"

definition SdmEventCauseIsMdxClientLost :: "EventCause \<Rightarrow> bool" where
  [sdm_defs]: "SdmEventCauseIsMdxClientLost cause \<longleftrightarrow> cause = CAUSE_MDX_CLIENT_LOST"

definition SdmEventCauseIsClientInputUnusable :: "EventCause \<Rightarrow> bool" where
  [sdm_defs]: "SdmEventCauseIsClientInputUnusable cause \<longleftrightarrow> cause = CAUSE_CLIENT_INPUT_UNUSABLE"

definition SdmDecisionRequestIsGatewayCommRecovered :: "DecisionRequest option \<Rightarrow> bool" where
  [sdm_defs]: "SdmDecisionRequestIsGatewayCommRecovered req =
     (SdmDecisionRequestIsNoopOnly req \<and>
      (case req of None \<Rightarrow> False
       | Some r \<Rightarrow> dr_mode r \<noteq> ERROR \<and> fe_cause (dr_event0 r) = CAUSE_PSS_COMM_RECOVERED))"

definition SdmDecisionRequestClearsPssModeError :: "DecisionRequest option \<Rightarrow> bool" where
  [sdm_defs]: "SdmDecisionRequestClearsPssModeError req =
     (case req of None \<Rightarrow> False | Some r \<Rightarrow> dr_mode r \<noteq> ERROR)"

definition SdmDecisionRequestClearsPssSwFail :: "DecisionRequest option \<Rightarrow> bool" where
  [sdm_defs]: "SdmDecisionRequestClearsPssSwFail req =
     (case req of None \<Rightarrow> False
      | Some r \<Rightarrow> dr_mode r \<noteq> ERROR \<and> \<not> SdmDecisionRequestIsNoopOnly req \<and>
          \<not> SdmDecisionRequestContainsSwFail req)"

section \<open>Sub-causes\<close>

definition SDM_PSS_SUB_MODE_ERROR :: u8 where [pss_enum]: "SDM_PSS_SUB_MODE_ERROR = 0x01"
definition SDM_PSS_SUB_GATEWAY_COMM :: u8 where [pss_enum]: "SDM_PSS_SUB_GATEWAY_COMM = 0x02"
definition SDM_PSS_SUB_SW_FAIL :: u8 where [pss_enum]: "SDM_PSS_SUB_SW_FAIL = 0x04"
definition SDM_PSS_SUB_MONITOR_LOST :: u8 where [pss_enum]: "SDM_PSS_SUB_MONITOR_LOST = 0x08"
definition SDM_PSS_SUB_PM_LOST :: u8 where [pss_enum]: "SDM_PSS_SUB_PM_LOST = 0x10"
definition SDM_PSS_SUB_MDX_LOST :: u8 where [pss_enum]: "SDM_PSS_SUB_MDX_LOST = 0x20"
definition SDM_PSS_SUB_INPUT_UNUSABLE :: u8 where [pss_enum]: "SDM_PSS_SUB_INPUT_UNUSABLE = 0x40"

definition SdmSwFailSubCause :: "FusedSafetyEvent \<Rightarrow> u8" where
  [sdm_defs]: "SdmSwFailSubCause ev =
     (let c = fe_cause ev in
      if SdmEventCauseIsGatewayComm c then SDM_PSS_SUB_GATEWAY_COMM
      else if SdmEventCauseIsSafetyMonitorLost c then SDM_PSS_SUB_MONITOR_LOST
      else if SdmEventCauseIsPerceptionMonitorLost c then SDM_PSS_SUB_PM_LOST
      else if SdmEventCauseIsMdxClientLost c then SDM_PSS_SUB_MDX_LOST
      else if SdmEventCauseIsClientInputUnusable c \<and>
              fst (fm_objectID (fe_fusionMetadata ev)) AND PSS_INPUT_STATE_MASK \<noteq> 0
        then SDM_PSS_SUB_INPUT_UNUSABLE
      else SDM_PSS_SUB_SW_FAIL)"

fun sw_fail_sub_causes :: "SensorData list \<Rightarrow> u8 \<Rightarrow> u8" where
  "sw_fail_sub_causes [] raised = raised"
| "sw_fail_sub_causes (sd # sds) raised =
     sw_fail_sub_causes sds
       (if fe_type (sd_event sd) = SW_FAIL then raised OR SdmSwFailSubCause (sd_event sd) else raised)"

definition SdmSwFailSubCausesRaised :: "DecisionRequest \<Rightarrow> u8" where
  "SdmSwFailSubCausesRaised req = sw_fail_sub_causes (populated req) 0"

record SdmPssSubCauseDelta =
  raised :: u8
  cleared :: u8

definition no_delta :: SdmPssSubCauseDelta where
  "no_delta = \<lparr>raised = 0, cleared = 0\<rparr>"

definition SdmPssSubCausesEvaluate :: "DecisionRequest option \<Rightarrow> SdmPssSubCauseDelta" where
  "SdmPssSubCausesEvaluate req =
     (case req of None \<Rightarrow> no_delta
      | Some r \<Rightarrow>
        if dr_mode r = ERROR then
          \<lparr>raised = SDM_PSS_SUB_MODE_ERROR OR SdmSwFailSubCausesRaised r, cleared = 0\<rparr>
        else
          (let c0 = (if SdmDecisionRequestClearsPssModeError req then SDM_PSS_SUB_MODE_ERROR else 0) in
           if SdmDecisionRequestIsNoopOnly req then
             \<lparr>raised = 0,
              cleared = (if SdmDecisionRequestIsGatewayCommRecovered req
                         then c0 OR SDM_PSS_SUB_GATEWAY_COMM else c0)\<rparr>
           else if SdmDecisionRequestClearsPssSwFail req then
             \<lparr>raised = 0, cleared = c0 OR (SDM_PSS_SUB_SW_FAIL OR SDM_PSS_SUB_GATEWAY_COMM)\<rparr>
           else \<lparr>raised = SdmSwFailSubCausesRaised r, cleared = c0\<rparr>))"

section \<open>Source presence\<close>

definition SDM_PRESENCE_GROUP_COUNT :: nat where [pss_enum]: "SDM_PRESENCE_GROUP_COUNT = 3"

definition SDM_PRESENCE_TRACKED_MASK :: u32 where
  [pss_enum]: "SDM_PRESENCE_TRACKED_MASK =
     ((PSS_PRESENCE_SAFETY_MONITOR OR PSS_PRESENCE_PERCEPTION_MONITOR) OR PSS_PRESENCE_MDX_MASK)"

definition SdmPresenceGroupMask :: "nat \<Rightarrow> u32" where
  [sdm_defs]: "SdmPresenceGroupMask g =
     (if g = 0 then PSS_PRESENCE_SAFETY_MONITOR
      else if g = 1 then PSS_PRESENCE_PERCEPTION_MONITOR
      else PSS_PRESENCE_MDX_MASK)"

definition SdmPresenceSubCause :: "nat \<Rightarrow> u8" where
  [sdm_defs]: "SdmPresenceSubCause g =
     (if g = 0 then SDM_PSS_SUB_MONITOR_LOST
      else if g = 1 then SDM_PSS_SUB_PM_LOST
      else SDM_PSS_SUB_MDX_LOST)"

definition is_presence_report :: "FusedSafetyEvent \<Rightarrow> bool" where
  "is_presence_report ev \<longleftrightarrow> fe_type ev = PSS_STATUS_NOOP \<and> fe_cause ev = CAUSE_SOURCE_PRESENCE"

text \<open>The last presence report of the populated entries, as (objectID[0], objectID[1]).\<close>

fun find_presence :: "SensorData list \<Rightarrow> (u32 \<times> u32) option \<Rightarrow> (u32 \<times> u32) option" where
  "find_presence [] found = found"
| "find_presence (sd # sds) found =
     find_presence sds
       (if is_presence_report (sd_event sd)
        then Some (fm_objectID (fe_fusionMetadata (sd_event sd))) else found)"

definition SdmDecisionRequestFindPresenceReport ::
  "DecisionRequest option \<Rightarrow> (u32 \<times> u32) option" where
  "SdmDecisionRequestFindPresenceReport req =
     (case req of None \<Rightarrow> None | Some r \<Rightarrow> find_presence (populated r) None)"

definition SdmSourceLostSubCause :: "EventCause \<Rightarrow> u8" where
  [sdm_defs]: "SdmSourceLostSubCause cause =
     (if SdmEventCauseIsSafetyMonitorLost cause then SDM_PSS_SUB_MONITOR_LOST
      else if SdmEventCauseIsPerceptionMonitorLost cause then SDM_PSS_SUB_PM_LOST
      else if SdmEventCauseIsMdxClientLost cause then SDM_PSS_SUB_MDX_LOST
      else 0)"

text \<open>First loop of the evaluator: the source-lost SW_FAILs raise and name their source.\<close>

fun presence_sw_fails :: "SensorData list \<Rightarrow> u8 \<times> u32 \<Rightarrow> u8 \<times> u32" where
  "presence_sw_fails [] st = st"
| "presence_sw_fails (sd # sds) (rs, seen) =
     (let ev = sd_event sd;
          lost = SdmSourceLostSubCause (fe_cause ev)
      in presence_sw_fails sds
           (if fe_type ev = SW_FAIL \<and> lost \<noteq> 0
            then (rs OR lost,
                  seen OR (fst (fm_objectID (fe_fusionMetadata ev)) AND SDM_PRESENCE_TRACKED_MASK))
            else (rs, seen)))"

text \<open>Second loop: one group of tracked sources against the report.\<close>

definition presence_group ::
  "OperationalMode \<Rightarrow> u32 \<Rightarrow> nat \<Rightarrow> SdmPssSubCauseDelta \<times> u32 \<Rightarrow> SdmPssSubCauseDelta \<times> u32" where
  "presence_group mode reported g = (\<lambda>(d, seen).
     (let group = SdmPresenceGroupMask g;
          present = reported AND group;
          missing = (seen AND group) AND NOT present;
          seen = seen OR present
      in if missing \<noteq> 0 then (d\<lparr>raised := raised d OR SdmPresenceSubCause g\<rparr>, seen)
         else if present \<noteq> 0 \<and> mode \<noteq> ERROR \<and> raised d AND SdmPresenceSubCause g = 0
           then (d\<lparr>cleared := cleared d OR SdmPresenceSubCause g\<rparr>, seen)
         else (d, seen)))"

definition SdmSourcePresenceEvaluate ::
  "u32 option \<Rightarrow> DecisionRequest option \<Rightarrow> SdmPssSubCauseDelta \<times> u32 option" where
  "SdmSourcePresenceEvaluate seenp req =
     (case (seenp, req) of
        (Some seen, Some r) \<Rightarrow>
          (let (rs, seen) = presence_sw_fails (populated r) (0, seen);
               d = \<lparr>raised = rs, cleared = 0\<rparr>
           in case SdmDecisionRequestFindPresenceReport req of
                None \<Rightarrow> (d, Some seen)
              | Some (present, expected) \<Rightarrow>
                  map_prod id Some
                    (fold (presence_group (dr_mode r) present) [0..<SDM_PRESENCE_GROUP_COUNT]
                       (d, seen OR (expected AND SDM_PRESENCE_TRACKED_MASK))))
      | _ \<Rightarrow> (no_delta, seenp))"

section \<open>Input state\<close>

fun input_sw_fails :: "SensorData list \<Rightarrow> u32 \<Rightarrow> u32" where
  "input_sw_fails [] ids = ids"
| "input_sw_fails (sd # sds) ids =
     (let ev = sd_event sd in
      input_sw_fails sds
        (if fe_type ev = SW_FAIL \<and> SdmEventCauseIsClientInputUnusable (fe_cause ev)
         then ids OR (fst (fm_objectID (fe_fusionMetadata ev)) AND PSS_INPUT_STATE_MASK) else ids))"

definition SdmSourceInputStateEvaluate ::
  "u32 option \<Rightarrow> DecisionRequest option \<Rightarrow> SdmPssSubCauseDelta \<times> u32 option" where
  "SdmSourceInputStateEvaluate unusableSeenp req =
     (case (unusableSeenp, req) of
        (Some before, Some r) \<Rightarrow>
          (let fromSwFail = input_sw_fails (populated r) 0;
               unusableSeen = before OR fromSwFail;
               unusableSeen =
                 (case SdmDecisionRequestFindPresenceReport req of
                    None \<Rightarrow> unusableSeen
                  | Some (present, expected) \<Rightarrow>
                      (let unusable = drop_bit PSS_INPUT_STATE_SHIFT present AND PSS_INPUT_STATE_MASK;
                           confirmed = drop_bit PSS_INPUT_STATE_SHIFT expected AND PSS_INPUT_STATE_MASK;
                           unusableSeen = unusableSeen OR unusable
                       in if dr_mode r \<noteq> ERROR
                          then unusableSeen AND NOT ((confirmed AND NOT unusable) AND NOT fromSwFail)
                          else unusableSeen));
               d = (if unusableSeen \<noteq> 0 then no_delta\<lparr>raised := SDM_PSS_SUB_INPUT_UNUSABLE\<rparr>
                    else if before \<noteq> 0 then no_delta\<lparr>cleared := SDM_PSS_SUB_INPUT_UNUSABLE\<rparr>
                    else no_delta)
           in (d, Some unusableSeen))
      | _ \<Rightarrow> (no_delta, unusableSeenp))"

section \<open>AI-pipeline verdicts\<close>

definition SDM_AI_VERDICT_SAW_INVALID :: u8 where [pss_enum]: "SDM_AI_VERDICT_SAW_INVALID = 0x01"
definition SDM_AI_VERDICT_ENTERED :: u8 where [pss_enum]: "SDM_AI_VERDICT_ENTERED = 0x02"
definition SDM_AI_VERDICT_CLEARED :: u8 where [pss_enum]: "SDM_AI_VERDICT_CLEARED = 0x04"

definition ai_verdict_step :: "SensorData \<Rightarrow> u8 \<times> u8 \<Rightarrow> u8 \<times> u8" where
  "ai_verdict_step sd = (\<lambda>(invalidActive, result).
     (let ev = sd_event sd in
      if fe_status ev = STALE then (invalidActive, result)
      else if fe_type ev = AI_PIPELINE_INVALID then
        (let result = result OR SDM_AI_VERDICT_SAW_INVALID in
         if invalidActive = 0 then (1, result OR SDM_AI_VERDICT_ENTERED) else (invalidActive, result))
      else if fe_type ev = AI_PIPELINE_VALID then
        (if invalidActive \<noteq> 0 then (0, result OR SDM_AI_VERDICT_CLEARED) else (invalidActive, result))
      else (invalidActive, result)))"

definition SdmAiPipelineVerdictApply ::
  "u8 option \<Rightarrow> DecisionRequest option \<Rightarrow> u8 \<times> u8 option" where
  "SdmAiPipelineVerdictApply invalidActive req =
     (case (invalidActive, req) of
        (Some a, Some r) \<Rightarrow>
          (let (a', result) = fold ai_verdict_step (populated r) (a, 0) in (result, Some a'))
      | _ \<Rightarrow> (0, invalidActive))"

section \<open>Contract of the evaluators\<close>

text \<open>
  What the three evaluators promise their callers, stated without their code: when a request
  refutes a sub-cause (bit number \<open>n\<close> of the set). \<open>apply_delta\<close> is how an SDM folds one
  evaluation into the set of active sub-causes it holds.
\<close>

definition apply_delta :: "u8 \<Rightarrow> SdmPssSubCauseDelta \<Rightarrow> u8" where
  "apply_delta active d = (active OR raised d) AND NOT (cleared d)"

fun run_evaluator ::
  "('s \<Rightarrow> DecisionRequest \<Rightarrow> SdmPssSubCauseDelta \<times> 's) \<Rightarrow> 's \<times> u8 \<Rightarrow> DecisionRequest list \<Rightarrow> 's \<times> u8"
where
  "run_evaluator ev st [] = st"
| "run_evaluator ev (s, active) (r # rs) =
     (let (d, s') = ev s r in run_evaluator ev (s', apply_delta active d) rs)"

definition pss_evaluate :: "unit \<Rightarrow> DecisionRequest \<Rightarrow> SdmPssSubCauseDelta \<times> unit" where
  "pss_evaluate u r = (SdmPssSubCausesEvaluate (Some r), ())"

definition presence_evaluate :: "u32 \<Rightarrow> DecisionRequest \<Rightarrow> SdmPssSubCauseDelta \<times> u32" where
  "presence_evaluate seen r = map_prod id the (SdmSourcePresenceEvaluate (Some seen) (Some r))"

definition input_evaluate :: "u32 \<Rightarrow> DecisionRequest \<Rightarrow> SdmPssSubCauseDelta \<times> u32" where
  "input_evaluate seen r = map_prod id the (SdmSourceInputStateEvaluate (Some seen) (Some r))"


definition reports_source_lost :: "DecisionRequest \<Rightarrow> nat \<Rightarrow> bool" where
  "reports_source_lost r n \<longleftrightarrow>
     list_ex (\<lambda>sd. fe_type (sd_event sd) = SW_FAIL \<and>
                   bit (SdmSourceLostSubCause (fe_cause (sd_event sd))) n) (populated r)"

text \<open>The sources known after a request's SW_FAILs and its report's expected set.\<close>

definition lost_sources :: "DecisionRequest \<Rightarrow> u32" where
  "lost_sources r = snd (presence_sw_fails (populated r) (0, 0))"

definition presence_missing :: "u32 \<Rightarrow> u32 \<Rightarrow> nat \<Rightarrow> u32" where
  "presence_missing known present g = (known AND SdmPresenceGroupMask g) AND NOT present"

definition presence_refutes :: "u32 \<Rightarrow> DecisionRequest \<Rightarrow> nat \<Rightarrow> bool" where
  "presence_refutes seen r n \<longleftrightarrow> dr_mode r \<noteq> ERROR \<and> 3 \<le> n \<and> n < 6 \<and> \<not> reports_source_lost r n \<and>
     (case SdmDecisionRequestFindPresenceReport (Some r) of
        None \<Rightarrow> False
      | Some (present, expected) \<Rightarrow>
          present AND SdmPresenceGroupMask (n - 3) \<noteq> 0 \<and>
          presence_missing ((seen OR lost_sources r) OR (expected AND SDM_PRESENCE_TRACKED_MASK))
            present (n - 3) = 0)"

definition input_confirms :: "DecisionRequest \<Rightarrow> nat \<Rightarrow> bool" where
  "input_confirms r k \<longleftrightarrow> dr_mode r \<noteq> ERROR \<and>
     (case SdmDecisionRequestFindPresenceReport (Some r) of
        None \<Rightarrow> False
      | Some (present, expected) \<Rightarrow>
          bit (drop_bit PSS_INPUT_STATE_SHIFT expected AND PSS_INPUT_STATE_MASK) k \<and>
          \<not> bit (drop_bit PSS_INPUT_STATE_SHIFT present AND PSS_INPUT_STATE_MASK) k \<and>
          \<not> bit (input_sw_fails (populated r) 0) k)"

definition input_reports :: "DecisionRequest \<Rightarrow> nat \<Rightarrow> bool" where
  "input_reports r k \<longleftrightarrow> bit (input_sw_fails (populated r) 0) k \<or>
     (case SdmDecisionRequestFindPresenceReport (Some r) of
        None \<Rightarrow> False
      | Some (present, expected) \<Rightarrow>
          bit (drop_bit PSS_INPUT_STATE_SHIFT present AND PSS_INPUT_STATE_MASK) k)"

definition input_refutes :: "u32 \<Rightarrow> DecisionRequest \<Rightarrow> nat \<Rightarrow> bool" where
  "input_refutes held r n \<longleftrightarrow> n = 6 \<and> held \<noteq> 0 \<and>
     list_all (\<lambda>k. (bit held k \<longrightarrow> input_confirms r k) \<and> \<not> input_reports r k) [0..<32]"

definition presence_delta ::
  "OperationalMode \<Rightarrow> u32 \<Rightarrow> u32 \<Rightarrow> nat \<Rightarrow> SdmPssSubCauseDelta \<Rightarrow> SdmPssSubCauseDelta" where
  "presence_delta mode present known g d =
     (if presence_missing known present g \<noteq> 0
      then d\<lparr>raised := raised d OR SdmPresenceSubCause g\<rparr>
      else if present AND SdmPresenceGroupMask g \<noteq> 0 \<and> mode \<noteq> ERROR \<and>
              raised d AND SdmPresenceSubCause g = 0
      then d\<lparr>cleared := cleared d OR SdmPresenceSubCause g\<rparr>
      else d)"

text \<open>The sources an SDM knows of once it has read a request.\<close>

definition presence_known :: "u32 \<Rightarrow> DecisionRequest \<Rightarrow> u32" where
  "presence_known seen r =
     (case SdmDecisionRequestFindPresenceReport (Some r) of
        None \<Rightarrow> seen OR lost_sources r
      | Some (present, expected) \<Rightarrow>
          (seen OR lost_sources r) OR (expected AND SDM_PRESENCE_TRACKED_MASK))"

definition presence_raises :: "u32 \<Rightarrow> DecisionRequest \<Rightarrow> nat \<Rightarrow> bool" where
  "presence_raises seen r n \<longleftrightarrow> reports_source_lost r n \<or>
     3 \<le> n \<and> n < 6 \<and>
     (case SdmDecisionRequestFindPresenceReport (Some r) of
        None \<Rightarrow> False
      | Some (present, expected) \<Rightarrow> presence_missing (presence_known seen r) present (n - 3) \<noteq> 0)"

text \<open>The verdict a list of entries ends with: the last one that is not STALE.\<close>

definition ai_verdicts :: "SensorData list \<Rightarrow> bool list" where
  "ai_verdicts sds =
     map (\<lambda>sd. fe_type (sd_event sd) = AI_PIPELINE_INVALID)
       (filter (\<lambda>sd. fe_status (sd_event sd) \<noteq> STALE \<and>
          (fe_type (sd_event sd) = AI_PIPELINE_INVALID \<or> fe_type (sd_event sd) = AI_PIPELINE_VALID)) sds)"

locale sub_cause_evaluator =
  fixes evaluate :: "'s \<Rightarrow> DecisionRequest \<Rightarrow> SdmPssSubCauseDelta \<times> 's"
    and refutes :: "'s \<Rightarrow> DecisionRequest \<Rightarrow> nat \<Rightarrow> bool"
  assumes disjoint: "raised (fst (evaluate s r)) AND cleared (fst (evaluate s r)) = 0"
    and clears: "bit (cleared (fst (evaluate s r))) n \<Longrightarrow> refutes s r n"
    and refutes_mode: "refutes s r n \<Longrightarrow> dr_mode r \<noteq> ERROR"
begin

lemma raised_becomes_active:
  assumes "bit (raised (fst (evaluate s r))) n"
  shows "bit (apply_delta a (fst (evaluate s r))) n"
proof -
  have "\<not> bit (cleared (fst (evaluate s r))) n"
    using disjoint [of s r] assms by (metis bit_0_eq bit_and_iff bot_apply bot_boolE)
  moreover have "n < 8" using assms bit_imp_le_length by fastforce
  ultimately show ?thesis
    using assms by (simp add: apply_delta_def bit_and_iff bit_or_iff bit_not_iff)
qed

lemma held_unless_refuted:
  assumes "bit a n" and "\<not> refutes s r n"
  shows "bit (apply_delta a (fst (evaluate s r))) n"
proof -
  have "n < 8" using assms(1) bit_imp_le_length by fastforce
  then show ?thesis
    using assms clears [of s r n] by (auto simp: apply_delta_def bit_and_iff bit_or_iff bit_not_iff)
qed

lemma held_until_refuted:
  assumes "bit a n" and "\<not> bit (snd (run_evaluator evaluate (s, a) rs)) n"
  shows "\<exists>xs r ys. rs = xs @ r # ys \<and> refutes (fst (run_evaluator evaluate (s, a) xs)) r n"
  using assms
proof (induction rs arbitrary: s a)
  case (Cons r rs)
  obtain d s' where ev: "evaluate s r = (d, s')" by fastforce
  show ?case
  proof (cases "refutes s r n")
    case True
    then have "r # rs = [] @ r # rs \<and> refutes (fst (run_evaluator evaluate (s, a) [])) r n" by simp
    then show ?thesis by blast
  next
    case False
    then have "bit (apply_delta a d) n" using held_unless_refuted [of a n s r] Cons.prems ev by simp
    moreover have "\<not> bit (snd (run_evaluator evaluate (s', apply_delta a d) rs)) n"
      using Cons.prems ev by simp
    ultimately obtain xs r' ys where "rs = xs @ r' # ys"
      and "refutes (fst (run_evaluator evaluate (s', apply_delta a d) xs)) r' n"
      using Cons.IH by blast
    then have "r # rs = (r # xs) @ r' # ys \<and>
        refutes (fst (run_evaluator evaluate (s, a) (r # xs))) r' n"
      using ev by simp
    then show ?thesis by blast
  qed
qed simp

lemma error_mode_clears_nothing:
  assumes "bit a n" and "\<forall>r\<in>set rs. dr_mode r = ERROR"
  shows "bit (snd (run_evaluator evaluate (s, a) rs)) n"
  using held_until_refuted [OF assms(1)] assms(2) refutes_mode by fastforce

end

section \<open>Helper facts\<close>

lemma sub_cause_bits:
  "bit SDM_PSS_SUB_MODE_ERROR n \<longleftrightarrow> n = 0"
  "bit SDM_PSS_SUB_GATEWAY_COMM n \<longleftrightarrow> n = 1"
  "bit SDM_PSS_SUB_SW_FAIL n \<longleftrightarrow> n = 2"
  "bit SDM_PSS_SUB_MONITOR_LOST n \<longleftrightarrow> n = 3"
  "bit SDM_PSS_SUB_PM_LOST n \<longleftrightarrow> n = 4"
  "bit SDM_PSS_SUB_MDX_LOST n \<longleftrightarrow> n = 5"
  "bit SDM_PSS_SUB_INPUT_UNUSABLE n \<longleftrightarrow> n = 6"
proof -
  have e: "bit (2 ^ k :: u8) n \<longleftrightarrow> n = k" if "k < 8" for k
    using that by (auto simp: bit_exp_iff)
  show "bit SDM_PSS_SUB_MODE_ERROR n \<longleftrightarrow> n = 0"
    using e [of 0] by (simp add: SDM_PSS_SUB_MODE_ERROR_def)
  show "bit SDM_PSS_SUB_GATEWAY_COMM n \<longleftrightarrow> n = 1"
    using e [of 1] by (simp add: SDM_PSS_SUB_GATEWAY_COMM_def)
  show "bit SDM_PSS_SUB_SW_FAIL n \<longleftrightarrow> n = 2"
    using e [of 2] by (simp add: SDM_PSS_SUB_SW_FAIL_def)
  show "bit SDM_PSS_SUB_MONITOR_LOST n \<longleftrightarrow> n = 3"
    using e [of 3] by (simp add: SDM_PSS_SUB_MONITOR_LOST_def)
  show "bit SDM_PSS_SUB_PM_LOST n \<longleftrightarrow> n = 4"
    using e [of 4] by (simp add: SDM_PSS_SUB_PM_LOST_def)
  show "bit SDM_PSS_SUB_MDX_LOST n \<longleftrightarrow> n = 5"
    using e [of 5] by (simp add: SDM_PSS_SUB_MDX_LOST_def)
  show "bit SDM_PSS_SUB_INPUT_UNUSABLE n \<longleftrightarrow> n = 6"
    using e [of 6] by (simp add: SDM_PSS_SUB_INPUT_UNUSABLE_def)
qed

lemmas bit_set_simps = bit_and_iff bit_or_iff bit_not_iff sub_cause_bits

lemma bit_presence_sub_cause: "g < 3 \<Longrightarrow> bit (SdmPresenceSubCause g) n \<longleftrightarrow> n = g + 3"
  by (auto simp: SdmPresenceSubCause_def sub_cause_bits)

lemma and_presence_sub_cause:
  "g < 3 \<Longrightarrow> w AND SdmPresenceSubCause g = 0 \<longleftrightarrow> \<not> bit w (g + 3)"
  by (auto simp add: word_eq_0_bits [of "w AND SdmPresenceSubCause g"] bit_and_iff bit_presence_sub_cause)

lemma sw_fail_sub_causes_bit:
  "bit (sw_fail_sub_causes sds w) n \<longleftrightarrow> bit w n \<or>
     (\<exists>sd\<in>set sds. fe_type (sd_event sd) = SW_FAIL \<and> bit (SdmSwFailSubCause (sd_event sd)) n)"
  by (induction sds w rule: sw_fail_sub_causes.induct) (auto simp: bit_or_iff)

lemma presence_sw_fails_fst_bit:
  "bit (fst (presence_sw_fails sds (w, k))) n \<longleftrightarrow> bit w n \<or>
     list_ex (\<lambda>sd. fe_type (sd_event sd) = SW_FAIL \<and>
                   bit (SdmSourceLostSubCause (fe_cause (sd_event sd))) n) sds"
  by (induction sds "(w, k)" arbitrary: w k rule: presence_sw_fails.induct)
     (auto simp: Let_def bit_or_iff)

lemma presence_sw_fails_snd_bit:
  "bit (snd (presence_sw_fails sds (w, k))) n \<longleftrightarrow> bit k n \<or>
     list_ex (\<lambda>sd. fe_type (sd_event sd) = SW_FAIL \<and>
                   SdmSourceLostSubCause (fe_cause (sd_event sd)) \<noteq> 0 \<and>
                   bit (fst (fm_objectID (fe_fusionMetadata (sd_event sd))) AND
                        SDM_PRESENCE_TRACKED_MASK) n) sds"
  by (induction sds "(w, k)" arbitrary: w k rule: presence_sw_fails.induct)
     (auto simp: Let_def bit_or_iff)

lemma presence_sw_fails_snd:
  "snd (presence_sw_fails (populated r) (w, k)) = k OR lost_sources r"
  unfolding lost_sources_def
  by (rule bit_word_eqI) (simp add: presence_sw_fails_snd_bit bit_or_iff)


lemma presence_missing_OR [simp]:
  "presence_missing (known OR (present AND h)) present g = presence_missing known present g"
  unfolding presence_missing_def by (rule bit_word_eqI) (auto simp: bit_set_simps)

lemma presence_delta_OR [simp]:
  "presence_delta mode present (known OR (present AND h)) = presence_delta mode present known"
  by (intro ext) (simp add: presence_delta_def)

lemma presence_missing_group:
  "(known AND SdmPresenceGroupMask g) AND NOT (present AND SdmPresenceGroupMask g) =
   presence_missing known present g"
  unfolding presence_missing_def by (rule bit_word_eqI) (auto simp: bit_set_simps)

lemma presence_group_eq:
  "presence_group mode present g (d, known) =
     (presence_delta mode present known g d, known OR (present AND SdmPresenceGroupMask g))"
  unfolding presence_group_def prod.case Let_def presence_missing_group presence_delta_def by simp

lemma fold_presence_group:
  "fst (fold (presence_group mode present) gs (d, known)) = fold (presence_delta mode present known) gs d"
  by (induction gs arbitrary: d known) (simp_all add: presence_group_eq)

lemma fold_presence_group_known:
  "bit (snd (fold (presence_group mode present) gs (d, known))) n \<longleftrightarrow>
     bit known n \<or> (\<exists>g\<in>set gs. bit (present AND SdmPresenceGroupMask g) n)"
  by (induction gs arbitrary: d known) (auto simp: presence_group_eq bit_or_iff)

lemma presence_delta_raised:
  "g < 3 \<Longrightarrow> bit (raised (presence_delta mode present known g d)) n \<longleftrightarrow>
     bit (raised d) n \<or> n = g + 3 \<and> presence_missing known present g \<noteq> 0"
  by (auto simp: presence_delta_def bit_or_iff bit_presence_sub_cause)

lemma presence_delta_cleared:
  "g < 3 \<Longrightarrow> bit (cleared (presence_delta mode present known g d)) n \<longleftrightarrow>
     bit (cleared d) n \<or> n = g + 3 \<and> presence_missing known present g = 0 \<and>
       present AND SdmPresenceGroupMask g \<noteq> 0 \<and> mode \<noteq> ERROR \<and> \<not> bit (raised d) n"
  by (auto simp: presence_delta_def bit_or_iff bit_presence_sub_cause and_presence_sub_cause)

lemma fold_presence_delta_raised:
  "\<forall>g\<in>set gs. g < 3 \<Longrightarrow> bit (raised (fold (presence_delta mode present known) gs d)) n \<longleftrightarrow>
     bit (raised d) n \<or> (\<exists>g\<in>set gs. n = g + 3 \<and> presence_missing known present g \<noteq> 0)"
  by (induction gs arbitrary: d) (auto simp: presence_delta_raised)

lemma fold_presence_delta_cleared:
  "\<forall>g\<in>set gs. g < 3 \<Longrightarrow> distinct gs \<Longrightarrow>
   bit (cleared (fold (presence_delta mode present known) gs d)) n \<longleftrightarrow>
     bit (cleared d) n \<or> (\<exists>g\<in>set gs. n = g + 3 \<and> presence_missing known present g = 0 \<and>
       present AND SdmPresenceGroupMask g \<noteq> 0 \<and> mode \<noteq> ERROR \<and> \<not> bit (raised d) n)"
  by (induction gs arbitrary: d) (auto simp: presence_delta_raised presence_delta_cleared)

lemma SdmPresenceSubCause_range: "bit (SdmSourceLostSubCause c) n \<Longrightarrow> 3 \<le> n \<and> n < 6"
  by (auto simp: SdmSourceLostSubCause_def sub_cause_bits split: if_splits)

lemma reports_source_lost_range: "reports_source_lost r n \<Longrightarrow> 3 \<le> n \<and> n < 6"
  by (auto simp: reports_source_lost_def list_ex_iff dest: SdmPresenceSubCause_range)

lemma presence_evaluate_split:
  "presence_evaluate seen r =
     (let d = \<lparr>raised = fst (presence_sw_fails (populated r) (0, seen)), cleared = 0\<rparr>
      in case SdmDecisionRequestFindPresenceReport (Some r) of
           None \<Rightarrow> (d, presence_known seen r)
         | Some (present, expected) \<Rightarrow>
             fold (presence_group (dr_mode r) present) [0..<3] (d, presence_known seen r))"
  by (cases "presence_sw_fails (populated r) (0, seen)")
     (use presence_sw_fails_snd [of r 0 seen] in
      \<open>auto simp: presence_evaluate_def SdmSourcePresenceEvaluate_def presence_known_def
        SDM_PRESENCE_GROUP_COUNT_def Let_def map_prod_def case_prod_beta split: option.splits\<close>)

lemma upt3_less: "\<forall>g\<in>set [0..<3]. g < (3 :: nat)" "distinct [0..<3]"
  by simp_all

lemma ex_group: "(\<exists>g\<in>{0..<3}. n = g + 3 \<and> P g) \<longleftrightarrow> 3 \<le> n \<and> n < 6 \<and> P (n - 3)" for n :: nat
  by (auto intro!: bexI [of _ "n - 3"])

lemma presence_evaluate_raised:
  "bit (raised (fst (presence_evaluate seen r))) n \<longleftrightarrow> presence_raises seen r n"
  by (auto simp: presence_evaluate_split Let_def presence_raises_def reports_source_lost_def
      fold_presence_group fold_presence_delta_raised [OF upt3_less(1)] ex_group
      presence_sw_fails_fst_bit split: option.splits)

lemma presence_evaluate_cleared:
  "bit (cleared (fst (presence_evaluate seen r))) n \<longleftrightarrow> presence_refutes seen r n"
  by (auto simp: presence_evaluate_split Let_def presence_refutes_def presence_known_def
      reports_source_lost_def fold_presence_group fold_presence_delta_cleared [OF upt3_less] ex_group
      presence_sw_fails_fst_bit split: option.splits)


lemma ex_upt3: "(\<exists>g\<in>{0..<3 :: nat}. P g) \<longleftrightarrow> P 0 \<or> P 1 \<or> P 2"
  by (simp add: eval_nat_numeral atLeastLessThanSuc) blast

lemma presence_evaluate_seen:
  "bit (snd (presence_evaluate seen r)) n \<longleftrightarrow> bit (presence_known seen r) n \<or>
     (case SdmDecisionRequestFindPresenceReport (Some r) of
        None \<Rightarrow> False
      | Some (present, expected) \<Rightarrow> bit (present AND SDM_PRESENCE_TRACKED_MASK) n)"
proof -
  have "(\<exists>g\<in>{0..<3}. bit (p AND SdmPresenceGroupMask g) n) \<longleftrightarrow>
        bit (p AND SDM_PRESENCE_TRACKED_MASK) n" for p
    by (simp only: ex_upt3 SdmPresenceGroupMask_def SDM_PRESENCE_TRACKED_MASK_def bit_and_iff bit_or_iff)
       auto
  then show ?thesis
    by (auto simp: presence_evaluate_split Let_def fold_presence_group_known split: option.splits)
qed

interpretation sp: sub_cause_evaluator presence_evaluate presence_refutes
proof
  fix s r n
  show "raised (fst (presence_evaluate s r)) AND cleared (fst (presence_evaluate s r)) = 0"
    by (rule word_and_eq_0I)
       (auto simp: presence_evaluate_raised presence_evaluate_cleared presence_raises_def
          presence_refutes_def presence_known_def split: option.splits)
qed (auto simp: presence_evaluate_cleared presence_refutes_def)


lemma pss_evaluate_raised:
  "bit (raised (fst (pss_evaluate u r))) n \<longleftrightarrow>
     dr_mode r = ERROR \<and> n = 0 \<or>
     (dr_mode r = ERROR \<or> \<not> SdmDecisionRequestIsNoopOnly (Some r)) \<and>
     bit (SdmSwFailSubCausesRaised r) n"
  by (auto simp: pss_evaluate_def SdmPssSubCausesEvaluate_def SdmDecisionRequestClearsPssSwFail_def
      SdmDecisionRequestContainsSwFail_def SdmSwFailSubCausesRaised_def sw_fail_sub_causes_bit
      list_ex_iff Let_def bit_or_iff sub_cause_bits split: if_splits)



lemma input_evaluate_eq:
  "input_evaluate held r =
     (let from = input_sw_fails (populated r) 0;
          held' = (case SdmDecisionRequestFindPresenceReport (Some r) of
                     None \<Rightarrow> held OR from
                   | Some (present, expected) \<Rightarrow>
                       (let unusable = drop_bit PSS_INPUT_STATE_SHIFT present AND PSS_INPUT_STATE_MASK;
                            confirmed = drop_bit PSS_INPUT_STATE_SHIFT expected AND PSS_INPUT_STATE_MASK
                        in if dr_mode r \<noteq> ERROR
                           then ((held OR from) OR unusable) AND NOT ((confirmed AND NOT unusable) AND NOT from)
                           else (held OR from) OR unusable))
      in (if held' \<noteq> 0 then no_delta\<lparr>raised := SDM_PSS_SUB_INPUT_UNUSABLE\<rparr>
          else if held \<noteq> 0 then no_delta\<lparr>cleared := SDM_PSS_SUB_INPUT_UNUSABLE\<rparr>
          else no_delta, held'))"
  by (simp add: input_evaluate_def SdmSourceInputStateEvaluate_def Let_def split: option.splits)

lemma input_evaluate_delta:
  "fst (input_evaluate held r) =
     (if snd (input_evaluate held r) \<noteq> 0 then no_delta\<lparr>raised := SDM_PSS_SUB_INPUT_UNUSABLE\<rparr>
      else if held \<noteq> 0 then no_delta\<lparr>cleared := SDM_PSS_SUB_INPUT_UNUSABLE\<rparr> else no_delta)"
  by (simp add: input_evaluate_eq Let_def)

lemma held_update_bit:
  "k < 32 \<Longrightarrow> bit (((h OR f) OR u) AND NOT ((c AND NOT u) AND NOT f)) k \<longleftrightarrow>
     bit f k \<or> bit u k \<or> bit h k \<and> \<not> (bit c k \<and> \<not> bit u k \<and> \<not> bit f k)" for f u c h :: u32
  by (auto simp: bit_or_iff bit_and_iff bit_not_iff)

lemma input_evaluate_held:
  "bit (snd (input_evaluate held r)) k \<longleftrightarrow> input_reports r k \<or> bit held k \<and> \<not> input_confirms r k"
proof (cases "k < 32")
  case True
  then show ?thesis
    unfolding input_evaluate_eq Let_def snd_conv input_reports_def input_confirms_def
    by (cases "SdmDecisionRequestFindPresenceReport (Some r)"; cases "dr_mode r = ERROR")
       (auto simp: held_update_bit bit_or_iff [of "held OR f" for f] bit_or_iff [of held] simp del: bit.conj_disj_distrib bit.de_Morgan_conj)
next
  case False
  then have "\<not> bit w k" for w :: u32 using bit_imp_le_length [of w k] by auto
  then show ?thesis by (auto simp: input_reports_def split: option.splits)
qed


lemma input_sw_fails_bit:
  "bit (input_sw_fails sds w) k \<longleftrightarrow> bit w k \<or>
     (\<exists>sd\<in>set sds. fe_type (sd_event sd) = SW_FAIL \<and>
        SdmEventCauseIsClientInputUnusable (fe_cause (sd_event sd)) \<and>
        bit (fst (fm_objectID (fe_fusionMetadata (sd_event sd))) AND PSS_INPUT_STATE_MASK) k)"
  by (induction sds w rule: input_sw_fails.induct) (auto simp: Let_def bit_or_iff)

lemma input_evaluate_cleared:
  assumes "bit (cleared (fst (input_evaluate held r))) n"
  shows "input_refutes held r n"
proof -
  have z: "snd (input_evaluate held r) = 0" "held \<noteq> 0" "n = 6"
    using assms by (auto simp: input_evaluate_delta no_delta_def sub_cause_bits split: if_splits)
  have "\<not> (input_reports r k \<or> bit held k \<and> \<not> input_confirms r k)" for k
    using input_evaluate_held [of held r k] z by simp
  then show ?thesis using z by (auto simp: input_refutes_def list_all_iff)
qed

interpretation si: sub_cause_evaluator input_evaluate input_refutes
proof
  fix s r n
  show "raised (fst (input_evaluate s r)) AND cleared (fst (input_evaluate s r)) = 0"
    by (simp add: input_evaluate_delta no_delta_def)
  show "bit (cleared (fst (input_evaluate s r))) n \<Longrightarrow> input_refutes s r n"
    by (rule input_evaluate_cleared)
  assume ref: "input_refutes s r n"
  then obtain k where k: "bit s k" by (auto simp: input_refutes_def word_eq_0_bits)
  then have "k < 32" using bit_imp_le_length by fastforce
  then show "dr_mode r \<noteq> ERROR"
    using ref k by (auto simp: input_refutes_def list_all_iff input_confirms_def)
qed

section \<open>Known sources never leave the record\<close>

lemma presence_seen_mono: "bit seen k \<Longrightarrow> bit (snd (presence_evaluate seen r)) k"
  by (auto simp: presence_evaluate_seen presence_known_def bit_or_iff split: option.splits)

lemma run_presence_seen_mono:
  "bit seen k \<Longrightarrow> bit (fst (run_evaluator presence_evaluate (seen, a) rs)) k"
proof (induction rs arbitrary: seen a)
  case (Cons r rs)
  then show ?case
    using presence_seen_mono [of seen k r] by (cases "presence_evaluate seen r") auto
qed simp

text \<open>A request that refutes a loss names every source of the group the SDM has recorded.\<close>

lemma presence_refutes_names:
  assumes ref: "presence_refutes seen r n" and "bit seen k" and "bit (SdmPresenceGroupMask (n - 3)) k"
  shows "dr_mode r \<noteq> ERROR \<and>
    (\<exists>present expected. SdmDecisionRequestFindPresenceReport (Some r) = Some (present, expected) \<and>
       bit present k)"
proof -
  obtain p e where rep: "SdmDecisionRequestFindPresenceReport (Some r) = Some (p, e)"
    and z: "presence_missing ((seen OR lost_sources r) OR (e AND SDM_PRESENCE_TRACKED_MASK)) p (n - 3) = 0"
    using ref by (auto simp: presence_refutes_def split: option.splits)
  have "k < 32" using assms(2) bit_imp_le_length by fastforce
  then have "bit p k"
    using z assms(2,3) unfolding presence_missing_def word_eq_0_bits
    by (auto simp: bit_or_iff bit_and_iff bit_not_iff)
  then show ?thesis using ref rep by (auto simp: presence_refutes_def)
qed

lemma source_loss_held:
  assumes "bit a n" and "bit seen k" and "bit (SdmPresenceGroupMask (n - 3)) k"
    and "\<not> bit (snd (run_evaluator presence_evaluate (seen, a) rs)) n"
  shows "\<exists>r\<in>set rs. dr_mode r \<noteq> ERROR \<and>
    (\<exists>present expected. SdmDecisionRequestFindPresenceReport (Some r) = Some (present, expected) \<and>
       bit present k)"
proof -
  obtain xs r ys where "rs = xs @ r # ys"
    and "presence_refutes (fst (run_evaluator presence_evaluate (seen, a) xs)) r n"
    using sp.held_until_refuted [OF assms(1,4)] by blast
  then show ?thesis
    using presence_refutes_names run_presence_seen_mono [OF assms(2)] assms(3)
    by (metis in_set_conv_decomp)
qed


section \<open>AI-pipeline verdicts\<close>

lemma ai_types_differ [simp]: "AI_PIPELINE_VALID \<noteq> AI_PIPELINE_INVALID"
  "AI_PIPELINE_INVALID \<noteq> AI_PIPELINE_VALID"
  by (simp_all add: pss_enum)

lemma ai_result_bits:
  "bit (SDM_AI_VERDICT_SAW_INVALID) n \<longleftrightarrow> n = 0"
  "bit (SDM_AI_VERDICT_ENTERED) n \<longleftrightarrow> n = 1"
  "bit (SDM_AI_VERDICT_CLEARED) n \<longleftrightarrow> n = 2"
  using sub_cause_bits(1,2,3) [of n] by (simp_all add: pss_enum)

lemma fold_ai_verdict_active:
  "fst (fold ai_verdict_step sds (a, w)) \<noteq> 0 \<longleftrightarrow> last ((a \<noteq> 0) # ai_verdicts sds)"
proof (induction sds arbitrary: a w)
  case (Cons sd sds)
  obtain a' w' where st: "ai_verdict_step sd (a, w) = (a', w')" by fastforce
  then have "last ((a \<noteq> 0) # ai_verdicts (sd # sds)) = last ((a' \<noteq> 0) # ai_verdicts sds)"
    by (auto simp: ai_verdict_step_def ai_verdicts_def Let_def split: if_splits)
  then show ?case using Cons [of a' w'] st by simp
qed (simp add: ai_verdicts_def)

lemma fold_ai_verdict_result:
  "bit (snd (fold ai_verdict_step sds (a, w))) 0 \<longleftrightarrow> bit w 0 \<or> True \<in> set (ai_verdicts sds)"
  "a = 0 \<or> bit w 1 \<Longrightarrow>
   bit (snd (fold ai_verdict_step sds (a, w))) 1 \<longleftrightarrow> bit w 1 \<or> True \<in> set (ai_verdicts sds)"
  by (induction sds arbitrary: a w)
     (auto simp: ai_verdict_step_def ai_verdicts_def Let_def bit_or_iff ai_result_bits)

text \<open>Requests and events the examples use: the given events in the leading entries, the rest zero.\<close>

definition request_of :: "OperationalMode \<Rightarrow> FusedSafetyEvent list \<Rightarrow> DecisionRequest" where
  "request_of mode evs =
     zero_request\<lparr>dr_sensorDataSummarySize := of_nat (length evs),
       dr_sensorDataSummary :=
         map (\<lambda>ev. zero_sensor_data\<lparr>sd_event := ev, sd_isHealthy := True, sd_isTrustedSource := True\<rparr>) evs @
         replicate (MAX_SENSORS_DATA_SUMMARY_SIZE - length evs) zero_sensor_data,
       dr_pssStatus := zero_status\<lparr>ss_mode := mode\<rparr>\<rparr>"

definition presence_event :: "u32 \<Rightarrow> u32 \<Rightarrow> FusedSafetyEvent" where
  "presence_event present expected =
     zero_event\<lparr>fe_type := PSS_STATUS_NOOP, fe_cause := CAUSE_SOURCE_PRESENCE,
       fe_fusionMetadata := zero_metadata\<lparr>fm_objectID := (present, expected)\<rparr>\<rparr>"

definition sw_fail_event :: "EventCause \<Rightarrow> u32 \<Rightarrow> FusedSafetyEvent" where
  "sw_fail_event cause ident =
     zero_event\<lparr>fe_type := SW_FAIL, fe_cause := cause, fe_severity := CRITICAL,
       fe_fusionMetadata := zero_metadata\<lparr>fm_objectID := (ident, 0)\<rparr>\<rparr>"

lemma request_of_simps [simp]:
  "dr_mode (request_of mode evs) = mode"
  "length evs \<le> 8 \<Longrightarrow> populated (request_of mode evs) =
     map (\<lambda>ev. zero_sensor_data\<lparr>sd_event := ev, sd_isHealthy := True, sd_isTrustedSource := True\<rparr>) evs"
proof -
  assume le: "length evs \<le> 8"
  then have "unat (of_nat (length evs) :: u8) = length evs"
    by (simp add: unat_of_nat)
  then show "populated (request_of mode evs) =
     map (\<lambda>ev. zero_sensor_data\<lparr>sd_event := ev, sd_isHealthy := True, sd_isTrustedSource := True\<rparr>) evs"
    using le by (simp add: populated_def request_of_def MAX_SENSORS_DATA_SUMMARY_SIZE_def)
qed (simp add: request_of_def zero_request_def)

section \<open>Properties\<close>

text \<open>
  C9. A lost source is held until that source is named again. Once a source-lost sub-cause
  (bit \<open>n\<close>, 3 Safety Monitor, 4 Perception Monitor, 5 MDX clients) is active and the SDM has
  recorded source bit \<open>k\<close> of that group, no sequence of requests makes the sub-cause inactive
  unless one of them, with PSS not in ERROR, carries a presence report that names that very
  source; traffic of other sources and any number of ERROR-mode requests clear nothing.
\<close>

theorem source_loss_held_until_named:
  assumes "bit a n" and "bit seen k" and "bit (SdmPresenceGroupMask (n - 3)) k"
    and "\<not> bit (snd (run_evaluator presence_evaluate (seen, a) rs)) n"
  shows "\<exists>r\<in>set rs. dr_mode r \<noteq> ERROR \<and>
    (\<exists>present expected. SdmDecisionRequestFindPresenceReport (Some r) = Some (present, expected) \<and>
       bit present k)"
  using assms by (rule source_loss_held)

theorem source_loss_held_until_named_witness:
  "\<exists>r\<in>{request_of NORMAL [presence_event 0 1], request_of NORMAL [presence_event 1 1]}.
     dr_mode r \<noteq> ERROR \<and>
     (\<exists>present expected. SdmDecisionRequestFindPresenceReport (Some r) = Some (present, expected) \<and>
        bit present 0)"
proof -
  let ?rs = "[request_of NORMAL [presence_event 0 1], request_of NORMAL [presence_event 1 1]]"
  have "run_evaluator presence_evaluate (1, 8) ?rs = (1, 0)"
    by (simp add: presence_evaluate_def SdmSourcePresenceEvaluate_def apply_delta_def
        SdmDecisionRequestFindPresenceReport_def is_presence_report_def presence_event_def
        presence_group_def SdmPresenceGroupMask_def SdmPresenceSubCause_def SdmSourceLostSubCause_def
        sdm_defs pss_enum Let_def upt_rec)
  then have "\<not> bit (snd (run_evaluator presence_evaluate (1, 8) ?rs)) 3" by simp
  then show ?thesis
    using source_loss_held_until_named [of 8 3 1 0 ?rs]
    by (simp add: SdmPresenceGroupMask_def pss_enum bit_numeral_rec)
qed

text \<open>
  C21. No SW_FAIL is lost. Whatever its position in the request, whatever the mode, STALE or not,
  each SW_FAIL among the populated entries raises the sub-cause its cause belongs to; an
  unknown cause, and an input-unusable cause that names no source, raise SW_FAIL.
\<close>

theorem every_sw_fail_raises:
  assumes "sd \<in> set (populated r)" and "fe_type (sd_event sd) = SW_FAIL"
  shows "SdmSwFailSubCause (sd_event sd) \<noteq> 0 \<and>
    SdmSwFailSubCause (sd_event sd) AND raised (SdmPssSubCausesEvaluate (Some r)) =
      SdmSwFailSubCause (sd_event sd)"
proof -
  have "\<not> SdmDecisionRequestIsNoopOnly (Some r)"
    using assms by (cases "dr_sensorDataSummary r")
      (auto simp: SdmDecisionRequestIsNoopOnly_def populated_def pss_enum)
  then have "bit (raised (SdmPssSubCausesEvaluate (Some r))) n"
    if "bit (SdmSwFailSubCause (sd_event sd)) n" for n
    using pss_evaluate_raised [of "()" r n] assms that
    by (auto simp: pss_evaluate_def SdmSwFailSubCausesRaised_def sw_fail_sub_causes_bit)
  then have "SdmSwFailSubCause (sd_event sd) AND raised (SdmPssSubCausesEvaluate (Some r)) =
      SdmSwFailSubCause (sd_event sd)"
    by (auto intro!: bit_word_eqI simp: bit_and_iff)
  moreover have "SdmSwFailSubCause (sd_event sd) \<noteq> 0"
    by (simp add: SdmSwFailSubCause_def Let_def pss_enum)
  ultimately show ?thesis by simp
qed

theorem every_sw_fail_raises_witness:
  "SdmSwFailSubCause (sw_fail_event CAUSE_MDX_CLIENT_LOST 0x100) AND
     raised (SdmPssSubCausesEvaluate (Some (request_of ERROR
       [sw_fail_event CAUSE_PSS_ERROR 0, sw_fail_event CAUSE_MDX_CLIENT_LOST 0x100])))
   = SDM_PSS_SUB_MDX_LOST"
proof -
  let ?r = "request_of ERROR [sw_fail_event CAUSE_PSS_ERROR 0, sw_fail_event CAUSE_MDX_CLIENT_LOST 0x100]"
  let ?sd = "populated ?r ! 1"
  have "sd_event ?sd = sw_fail_event CAUSE_MDX_CLIENT_LOST 0x100" by simp
  moreover have "?sd \<in> set (populated ?r)" by simp
  moreover have "fe_type (sd_event ?sd) = SW_FAIL" by (simp add: sw_fail_event_def)
  moreover have "SdmSwFailSubCause (sw_fail_event CAUSE_MDX_CLIENT_LOST 0x100) = SDM_PSS_SUB_MDX_LOST"
    by (simp add: SdmSwFailSubCause_def sw_fail_event_def sdm_defs pss_enum)
  ultimately show ?thesis using every_sw_fail_raises [of ?sd ?r] by simp
qed



text \<open>
  C30. AI-pipeline verdicts. The active flag after a request is the last verdict in it that is not
  STALE, or the old flag when there is none; SAW_INVALID is reported exactly when one of the
  verdicts is INVALID; and from the inactive state ENTERED, the edge on which the hold is sent, is
  reported exactly when SAW_INVALID is.
\<close>

theorem ai_verdict_outcome:
  "(\<exists>a'. snd (SdmAiPipelineVerdictApply (Some a) (Some r)) = Some a' \<and>
      (a' \<noteq> 0 \<longleftrightarrow> last ((a \<noteq> 0) # ai_verdicts (populated r)))) \<and>
   (bit (fst (SdmAiPipelineVerdictApply (Some a) (Some r))) 0 \<longleftrightarrow> True \<in> set (ai_verdicts (populated r))) \<and>
   (bit (fst (SdmAiPipelineVerdictApply (Some 0) (Some r))) 1 \<longleftrightarrow> True \<in> set (ai_verdicts (populated r)))"
  using fold_ai_verdict_active [of "populated r" a 0] fold_ai_verdict_result(1) [of "populated r" a 0]
    fold_ai_verdict_result(2) [of 0 0 "populated r"]
  by (auto simp: SdmAiPipelineVerdictApply_def case_prod_beta)

end
