(* ===== verification/Gateway_Protocol.thy ===== *)
theory Gateway_Protocol
  imports Sdm_Request_State
begin

text \<open>
  The gateway-to-SDM envelope, \<^verbatim>\<open>components/protocols/decision-maker-gateway/include/NvPSDGatewayProtocol.h\<close>,
  and the interface every hop of the decision path shares: a stream of wrapping 32-bit ids whose
  reader accepts exactly the successor of the id it saw last. The locale \<open>id_stream\<close> states that
  interface; the gateway (PSS request ids) and the SDMs (gateway transmit sequence) provide it.
\<close>

section \<open>Registration refusal\<close>

definition NVPSD_GATEWAY_REG_REJECT_MAGIC :: "byte list" where
  "NVPSD_GATEWAY_REG_REJECT_MAGIC = [0x52, 0x47, 0x4E, 0x4B]"

definition NVPSD_GATEWAY_REG_REJECT_MSG_SIZE :: nat where
  [gw_defs]: "NVPSD_GATEWAY_REG_REJECT_MSG_SIZE = 5"

definition NVPSD_REG_REJECT_MALFORMED :: u8 where [gw_defs]: "NVPSD_REG_REJECT_MALFORMED = 1"
definition NVPSD_REG_REJECT_NO_VALID_EVENT_TYPES :: u8 where
  [gw_defs]: "NVPSD_REG_REJECT_NO_VALID_EVENT_TYPES = 2"
definition NVPSD_REG_REJECT_TABLE_FULL :: u8 where [gw_defs]: "NVPSD_REG_REJECT_TABLE_FULL = 3"
definition NVPSD_REG_REJECT_RATE_LIMITED :: u8 where [gw_defs]: "NVPSD_REG_REJECT_RATE_LIMITED = 4"

definition NvPSDGatewayBuildRegReject :: "u8 \<Rightarrow> byte list" where
  "NvPSDGatewayBuildRegReject reason = NVPSD_GATEWAY_REG_REJECT_MAGIC @ [reason]"

definition NvPSDGatewayParseRegReject :: "byte list option \<Rightarrow> u8 option" where
  "NvPSDGatewayParseRegReject buf =
     (case buf of None \<Rightarrow> None
      | Some bs \<Rightarrow>
        if length bs \<noteq> NVPSD_GATEWAY_REG_REJECT_MSG_SIZE \<or> take 4 bs \<noteq> NVPSD_GATEWAY_REG_REJECT_MAGIC
        then None else Some (bs ! 4))"

section \<open>Decision packet\<close>

definition NVPSD_GATEWAY_DECISION_MAGIC :: "byte list" where
  "NVPSD_GATEWAY_DECISION_MAGIC = [0x44, 0x52, 0x50, 0x47]"

definition NVPSD_GATEWAY_DECISION_PACKET_VERSION :: u16 where
  [gw_defs]: "NVPSD_GATEWAY_DECISION_PACKET_VERSION = 1"

definition NVPSD_GATEWAY_DECISION_TX_SEQ_MIN :: u32 where
  [gw_defs]: "NVPSD_GATEWAY_DECISION_TX_SEQ_MIN = 1"
definition NVPSD_GATEWAY_DECISION_TX_SEQ_MAX :: u32 where
  [gw_defs]: "NVPSD_GATEWAY_DECISION_TX_SEQ_MAX = 0xFFFFFFFF - 1"
definition NVPSD_GATEWAY_DECISION_EPOCH_MAX :: u64 where
  [gw_defs]: "NVPSD_GATEWAY_DECISION_EPOCH_MAX = 0xFFFFFFFFFFFFFFFF"

record NvPSDGatewayDecisionRequestPacket =
  pk_magic :: "byte list"
  pk_version :: u16
  pk_headerSize :: u16
  pk_gatewayEpoch :: u64
  pk_gatewayTxSeq :: u32
  pk_request :: DecisionRequest

text \<open>The offset of \<open>request\<close> in the packed struct: 4 + 2 + 2 + 8 + 4.\<close>

definition NVPSD_GATEWAY_DECISION_HEADER_SIZE :: u16 where
  [gw_defs]: "NVPSD_GATEWAY_DECISION_HEADER_SIZE = 20"

definition NvPSDGatewayDecisionPacketEpochIsValid :: "u64 \<Rightarrow> bool" where
  [gw_defs]: "NvPSDGatewayDecisionPacketEpochIsValid epoch \<longleftrightarrow>
     epoch \<noteq> 0 \<and> epoch \<noteq> NVPSD_GATEWAY_DECISION_EPOCH_MAX"

definition NvPSDGatewayDecisionPacketSequenceIsValid :: "u32 \<Rightarrow> bool" where
  [gw_defs]: "NvPSDGatewayDecisionPacketSequenceIsValid txSeq \<longleftrightarrow>
     txSeq \<ge> NVPSD_GATEWAY_DECISION_TX_SEQ_MIN \<and> txSeq \<le> NVPSD_GATEWAY_DECISION_TX_SEQ_MAX"

definition NvPSDGatewayDecisionPacketHeaderIsValid ::
  "NvPSDGatewayDecisionRequestPacket option \<Rightarrow> bool" where
  "NvPSDGatewayDecisionPacketHeaderIsValid packet =
     (case packet of None \<Rightarrow> False
      | Some p \<Rightarrow>
          pk_magic p = NVPSD_GATEWAY_DECISION_MAGIC \<and>
          pk_version p = NVPSD_GATEWAY_DECISION_PACKET_VERSION \<and>
          pk_headerSize p = NVPSD_GATEWAY_DECISION_HEADER_SIZE \<and>
          NvPSDGatewayDecisionPacketEpochIsValid (pk_gatewayEpoch p) \<and>
          NvPSDGatewayDecisionPacketSequenceIsValid (pk_gatewayTxSeq p))"

section \<open>Wrapping ids\<close>

text \<open>
  Request ids and transmit sequences run through 1 .. UINT32_MAX - 1 and wrap to 1; 0 and
  UINT32_MAX are reserved. Both writers and readers compute the successor this way.
\<close>

definition wrap_next :: "u32 \<Rightarrow> u32" where
  "wrap_next i = (if i \<ge> 0xFFFFFFFE then 1 else i + 1)"

definition wrap_valid :: "u32 \<Rightarrow> bool" where
  "wrap_valid i \<longleftrightarrow> 1 \<le> i \<and> i \<le> 0xFFFFFFFE"

definition wrap_cycle :: nat where
  "wrap_cycle = 0xFFFFFFFE"

fun observe_ids :: "('st \<Rightarrow> u32 \<Rightarrow> 'r \<times> 'st) \<Rightarrow> 'st \<Rightarrow> u32 list \<Rightarrow> 'r list" where
  "observe_ids obs s [] = []"
| "observe_ids obs s (i # is) = (let (r, s') = obs s i in r # observe_ids obs s' is)"

definition wrap_stream :: "u32 \<Rightarrow> nat \<Rightarrow> u32 list" where
  "wrap_stream i n = map (\<lambda>k. (wrap_next ^^ k) i) [0..<n]"

locale id_stream =
  fixes last_id :: "'st \<Rightarrow> u32 option"
    and observe :: "'st \<Rightarrow> u32 \<Rightarrow> 'r \<times> 'st"
    and accepted :: 'r
  assumes observe_first: "last_id s = None \<Longrightarrow> wrap_valid i \<Longrightarrow>
        fst (observe s i) = accepted \<and> last_id (snd (observe s i)) = Some i"
    and observe_next: "last_id s = Some l \<Longrightarrow> wrap_valid l \<Longrightarrow>
        fst (observe s (wrap_next l)) = accepted \<and> last_id (snd (observe s (wrap_next l))) = Some (wrap_next l)"
    and observe_other: "last_id s = Some l \<Longrightarrow> wrap_valid l \<Longrightarrow> i \<noteq> wrap_next l \<Longrightarrow>
        fst (observe s i) \<noteq> accepted"

lemma wrap_valid_uint: "wrap_valid i \<longleftrightarrow> 1 \<le> uint i \<and> uint i \<le> 0xFFFFFFFE"
  by (simp add: wrap_valid_def word_le_def)

lemma uint_wrap_next:
  assumes "wrap_valid i"
  shows "uint (wrap_next i) = (uint i) mod 0xFFFFFFFE + 1"
proof (cases "i \<ge> 0xFFFFFFFE")
  case True
  then have "uint i = 0xFFFFFFFE" using assms by (simp add: wrap_valid_uint word_le_def)
  then show ?thesis using True by (simp add: wrap_next_def)
next
  case False
  then have "uint i < 0xFFFFFFFE" by (simp add: word_le_def)
  then have "uint (i + 1) = uint i + 1" by (simp add: uint_word_ariths)
  then show ?thesis using False \<open>uint i < 0xFFFFFFFE\<close> by (simp add: wrap_next_def)
qed

lemma wrap_next_valid [simp]: "wrap_valid i \<Longrightarrow> wrap_valid (wrap_next i)"
  by (auto simp: wrap_valid_uint [of "wrap_next i"] uint_wrap_next)

lemma wrap_next_funpow_valid [simp]: "wrap_valid i \<Longrightarrow> wrap_valid ((wrap_next ^^ k) i)"
  by (induction k) auto

lemma uint_wrap_next_funpow:
  "wrap_valid i \<Longrightarrow> uint ((wrap_next ^^ k) i) = (uint i - 1 + int k) mod 0xFFFFFFFE + 1"
proof (induction k)
  case 0
  then show ?case by (simp add: wrap_valid_uint)
next
  case (Suc k)
  then show ?case by (simp add: uint_wrap_next mod_add_left_eq mod_simps algebra_simps)
qed

lemma wrap_next_no_early_return:
  assumes "wrap_valid i" and "0 < k" and "k < wrap_cycle"
  shows "(wrap_next ^^ k) i \<noteq> i"
proof
  assume "(wrap_next ^^ k) i = i"
  then have "(uint i - 1 + int k) mod 0xFFFFFFFE = uint i - 1"
    using uint_wrap_next_funpow [OF assms(1), of k] by simp
  moreover have "(uint i - 1) mod 0xFFFFFFFE = uint i - 1"
    using assms(1) by (simp add: wrap_valid_uint)
  ultimately have "(uint i - 1 + int k) mod 0xFFFFFFFE = (uint i - 1) mod 0xFFFFFFFE" by simp
  then have "0xFFFFFFFE dvd int k" by (simp add: mod_eq_dvd_iff)
  then show False using assms(2,3) by (auto simp: wrap_cycle_def dest: zdvd_imp_le)
qed

lemma wrap_stream_Cons: "wrap_stream i (Suc n) = i # wrap_stream (wrap_next i) n"
  by (simp add: wrap_stream_def map_upt_Suc funpow_swap1 del: upt_Suc)

context id_stream
begin

lemma stream_accepted:
  assumes "wrap_valid i" and "last_id s = None \<or> (\<exists>l. wrap_valid l \<and> last_id s = Some l \<and> i = wrap_next l)"
  shows "observe_ids observe s (wrap_stream i n) = replicate n accepted"
  using assms
proof (induction n arbitrary: i s)
  case (Suc n)
  have "fst (observe s i) = accepted \<and> last_id (snd (observe s i)) = Some i"
    using Suc.prems observe_first observe_next by metis
  then show ?case
    using Suc.IH [of "wrap_next i" "snd (observe s i)"] Suc.prems(1)
    by (simp add: wrap_stream_Cons case_prod_beta)
qed (simp add: wrap_stream_def)

lemma loss_flagged:
  assumes "last_id s = Some l" and "wrap_valid l" and "0 < k" and "k < wrap_cycle"
  shows "fst (observe s ((wrap_next ^^ Suc k) l)) \<noteq> accepted"
proof -
  have "(wrap_next ^^ k) (wrap_next l) \<noteq> wrap_next l"
    using assms by (intro wrap_next_no_early_return) auto
  then show ?thesis
    using observe_other [OF assms(1,2)] by (simp add: funpow_swap1)
qed

end

end
