(* ===== verification/Gateway_Contract.thy ===== *)
theory Gateway_Contract
  imports Gateway_Protocol
begin

text \<open>
  The decision-maker gateway's contract,
  \<^verbatim>\<open>components/protocols/decision-maker-gateway/include/NvPSDGatewayContract.hpp\<close>: registration
  parsing, the registration rate limit, the envelope builder, supervision of the PSS request
  ids and the synthetic records the gateway sends to every client.
\<close>

section \<open>Registration\<close>

definition NVPSD_GATEWAY_MAX_EVENT_TYPES_PER_CLIENT :: u8 where
  [gw_defs]: "NVPSD_GATEWAY_MAX_EVENT_TYPES_PER_CLIENT = 32"

definition NvPSDGatewayAddMandatoryEventTypes :: "EventType set \<Rightarrow> EventType set" where
  "NvPSDGatewayAddMandatoryEventTypes types =
     insert AI_PIPELINE_VALID (insert AI_PIPELINE_INVALID (insert SENSOR_VALID
       (insert SENSOR_INVALID (insert PSS_STATUS_NOOP (insert SW_FAIL types)))))"

definition NvPSDGatewayIsAllowedHealthEventType :: "u32 \<Rightarrow> bool" where
  "NvPSDGatewayIsAllowedHealthEventType raw \<longleftrightarrow>
     raw = SENSOR_INVALID \<or> raw = SENSOR_VALID \<or> raw = AI_PIPELINE_INVALID \<or> raw = AI_PIPELINE_VALID"

text \<open>The loop over the requested types; \<open>insert\<close> into an unordered set.\<close>

fun registered_types :: "u32 list \<Rightarrow> EventType set \<Rightarrow> EventType set" where
  "registered_types [] types = types"
| "registered_types (raw # raws) types =
     registered_types raws
       (if raw \<ge> EVENT_UNKNOWN \<and> \<not> NvPSDGatewayIsAllowedHealthEventType raw
        then types else insert raw types)"

definition NvPSDGatewayBuildRegisteredEventSet ::
  "u32 list option \<Rightarrow> u8 \<Rightarrow> EventType set option \<Rightarrow> bool \<times> EventType set option" where
  "NvPSDGatewayBuildRegisteredEventSet rawEventTypes count outTypes =
     (case outTypes of None \<Rightarrow> (False, None)
      | Some _ \<Rightarrow>
        (case rawEventTypes of None \<Rightarrow> (False, Some {})
         | Some raws \<Rightarrow>
           if count = 0 \<or> count > NVPSD_GATEWAY_MAX_EVENT_TYPES_PER_CLIENT then (False, Some {})
           else
             (let types = registered_types (take (unat count) raws) {} in
              if types = {} then (False, Some {})
              else (True, Some (NvPSDGatewayAddMandatoryEventTypes types)))))"

text \<open>\<open>ntohl\<close> of four bytes copied from the message: the bytes are in network order.\<close>

definition be_u32 :: "byte list \<Rightarrow> u32" where
  "be_u32 bs = foldl (\<lambda>w b. push_bit 8 w OR ucast b) 0 bs"

definition regr_types :: "byte list \<Rightarrow> nat \<Rightarrow> u32 list" where
  "regr_types buf count = map (\<lambda>i. be_u32 (take 4 (drop (5 + i * 4) buf))) [0..<count]"

definition NvPSDGatewayClassifyRegr ::
  "byte list option \<Rightarrow> EventType set option \<Rightarrow> u8 \<times> EventType set option" where
  "NvPSDGatewayClassifyRegr buf outTypes =
     (let outTypes = map_option (\<lambda>_. {}) outTypes in
      case buf of None \<Rightarrow> (NVPSD_REG_REJECT_MALFORMED, outTypes)
      | Some bs \<Rightarrow>
        if outTypes = None \<or> length bs < 5 then (NVPSD_REG_REJECT_MALFORMED, outTypes)
        else
          (let count = bs ! 4 in
           if count = 0 \<or> count > NVPSD_GATEWAY_MAX_EVENT_TYPES_PER_CLIENT \<or>
              length bs < 5 + unat count * 4
           then (NVPSD_REG_REJECT_MALFORMED, outTypes)
           else
             (let (ok, types) = NvPSDGatewayBuildRegisteredEventSet
                                  (Some (regr_types bs (unat count))) count outTypes
              in (if \<not> ok then NVPSD_REG_REJECT_NO_VALID_EVENT_TYPES else 0, types))))"

section \<open>Registration rate limit\<close>

datatype NvPSDGatewayRegrAdmission = ADMIT | REFUSE_NOTIFY | REFUSE_SILENT

record RegrEntry =
  re_windowStartMs :: u64
  re_count :: u32
  re_notified :: bool

record NvPSDGatewayRegrRateLimiter =
  rl_maxPerWindow :: u32
  rl_windowMs :: u32
  rl_entries :: "u32 \<rightharpoonup> RegrEntry"

definition regr_configure :: "u32 \<Rightarrow> u32 \<Rightarrow> NvPSDGatewayRegrRateLimiter" where
  "regr_configure maxPer windowLen =
     \<lparr>rl_maxPerWindow = maxPer, rl_windowMs = windowLen, rl_entries = (\<lambda>_. None)\<rparr>"

definition fresh_entry :: RegrEntry where
  "fresh_entry = \<lparr>re_windowStartMs = 0, re_count = 0, re_notified = False\<rparr>"

definition regr_admit ::
  "NvPSDGatewayRegrRateLimiter \<Rightarrow> u32 \<Rightarrow> u64 \<Rightarrow> NvPSDGatewayRegrAdmission \<times> NvPSDGatewayRegrRateLimiter"
where
  "regr_admit l peer nowMs =
     (let e = (case rl_entries l peer of None \<Rightarrow> fresh_entry | Some e \<Rightarrow> e);
          e = (if re_count e = 0 \<or> nowMs < re_windowStartMs e \<or> nowMs - re_windowStartMs e \<ge> ucast (rl_windowMs l)
               then e\<lparr>re_windowStartMs := nowMs, re_count := 0, re_notified := False\<rparr> else e);
          put = (\<lambda>e. l\<lparr>rl_entries := (rl_entries l)(peer \<mapsto> e)\<rparr>)
      in if re_count e < rl_maxPerWindow l then (ADMIT, put (e\<lparr>re_count := re_count e + 1\<rparr>))
         else if \<not> re_notified e then (REFUSE_NOTIFY, put (e\<lparr>re_notified := True\<rparr>))
         else (REFUSE_SILENT, put e))"

definition regr_forget :: "NvPSDGatewayRegrRateLimiter \<Rightarrow> u32 \<Rightarrow> NvPSDGatewayRegrRateLimiter" where
  "regr_forget l peer = l\<lparr>rl_entries := (rl_entries l)(peer := None)\<rparr>"

section \<open>Forwarding\<close>

definition NvPSDGatewayIsStatusNoopOnlyRequest :: "DecisionRequest \<Rightarrow> bool" where
  [gw_defs]: "NvPSDGatewayIsStatusNoopOnlyRequest req \<longleftrightarrow>
     dr_mode req \<noteq> ERROR \<and> dr_sensorDataSummarySize req = 1 \<and> fe_type (dr_event0 req) = PSS_STATUS_NOOP"

definition NvPSDGatewayShouldSendDecisionRequest :: "bool \<Rightarrow> u8 \<Rightarrow> OperationalMode \<Rightarrow> bool" where
  [gw_defs]: "NvPSDGatewayShouldSendDecisionRequest sendFullRequest eventCount pssMode =
     (if sendFullRequest then eventCount > 0 \<or> pssMode = ERROR else eventCount > 0)"

datatype NvPSDGatewayPacketSendResult = SENT | FAILED_SYSCALL | FAILED_SHORT_SEND

text \<open>\<open>sizeof\<close> of the packed packet: the 20-byte header and the 1601-byte request.\<close>

definition decision_packet_size :: int where
  "decision_packet_size = 1621"

definition NvPSDGatewayDecisionPacketSendResult :: "int \<Rightarrow> NvPSDGatewayPacketSendResult" where
  "NvPSDGatewayDecisionPacketSendResult sentBytes =
     (if sentBytes < 0 then FAILED_SYSCALL
      else if sentBytes \<noteq> decision_packet_size then FAILED_SHORT_SEND
      else SENT)"

definition NvPSDGatewayBuildDecisionRequestPacket ::
  "DecisionRequest \<Rightarrow> u64 \<Rightarrow> u32 \<Rightarrow> NvPSDGatewayDecisionRequestPacket option" where
  "NvPSDGatewayBuildDecisionRequestPacket req gatewayEpoch gatewayTxSeq =
     (if \<not> NvPSDGatewayDecisionPacketEpochIsValid gatewayEpoch \<or>
         \<not> NvPSDGatewayDecisionPacketSequenceIsValid gatewayTxSeq
      then None
      else Some \<lparr>pk_magic = NVPSD_GATEWAY_DECISION_MAGIC,
                 pk_version = NVPSD_GATEWAY_DECISION_PACKET_VERSION,
                 pk_headerSize = NVPSD_GATEWAY_DECISION_HEADER_SIZE,
                 pk_gatewayEpoch = gatewayEpoch, pk_gatewayTxSeq = gatewayTxSeq,
                 pk_request = req\<rparr>)"

section \<open>Supervision of the PSS request ids\<close>

definition NVPSD_GATEWAY_PSS_REQUEST_ID_MIN :: u32 where
  [gw_defs]: "NVPSD_GATEWAY_PSS_REQUEST_ID_MIN = 1"
definition NVPSD_GATEWAY_PSS_REQUEST_ID_MAX :: u32 where
  [gw_defs]: "NVPSD_GATEWAY_PSS_REQUEST_ID_MAX = 0xFFFFFFFF - 1"

record NvPSDGatewayPssSequenceState =
  ps_initialized :: bool
  ps_lastValidRequestId :: u32

datatype NvPSDGatewayPssRequestObservation = OBS_ACCEPT | OBS_GAP | OBS_DUPLICATE_OR_STALE | OBS_INVALID

definition NvPSDGatewayRequestIdIsSequenceTracked :: "u32 \<Rightarrow> bool" where
  [gw_defs]: "NvPSDGatewayRequestIdIsSequenceTracked requestId \<longleftrightarrow>
     requestId \<ge> NVPSD_GATEWAY_PSS_REQUEST_ID_MIN \<and> requestId \<le> NVPSD_GATEWAY_PSS_REQUEST_ID_MAX"

definition NvPSDGatewayObservePssRequestId ::
  "NvPSDGatewayPssSequenceState option \<Rightarrow> u32 \<Rightarrow>
   NvPSDGatewayPssRequestObservation \<times> NvPSDGatewayPssSequenceState option" where
  "NvPSDGatewayObservePssRequestId state requestId =
     (case state of None \<Rightarrow> (OBS_INVALID, None)
      | Some s \<Rightarrow>
        if \<not> NvPSDGatewayRequestIdIsSequenceTracked requestId then (OBS_INVALID, Some s)
        else if \<not> ps_initialized s then
          (OBS_ACCEPT, Some (s\<lparr>ps_initialized := True, ps_lastValidRequestId := requestId\<rparr>))
        else
          (let last = ps_lastValidRequestId s in
           if requestId = last then (OBS_DUPLICATE_OR_STALE, Some s)
           else
             (let expected = (if last \<ge> NVPSD_GATEWAY_PSS_REQUEST_ID_MAX
                              then NVPSD_GATEWAY_PSS_REQUEST_ID_MIN else last + 1);
                  gap = (requestId \<noteq> expected)
              in (if gap then OBS_GAP else OBS_ACCEPT,
                  Some (s\<lparr>ps_lastValidRequestId := requestId\<rparr>)))))"

definition NvPSDGatewayShouldForwardObservedPssRequest :: "NvPSDGatewayPssRequestObservation \<Rightarrow> bool" where
  "NvPSDGatewayShouldForwardObservedPssRequest observation \<longleftrightarrow>
     observation = OBS_ACCEPT \<or> observation = OBS_GAP"

section \<open>Synthetic records\<close>

definition gateway_timestamp :: "DecisionRequest \<Rightarrow> u64" where
  "gateway_timestamp current =
     (if dr_sensorDataSummarySize current > 0 \<and> fe_timestamp (dr_event0 current) \<noteq> 0
      then fe_timestamp (dr_event0 current) else 1)"

text \<open>
  The statements the four builders share: a zeroed request, one entry about the gateway itself,
  its event stamped with the id, timestamp and identifier.
\<close>

definition gateway_record ::
  "DecisionRequest \<Rightarrow> u32 \<Rightarrow> SystemStatus \<Rightarrow> bool \<Rightarrow> EventType \<Rightarrow> u8 \<Rightarrow> EventCause \<Rightarrow> DecisionRequest" where
  "gateway_record current requestId status isHealthy type severity cause =
     zero_request\<lparr>
       dr_requestId := requestId, dr_pssStatus := status, dr_sensorDataSummarySize := 1,
       dr_sensorDataSummary := (dr_sensorDataSummary zero_request)[0 :=
         zero_sensor_data\<lparr>
           sd_clientID := 0, sd_isHealthy := isHealthy, sd_isTrustedSource := True,
           sd_event := zero_event\<lparr>
             fe_id := dr_requestId current, fe_type := type, fe_severity := severity,
             fe_timestamp := gateway_timestamp current, fe_confidenceLevel := F32_ONE,
             fe_status := PASSTHROUGH,
             fe_fusionMetadata := zero_metadata\<lparr>fm_objectType := (OBJECT, OBJECT)\<rparr>,
             fe_sensorIdentifier := snprintf_identifier ''PSD_GATEWAY'',
             fe_cause := cause\<rparr>\<rparr>]\<rparr>"

definition NvPSDGatewayBuildPssSequenceGapSwFailRequest :: "DecisionRequest \<Rightarrow> DecisionRequest" where
  "NvPSDGatewayBuildPssSequenceGapSwFailRequest current =
     gateway_record current (dr_requestId current) (dr_pssStatus current) False SW_FAIL CRITICAL
       CAUSE_PSS_REQUEST_SEQUENCE_GAP"

definition NvPSDGatewayBuildInvalidPssRequestIdSwFailRequest :: "DecisionRequest \<Rightarrow> DecisionRequest" where
  "NvPSDGatewayBuildInvalidPssRequestIdSwFailRequest current =
     gateway_record current NVPSD_GATEWAY_PSS_REQUEST_ID_MIN (dr_pssStatus current) False SW_FAIL CRITICAL
       CAUSE_PSS_REQUEST_ID_INVALID"

definition NvPSDGatewayRecoveryRecordOwed :: "u64 \<Rightarrow> bool" where
  "NvPSDGatewayRecoveryRecordOwed recoveryOwedGen \<longleftrightarrow> recoveryOwedGen \<noteq> 0"

definition NvPSDGatewayRecoveryDebtAfterSend :: "u64 \<Rightarrow> u64 \<Rightarrow> bool \<Rightarrow> u64" where
  "NvPSDGatewayRecoveryDebtAfterSend owedNow sentFor sent =
     (if sent \<and> owedNow = sentFor then 0 else owedNow)"

definition NvPSDGatewayBuildPssCommRecoveredRequest :: "DecisionRequest \<Rightarrow> DecisionRequest" where
  "NvPSDGatewayBuildPssCommRecoveredRequest current =
     gateway_record current (dr_requestId current) ((dr_pssStatus current)\<lparr>ss_mode := NORMAL\<rparr>)
       True PSS_STATUS_NOOP OPERATIONAL CAUSE_PSS_COMM_RECOVERED"

definition NvPSDGatewayBuildPssErrorSwFailRequest :: "DecisionRequest \<Rightarrow> DecisionRequest" where
  "NvPSDGatewayBuildPssErrorSwFailRequest current =
     gateway_record current (dr_requestId current) ((dr_pssStatus current)\<lparr>ss_mode := NORMAL\<rparr>)
       False SW_FAIL CRITICAL CAUSE_PSS_ERROR"


section \<open>Request ids as a stream\<close>

definition gw_last :: "NvPSDGatewayPssSequenceState \<Rightarrow> u32 option" where
  "gw_last s = (if ps_initialized s then Some (ps_lastValidRequestId s) else None)"

definition gw_observe ::
  "NvPSDGatewayPssSequenceState \<Rightarrow> u32 \<Rightarrow> NvPSDGatewayPssRequestObservation \<times> NvPSDGatewayPssSequenceState" where
  "gw_observe s i = map_prod id the (NvPSDGatewayObservePssRequestId (Some s) i)"

lemma tracked_iff_wrap_valid: "NvPSDGatewayRequestIdIsSequenceTracked i \<longleftrightarrow> wrap_valid i"
  by (auto simp: gw_defs wrap_valid_def)

lemma wrap_next_neq: "wrap_valid i \<Longrightarrow> wrap_next i \<noteq> i"
  using wrap_next_no_early_return [of i 1] by (simp add: wrap_cycle_def)

lemma expected_id_eq:
  "(if l \<ge> NVPSD_GATEWAY_PSS_REQUEST_ID_MAX then NVPSD_GATEWAY_PSS_REQUEST_ID_MIN else l + 1) = wrap_next l"
  by (simp add: wrap_next_def gw_defs)

lemma gw_observe_tracked:
  "wrap_valid i \<Longrightarrow> gw_last s = Some l \<Longrightarrow> wrap_valid l \<Longrightarrow>
   gw_observe s i = (if i = l then (OBS_DUPLICATE_OR_STALE, s)
     else (if i \<noteq> wrap_next l then OBS_GAP else OBS_ACCEPT, s\<lparr>ps_lastValidRequestId := i\<rparr>))"
  unfolding gw_observe_def NvPSDGatewayObservePssRequestId_def Let_def expected_id_eq
  by (simp add: gw_last_def tracked_iff_wrap_valid split: if_splits)

lemma gw_observe_untracked: "\<not> wrap_valid i \<Longrightarrow> gw_observe s i = (OBS_INVALID, s)"
  by (simp add: gw_observe_def NvPSDGatewayObservePssRequestId_def tracked_iff_wrap_valid)

interpretation gwid: id_stream gw_last gw_observe OBS_ACCEPT
proof
  fix s i l
  show "gw_last s = None \<Longrightarrow> wrap_valid i \<Longrightarrow>
      fst (gw_observe s i) = OBS_ACCEPT \<and> gw_last (snd (gw_observe s i)) = Some i"
    by (auto simp: gw_observe_def NvPSDGatewayObservePssRequestId_def gw_last_def
        tracked_iff_wrap_valid split: if_splits)
  assume l: "gw_last s = Some l" "wrap_valid l"
  then show "fst (gw_observe s (wrap_next l)) = OBS_ACCEPT \<and>
      gw_last (snd (gw_observe s (wrap_next l))) = Some (wrap_next l)"
    by (auto simp: gw_observe_tracked wrap_next_neq gw_last_def split: if_splits)
  show "i \<noteq> wrap_next l \<Longrightarrow> fst (gw_observe s i) \<noteq> OBS_ACCEPT"
    using l by (cases "wrap_valid i") (auto simp: gw_observe_tracked gw_observe_untracked)
qed

section \<open>Registration facts\<close>

definition subscribable :: "u32 \<Rightarrow> bool" where
  "subscribable raw \<longleftrightarrow> raw < EVENT_UNKNOWN \<or> NvPSDGatewayIsAllowedHealthEventType raw"

lemma registered_types_eq: "registered_types raws types = types \<union> {raw \<in> set raws. subscribable raw}"
  by (induction raws types rule: registered_types.induct) (auto simp: subscribable_def not_le)

definition mandatory_types :: "EventType set" where
  "mandatory_types = NvPSDGatewayAddMandatoryEventTypes {}"

lemma add_mandatory_eq: "NvPSDGatewayAddMandatoryEventTypes types = types \<union> mandatory_types"
  by (auto simp: mandatory_types_def NvPSDGatewayAddMandatoryEventTypes_def)

lemma build_registered_eq:
  assumes "0 < k" and "k \<le> 32" and "length raws = unat k"
  shows "NvPSDGatewayBuildRegisteredEventSet (Some raws) k (Some out) =
    (let types = {raw \<in> set raws. subscribable raw} in
     if types = {} then (False, Some {}) else (True, Some (types \<union> mandatory_types)))"
  using assms by (auto simp: NvPSDGatewayBuildRegisteredEventSet_def registered_types_eq
      add_mandatory_eq Let_def NVPSD_GATEWAY_MAX_EVENT_TYPES_PER_CLIENT_def)

text \<open>The client's encoding of a type: four bytes in network order.\<close>

definition be_bytes :: "u32 \<Rightarrow> byte list" where
  "be_bytes w = rev (le_bytes 4 w)"

lemma be_u32_be_bytes: "be_u32 (be_bytes w) = w"
proof (rule bit_word_eqI)
  fix n assume "n < LENGTH(32)"
  then have "n div 8 < 4" by (simp add: less_mult_imp_div_less)
  then have "n div 8 = 0 \<or> n div 8 = 1 \<or> n div 8 = 2 \<or> n div 8 = 3" by presburger
  then obtain r where r: "r < 8" and n: "n = r \<or> n = 8 + r \<or> n = 16 + r \<or> n = 24 + r"
    using that [of "n mod 8"] mult_div_mod_eq [of 8 n] by fastforce
  have low: "\<not> r \<ge> 8" using r by simp
  have e: "be_u32 (be_bytes w) =
      push_bit 8 (push_bit 8 (push_bit 8 (ucast (ucast (drop_bit 24 w) :: byte)) OR
        ucast (ucast (drop_bit 16 w) :: byte)) OR ucast (ucast (drop_bit 8 w) :: byte)) OR
      ucast (ucast w :: byte)"
    by (simp add: be_u32_def be_bytes_def le_bytes_def upt_rec)
  show "bit (be_u32 (be_bytes w)) n = bit w n"
    using n unfolding e
    by (elim disjE; simp only: bit_or_iff bit_push_bit_iff bit_ucast_iff bit_drop_bit_eq; use r in simp)
qed

text \<open>A whole registration message as a client sends it.\<close>

definition regr_message :: "EventType list \<Rightarrow> byte list" where
  "regr_message types = [0x52, 0x45, 0x47, 0x52] @ [of_nat (length types)] @ concat (map be_bytes types)"

lemma length_be_bytes [simp]: "length (be_bytes w) = 4"
  by (simp add: be_bytes_def)

lemma length_concat_be_bytes [simp]: "length (concat (map be_bytes ws)) = 4 * length ws"
  by (induction ws) auto

lemma take_drop_concat_be_bytes:
  "i < length ws \<Longrightarrow> take 4 (drop (i * 4) (concat (map be_bytes ws))) = be_bytes (ws ! i)"
proof (induction ws arbitrary: i)
  case (Cons w ws)
  then show ?case by (cases i) auto
qed simp

lemma regr_types_message: "regr_types (regr_message ws) (length ws) = ws"
proof (rule nth_equalityI)
  fix i assume i: "i < length (regr_types (regr_message ws) (length ws))"
  then have "drop (5 + i * 4) (regr_message ws) = drop (i * 4) (concat (map be_bytes ws))"
    by (simp add: regr_message_def numeral_eq_Suc)
  then show "regr_types (regr_message ws) (length ws) ! i = ws ! i"
    using i by (simp add: regr_types_def take_drop_concat_be_bytes be_u32_be_bytes)
qed (simp add: regr_types_def)

lemma classify_regr_message:
  assumes "ws \<noteq> []" and "length ws \<le> 32"
  shows "NvPSDGatewayClassifyRegr (Some (regr_message ws)) (Some out) =
    (if list_ex subscribable ws then (0, Some ({w \<in> set ws. subscribable w} \<union> mandatory_types))
     else (NVPSD_REG_REJECT_NO_VALID_EVENT_TYPES, Some {}))"
proof -
  let ?k = "of_nat (length ws) :: u8"
  have k: "unat ?k = length ws" using assms(2) by (simp add: unat_of_nat)
  have "0 < ?k" "?k \<le> 32" using assms k by (auto simp: word_less_nat_alt word_le_nat_alt)
  moreover have "regr_message ws ! 4 = ?k" by (simp add: regr_message_def numeral_eq_Suc)
  moreover have "length (regr_message ws) = 5 + length ws * 4" by (simp add: regr_message_def)
  ultimately show ?thesis
    using k assms build_registered_eq [of ?k ws "{}"]
    by (auto simp: NvPSDGatewayClassifyRegr_def Let_def regr_types_message list_ex_iff
        NVPSD_GATEWAY_MAX_EVENT_TYPES_PER_CLIENT_def split: if_splits)
qed

section \<open>Rate limit facts\<close>

fun regr_run :: "NvPSDGatewayRegrRateLimiter \<Rightarrow> (u32 \<times> u64) list \<Rightarrow> (u32 \<times> NvPSDGatewayRegrAdmission) list" where
  "regr_run l [] = []"
| "regr_run l ((peer, now) # calls) =
     (let (a, l') = regr_admit l peer now in (peer, a) # regr_run l' calls)"

definition in_window :: "NvPSDGatewayRegrRateLimiter \<Rightarrow> RegrEntry \<Rightarrow> u64 \<Rightarrow> bool" where
  "in_window l e now \<longleftrightarrow> re_windowStartMs e \<le> now \<and> now - re_windowStartMs e < ucast (rl_windowMs l)"

definition tally :: "u32 \<Rightarrow> NvPSDGatewayRegrAdmission \<Rightarrow> (u32 \<times> NvPSDGatewayRegrAdmission) list \<Rightarrow> nat" where
  "tally peer a rs = length (filter (\<lambda>r. r = (peer, a)) rs)"

lemma regr_admit_other:
  "q \<noteq> peer \<Longrightarrow> rl_entries (snd (regr_admit l q now)) peer = rl_entries l peer"
  by (simp add: regr_admit_def Let_def)

lemma regr_admit_config [simp]:
  "rl_maxPerWindow (snd (regr_admit l q now)) = rl_maxPerWindow l"
  "rl_windowMs (snd (regr_admit l q now)) = rl_windowMs l"
  by (simp_all add: regr_admit_def Let_def)

lemma regr_admit_open:
  assumes "rl_entries l peer = Some e" and "re_count e \<noteq> 0" and "in_window l e now"
  shows "regr_admit l peer now =
    (if re_count e < rl_maxPerWindow l
     then (ADMIT, l\<lparr>rl_entries := (rl_entries l)(peer \<mapsto> e\<lparr>re_count := re_count e + 1\<rparr>)\<rparr>)
     else if \<not> re_notified e
     then (REFUSE_NOTIFY, l\<lparr>rl_entries := (rl_entries l)(peer \<mapsto> e\<lparr>re_notified := True\<rparr>)\<rparr>)
     else (REFUSE_SILENT, l\<lparr>rl_entries := (rl_entries l)(peer \<mapsto> e)\<rparr>))"
proof -
  have "\<not> (re_count e = 0 \<or> now < re_windowStartMs e \<or> now - re_windowStartMs e \<ge> ucast (rl_windowMs l))"
    using assms by (auto simp: in_window_def)
  then show ?thesis using assms(1) by (simp add: regr_admit_def Let_def del: de_Morgan_disj)
qed

lemma rate_limit_open_window:
  assumes "rl_entries l peer = Some e" and "re_count e \<noteq> 0" and "re_count e \<le> rl_maxPerWindow l"
    and "\<forall>(q, now) \<in> set calls. q = peer \<longrightarrow> in_window l e now"
  shows "tally peer ADMIT (regr_run l calls) \<le> unat (rl_maxPerWindow l) - unat (re_count e) \<and>
    tally peer REFUSE_NOTIFY (regr_run l calls) \<le> (if re_notified e then 0 else 1)"
  using assms
proof (induction l calls arbitrary: e rule: regr_run.induct)
  case (2 l q now calls)
  obtain a l' where st: "regr_admit l q now = (a, l')" by fastforce
  show ?case
  proof (cases "q = peer")
    case False
    have "rl_entries l' peer = Some e" "rl_maxPerWindow l' = rl_maxPerWindow l" "rl_windowMs l' = rl_windowMs l"
      using regr_admit_other [OF False, of l now] regr_admit_config [of l q now] st 2(2) by simp_all
    then show ?thesis
      using 2(1) [OF st [symmetric] refl, of e] 2(3-) st False
      by (auto simp: tally_def in_window_def)
  next
    case True
    have w: "in_window l e now" using 2(5) True by auto
    note step = regr_admit_open [OF 2(2,3) w]
    let ?max = "unat (rl_maxPerWindow l)" and ?n = "unat (re_count e)"
    show ?thesis
    proof (cases "re_count e < rl_maxPerWindow l")
      case lt: True
      let ?e = "e\<lparr>re_count := re_count e + 1\<rparr>"
      have n: "unat (re_count e + 1) = ?n + 1" "?n < ?max"
        using lt unat_plus_1_less [OF lt] by (auto simp: word_less_nat_alt)
      have "re_count ?e \<noteq> 0" "re_count ?e \<le> rl_maxPerWindow l"
        using n by (auto simp: word_le_nat_alt)
      then show ?thesis
        using 2(1) [OF st [symmetric] refl, of ?e] 2(5) st step True lt n
        by (auto simp: tally_def in_window_def)
    next
      case False
      then show ?thesis
        using 2(1) [OF st [symmetric] refl, of "e\<lparr>re_notified := True\<rparr>"]
          2(1) [OF st [symmetric] refl, of e] 2(3-5) st step True
        by (auto simp: tally_def in_window_def split: if_splits)
    qed
  qed
qed (simp add: tally_def)


section \<open>Synthetic record facts\<close>

lemma gateway_timestamp_neq_0 [simp]: "gateway_timestamp current \<noteq> 0"
  by (simp add: gateway_timestamp_def)

lemma populated_gateway_record:
  "populated (gateway_record current i st h ty sev c) =
     [zero_sensor_data\<lparr>
        sd_clientID := 0, sd_isHealthy := h, sd_isTrustedSource := True,
        sd_event := zero_event\<lparr>
          fe_id := dr_requestId current, fe_type := ty, fe_severity := sev,
          fe_timestamp := gateway_timestamp current, fe_confidenceLevel := F32_ONE,
          fe_status := PASSTHROUGH,
          fe_fusionMetadata := zero_metadata\<lparr>fm_objectType := (OBJECT, OBJECT)\<rparr>,
          fe_sensorIdentifier := snprintf_identifier ''PSD_GATEWAY'',
          fe_cause := c\<rparr>\<rparr>]"
  by (simp add: populated_def gateway_record_def zero_request_def MAX_SENSORS_DATA_SUMMARY_SIZE_def
      numeral_eq_Suc)

lemma gateway_record_simps [simp]:
  "dr_mode (gateway_record current i st h ty sev c) = ss_mode st"
  "dr_requestId (gateway_record current i st h ty sev c) = i"
  "dr_sensorDataSummarySize (gateway_record current i st h ty sev c) = 1"
  "fe_type (dr_event0 (gateway_record current i st h ty sev c)) = ty"
  "fe_cause (dr_event0 (gateway_record current i st h ty sev c)) = c"
  by (simp_all add: gateway_record_def zero_request_def MAX_SENSORS_DATA_SUMMARY_SIZE_def numeral_eq_Suc)

lemma gateway_record_fields_ok:
  assumes "ty \<le> PSS_STATUS_NOOP" and "c < CAUSE_COUNT" and "ss_mode st \<le> ERROR" and "sev \<le> CRITICAL"
    and "ss_mode st = ERROR \<or> eventTypeRequiresCriticalSeverity ty \<or> \<not> h \<longrightarrow> sev = CRITICAL"
  shows "request_fields_ok (gateway_record current i st h ty sev c)"
proof -
  have t: "take MAX_INDENTIFIER_LENGTH (snprintf_identifier s) = snprintf_identifier s" for s
    by simp
  have f: "f32_le 0 F32_ONE" "f32_le F32_ONE F32_ONE"
    by (simp_all add: f32_le_def f32_is_nan_def f32_key_def F32_ONE_def)
  show ?thesis
    using assms snprintf_identifier_terminated [of "''PSD_GATEWAY''"] f
    by (auto simp: request_fields_ok_def populated_gateway_record fused_event_ok_def
        critical_evidence_def zero_event_def zero_metadata_def zero_sensor_data_def t
        MAX_SENSORS_DATA_SUMMARY_SIZE_def PASSTHROUGH_def UNKNOWN_def)
qed


section \<open>Properties\<close>

text \<open>
  C33. Registration round trip. A client's registration message naming 1 to 32 event types is read
  back by the gateway as exactly the subscribable types it names together with the mandatory
  safety types, so every accepted client receives SW_FAIL, the status no-op, sensor health and
  AI-pipeline verdicts; a message that names no subscribable type is refused with no type registered.
\<close>

theorem registration_round_trip:
  assumes "ws \<noteq> []" and "length ws \<le> 32"
  shows "NvPSDGatewayClassifyRegr (Some (regr_message ws)) (Some out) =
    (if list_ex subscribable ws
     then (0, Some ({w \<in> set ws. subscribable w} \<union>
       {SW_FAIL, PSS_STATUS_NOOP, SENSOR_INVALID, SENSOR_VALID, AI_PIPELINE_INVALID, AI_PIPELINE_VALID}))
     else (NVPSD_REG_REJECT_NO_VALID_EVENT_TYPES, Some {}))"
proof -
  have "mandatory_types =
      {SW_FAIL, PSS_STATUS_NOOP, SENSOR_INVALID, SENSOR_VALID, AI_PIPELINE_INVALID, AI_PIPELINE_VALID}"
    by (auto simp: mandatory_types_def NvPSDGatewayAddMandatoryEventTypes_def)
  then show ?thesis using classify_regr_message [OF assms, of out] by simp
qed

theorem registration_round_trip_witness:
  "NvPSDGatewayClassifyRegr (Some (regr_message [1, PSS_STATUS_NOOP, 200])) (Some {}) =
    (0, Some {SW_FAIL, PSS_STATUS_NOOP, SENSOR_INVALID, SENSOR_VALID, AI_PIPELINE_INVALID,
      AI_PIPELINE_VALID, 1})"
proof -
  have "subscribable 1" "\<not> subscribable PSS_STATUS_NOOP" "\<not> subscribable 200"
    by (simp_all add: subscribable_def NvPSDGatewayIsAllowedHealthEventType_def pss_enum)
  then have "{w \<in> set [1, PSS_STATUS_NOOP, 200]. subscribable w} = {1}" by auto
  then show ?thesis
    using registration_round_trip [of "[1, PSS_STATUS_NOOP, 200]" "{}"] \<open>subscribable 1\<close> by simp
qed

text \<open>
  C34. Registration rate limit. When a peer unknown to the limiter registers, then over any later
  sequence of registrations, interleaved with other peers in any way, that stay within the peer's
  window, at most maxPerWindow of its registrations are admitted in all and at most one
  refusal is answered.
\<close>

theorem registration_rate_limited:
  assumes "rl_entries l peer = None" and "0 < rl_maxPerWindow l"
    and "\<forall>(q, now) \<in> set calls. q = peer \<longrightarrow> t0 \<le> now \<and> now - t0 < ucast (rl_windowMs l)"
  shows "tally peer ADMIT (regr_run l ((peer, t0) # calls)) \<le> unat (rl_maxPerWindow l) \<and>
    tally peer REFUSE_NOTIFY (regr_run l ((peer, t0) # calls)) \<le> 1"
proof -
  let ?e = "\<lparr>re_windowStartMs = t0, re_count = 1, re_notified = False\<rparr>"
  let ?l = "l\<lparr>rl_entries := (rl_entries l)(peer \<mapsto> ?e)\<rparr>"
  have st: "regr_admit l peer t0 = (ADMIT, ?l)"
    using assms(1,2) by (simp add: regr_admit_def fresh_entry_def)
  have max: "1 \<le> rl_maxPerWindow l" "1 \<le> unat (rl_maxPerWindow l)"
    using assms(2) by (auto simp: word_le_nat_alt word_less_nat_alt)
  have "tally peer ADMIT (regr_run ?l calls) \<le> unat (rl_maxPerWindow ?l) - unat (re_count ?e) \<and>
      tally peer REFUSE_NOTIFY (regr_run ?l calls) \<le> (if re_notified ?e then 0 else 1)"
    using assms(3) max(1) by (intro rate_limit_open_window) (auto simp: in_window_def)
  then show ?thesis using st max(2) by (auto simp: tally_def)
qed

theorem registration_rate_limited_witness:
  "tally 7 ADMIT (regr_run (regr_configure 2 1000) [(7, 50), (7, 60), (9, 65), (7, 70), (7, 80)]) \<le> 2 \<and>
   tally 7 REFUSE_NOTIFY (regr_run (regr_configure 2 1000) [(7, 50), (7, 60), (9, 65), (7, 70), (7, 80)]) \<le> 1"
  using registration_rate_limited [of "regr_configure 2 1000" 7 "[(7, 60), (9, 65), (7, 70), (7, 80)]" 50]
  by (simp add: regr_configure_def del: regr_run.simps)

text \<open>A refusal the gateway builds is read back by the client as that reason, and no other length
  or magic is taken for one.\<close>

theorem reg_reject_round_trip:
  "NvPSDGatewayParseRegReject (Some bs) = Some reason \<longleftrightarrow> bs = NvPSDGatewayBuildRegReject reason"
proof
  assume "NvPSDGatewayParseRegReject (Some bs) = Some reason"
  then have "length bs = 5" "take 4 bs = NVPSD_GATEWAY_REG_REJECT_MAGIC" "bs ! 4 = reason"
    by (auto simp: NvPSDGatewayParseRegReject_def NVPSD_GATEWAY_REG_REJECT_MSG_SIZE_def split: if_splits)
  then show "bs = NvPSDGatewayBuildRegReject reason"
    using take_Suc_conv_app_nth [of 4 bs] by (simp add: NvPSDGatewayBuildRegReject_def)
qed (simp add: NvPSDGatewayParseRegReject_def NvPSDGatewayBuildRegReject_def
      NVPSD_GATEWAY_REG_REJECT_MSG_SIZE_def NVPSD_GATEWAY_REG_REJECT_MAGIC_def numeral_eq_Suc)

end
