(* ===== verification/Sdm_Sequence.thy ===== *)
theory Sdm_Sequence
  imports Gateway_Contract
begin

text \<open>
  What the SDMs share besides the request evaluators, under \<^verbatim>\<open>decision-makers/common\<close>: supervision of the
  gateway's transmit sequence (\<^verbatim>\<open>sdm_gateway_decision_sequence.hpp\<close>), decision freshness
  (\<^verbatim>\<open>sdm_decision_freshness.hpp\<close>) and the reviewed sensor set (\<^verbatim>\<open>sdm_reviewed_sensor_set.hpp\<close>).
\<close>

section \<open>Decision freshness\<close>

definition SDM_DECISION_FRESHNESS_TIMEOUT_MS_DEFAULT :: u32 where
  [sdm_defs]: "SDM_DECISION_FRESHNESS_TIMEOUT_MS_DEFAULT = 7000"
definition SDM_DECISION_FRESHNESS_TIMEOUT_MS_MIN :: u32 where
  [sdm_defs]: "SDM_DECISION_FRESHNESS_TIMEOUT_MS_MIN = 50"
definition SDM_DECISION_FRESHNESS_TIMEOUT_MS_MAX :: u32 where
  [sdm_defs]: "SDM_DECISION_FRESHNESS_TIMEOUT_MS_MAX = 300000"
definition SDM_DECISION_FRESHNESS_CHECK_PERIOD_MS :: u32 where
  [sdm_defs]: "SDM_DECISION_FRESHNESS_CHECK_PERIOD_MS = 500"

definition sdmDecisionFreshnessTimeoutMsIsValid :: "u32 \<Rightarrow> bool" where
  [sdm_defs]: "sdmDecisionFreshnessTimeoutMsIsValid timeoutMs \<longleftrightarrow>
     timeoutMs \<ge> SDM_DECISION_FRESHNESS_TIMEOUT_MS_MIN \<and>
     timeoutMs \<le> SDM_DECISION_FRESHNESS_TIMEOUT_MS_MAX"

definition sdmDecisionFreshnessExpired :: "u64 \<Rightarrow> u32 \<Rightarrow> bool" where
  "sdmDecisionFreshnessExpired elapsedMs timeoutMs \<longleftrightarrow> elapsedMs > ucast timeoutMs"

section \<open>Gateway transmit sequence\<close>

datatype SdmGatewayDecisionSequenceResult =
    SDM_GATEWAY_DECISION_SEQUENCE_ACCEPTED
  | SDM_GATEWAY_DECISION_SEQUENCE_GAP
  | SDM_GATEWAY_DECISION_SEQUENCE_DUPLICATE_OR_STALE
  | SDM_GATEWAY_DECISION_SEQUENCE_INVALID

record SdmGatewayDecisionSequenceState =
  gs_initialized :: bool
  gs_gatewayEpoch :: u64
  gs_lastGatewayTxSeq :: u32

definition sdm_sequence_initial :: SdmGatewayDecisionSequenceState where
  "sdm_sequence_initial = \<lparr>gs_initialized = False, gs_gatewayEpoch = 0, gs_lastGatewayTxSeq = 0\<rparr>"

definition sdmGatewayDecisionSequenceReset ::
  "SdmGatewayDecisionSequenceState option \<Rightarrow> SdmGatewayDecisionSequenceState option" where
  "sdmGatewayDecisionSequenceReset state =
     map_option (\<lambda>s. s\<lparr>gs_initialized := False, gs_gatewayEpoch := 0, gs_lastGatewayTxSeq := 0\<rparr>) state"

definition sdmGatewayDecisionSequenceObserve ::
  "SdmGatewayDecisionSequenceState option \<Rightarrow> u64 \<Rightarrow> u32 \<Rightarrow>
   SdmGatewayDecisionSequenceResult \<times> SdmGatewayDecisionSequenceState option" where
  "sdmGatewayDecisionSequenceObserve state gatewayEpoch gatewayTxSeq =
     (case state of None \<Rightarrow> (SDM_GATEWAY_DECISION_SEQUENCE_INVALID, None)
      | Some s \<Rightarrow>
        if \<not> NvPSDGatewayDecisionPacketEpochIsValid gatewayEpoch \<or>
           \<not> NvPSDGatewayDecisionPacketSequenceIsValid gatewayTxSeq
        then (SDM_GATEWAY_DECISION_SEQUENCE_INVALID, Some s)
        else if \<not> gs_initialized s \<or> gatewayEpoch \<noteq> gs_gatewayEpoch s then
          (SDM_GATEWAY_DECISION_SEQUENCE_ACCEPTED,
           Some (s\<lparr>gs_initialized := True, gs_gatewayEpoch := gatewayEpoch,
                   gs_lastGatewayTxSeq := gatewayTxSeq\<rparr>))
        else
          (let last = gs_lastGatewayTxSeq s in
           if last < NVPSD_GATEWAY_DECISION_TX_SEQ_MAX \<and> gatewayTxSeq \<le> last
           then (SDM_GATEWAY_DECISION_SEQUENCE_DUPLICATE_OR_STALE, Some s)
           else
             (let expected = (if last \<ge> NVPSD_GATEWAY_DECISION_TX_SEQ_MAX
                              then NVPSD_GATEWAY_DECISION_TX_SEQ_MIN else last + 1);
                  s' = s\<lparr>gs_lastGatewayTxSeq := gatewayTxSeq\<rparr>
              in (if gatewayTxSeq \<noteq> expected then SDM_GATEWAY_DECISION_SEQUENCE_GAP
                  else SDM_GATEWAY_DECISION_SEQUENCE_ACCEPTED, Some s'))))"

section \<open>Reviewed sensor set\<close>

definition kReviewedSensorMaxPipelineId :: u32 where
  [sdm_defs]: "kReviewedSensorMaxPipelineId = 31"

text \<open>The one-shot gate: (should warn, the updated mask of reported ids).\<close>

definition shouldWarnUnreviewedSensor :: "u32 \<Rightarrow> u32 \<Rightarrow> bool \<times> u32" where
  "shouldWarnUnreviewedSensor warned pipelineId =
     (if pipelineId = 0 \<or> pipelineId > kReviewedSensorMaxPipelineId then (False, warned)
      else
        (let b = push_bit (unat (pipelineId - 1)) 1 in
         if warned AND b \<noteq> 0 then (False, warned) else (True, warned OR b)))"

section \<open>The transmit sequence as a stream\<close>

text \<open>One gateway epoch: within it the SDM is a reader of the wrapping sequence.\<close>

definition sdm_last :: "u64 \<Rightarrow> SdmGatewayDecisionSequenceState \<Rightarrow> u32 option" where
  "sdm_last e s = (if gs_initialized s \<and> gs_gatewayEpoch s = e then Some (gs_lastGatewayTxSeq s) else None)"

definition sdm_observe ::
  "u64 \<Rightarrow> SdmGatewayDecisionSequenceState \<Rightarrow> u32 \<Rightarrow>
   SdmGatewayDecisionSequenceResult \<times> SdmGatewayDecisionSequenceState" where
  "sdm_observe e s i = map_prod id the (sdmGatewayDecisionSequenceObserve (Some s) e i)"

lemma sequence_valid_iff: "NvPSDGatewayDecisionPacketSequenceIsValid i \<longleftrightarrow> wrap_valid i"
  by (auto simp: gw_defs wrap_valid_def)

lemma expected_seq_eq:
  "(if l \<ge> NVPSD_GATEWAY_DECISION_TX_SEQ_MAX then NVPSD_GATEWAY_DECISION_TX_SEQ_MIN else l + 1) = wrap_next l"
  by (simp add: wrap_next_def gw_defs)

lemma sdm_observe_tracked:
  assumes "NvPSDGatewayDecisionPacketEpochIsValid e" and "wrap_valid i" and "sdm_last e s = Some l"
  shows "sdm_observe e s i =
    (if l < NVPSD_GATEWAY_DECISION_TX_SEQ_MAX \<and> i \<le> l
     then (SDM_GATEWAY_DECISION_SEQUENCE_DUPLICATE_OR_STALE, s)
     else (if i \<noteq> wrap_next l then SDM_GATEWAY_DECISION_SEQUENCE_GAP
           else SDM_GATEWAY_DECISION_SEQUENCE_ACCEPTED, s\<lparr>gs_lastGatewayTxSeq := i\<rparr>))"
  using assms
  unfolding sdm_observe_def sdmGatewayDecisionSequenceObserve_def Let_def expected_seq_eq
  by (simp add: sdm_last_def sequence_valid_iff split: if_splits)

lemma wrap_next_fresh:
  assumes "wrap_valid l"
  shows "\<not> (l < NVPSD_GATEWAY_DECISION_TX_SEQ_MAX \<and> wrap_next l \<le> l)"
proof
  assume l: "l < NVPSD_GATEWAY_DECISION_TX_SEQ_MAX \<and> wrap_next l \<le> l"
  then have "unat (l + 1) = unat l + 1" "wrap_next l = l + 1"
    using unat_plus_1_less [of l] by (auto simp: wrap_next_def gw_defs)
  then show False using l by (simp add: word_le_nat_alt)
qed

lemma sdm_id_stream:
  assumes "NvPSDGatewayDecisionPacketEpochIsValid e"
  shows "id_stream (sdm_last e) (sdm_observe e) SDM_GATEWAY_DECISION_SEQUENCE_ACCEPTED"
proof
  fix s i l
  show "sdm_last e s = None \<Longrightarrow> wrap_valid i \<Longrightarrow>
      fst (sdm_observe e s i) = SDM_GATEWAY_DECISION_SEQUENCE_ACCEPTED \<and>
      sdm_last e (snd (sdm_observe e s i)) = Some i"
    using assms by (auto simp: sdm_observe_def sdmGatewayDecisionSequenceObserve_def sdm_last_def
        sequence_valid_iff split: if_splits)
  assume l: "sdm_last e s = Some l" "wrap_valid l"
  then show "fst (sdm_observe e s (wrap_next l)) = SDM_GATEWAY_DECISION_SEQUENCE_ACCEPTED \<and>
      sdm_last e (snd (sdm_observe e s (wrap_next l))) = Some (wrap_next l)"
    using sdm_observe_tracked [OF assms _ l(1), of "wrap_next l"] wrap_next_fresh [OF l(2)]
    by (auto simp: sdm_last_def split: if_splits)
  show "fst (sdm_observe e s i) \<noteq> SDM_GATEWAY_DECISION_SEQUENCE_ACCEPTED" if "i \<noteq> wrap_next l"
  proof (cases "wrap_valid i")
    case True
    then show ?thesis using that sdm_observe_tracked [OF assms True l(1)] by auto
  next
    case False
    then show ?thesis
      by (simp add: sdm_observe_def sdmGatewayDecisionSequenceObserve_def sequence_valid_iff)
  qed
qed

interpretation sdmid: id_stream "sdm_last 1" "sdm_observe 1" SDM_GATEWAY_DECISION_SEQUENCE_ACCEPTED
  by (rule sdm_id_stream) (simp add: gw_defs)

end
