(* ===== verification/Atl_Cmd_Packet.thy ===== *)
theory Atl_Cmd_Packet
  imports Pss_Message_Validate
begin

text \<open>
  The 64-byte command packet between the ATL decision maker and its controller,
  \<^verbatim>\<open>decision-makers/atl/include/atl_cmd_pkt.h\<close>. Its CRC is the table-driven one; \<open>computeCRC32_eq\<close> shows
  that it computes the bitwise CRC-32 of the PSS messages.
\<close>

section \<open>Packet\<close>

definition ATL_PACKET_IDENTIFIER :: u8 where [atl_ops]: "ATL_PACKET_IDENTIFIER = 0xA2"
definition CMD_HEARTBEAT :: u8 where [atl_ops]: "CMD_HEARTBEAT = 0x00"
definition CMD_HW_ERROR :: u8 where [atl_ops]: "CMD_HW_ERROR = 0x01"
definition CMD_MUTE :: u8 where [atl_ops]: "CMD_MUTE = 0x02"
definition CMD_SW_ERROR :: u8 where [atl_ops]: "CMD_SW_ERROR = 0x03"
definition CMD_UNMUTE :: u8 where [atl_ops]: "CMD_UNMUTE = 0x07"
definition CMD_SAFE_RELEASE_REQUEST :: u8 where [atl_ops]: "CMD_SAFE_RELEASE_REQUEST = 0x08"
definition CMD_SAFE_RELEASE_ACK :: u8 where [atl_ops]: "CMD_SAFE_RELEASE_ACK = 0x09"
definition CMD_SAFE_RELEASE_DENIED :: u8 where [atl_ops]: "CMD_SAFE_RELEASE_DENIED = 0x0A"
definition COMMAND_PACKET_SIZE :: nat where [atl_ops]: "COMMAND_PACKET_SIZE = 24 + (2 * 20)"

record ObjectRecord =
  or_object_id :: u32
  or_x :: f32
  or_y :: f32
  or_z :: f32
  or_metadata :: u32

record CmdPacket =
  cp_identifier :: u8
  cp_seq :: u16
  cp_command :: u8
  cp_ts_seconds :: u64
  cp_ts_microseconds :: u64
  cp_crc32 :: u32
  cp_objects :: "ObjectRecord \<times> ObjectRecord"

definition object_record_bytes :: "ObjectRecord \<Rightarrow> byte list" where
  "object_record_bytes r =
     le_bytes 4 (or_object_id r) @ le_bytes 4 (or_x r) @ le_bytes 4 (or_y r) @ le_bytes 4 (or_z r) @
     le_bytes 4 (or_metadata r)"

definition cmd_packet_bytes :: "CmdPacket \<Rightarrow> byte list" where
  "cmd_packet_bytes p =
     [cp_identifier p] @ le_bytes 2 (cp_seq p) @ [cp_command p] @
     le_bytes 8 (cp_ts_seconds p) @ le_bytes 8 (cp_ts_microseconds p) @ le_bytes 4 (cp_crc32 p) @
     object_record_bytes (fst (cp_objects p)) @ object_record_bytes (snd (cp_objects p))"

section \<open>Table-driven CRC-32\<close>

definition crc_table :: "u32 list" where
  "crc_table = map (\<lambda>i. (crc_bit ^^ 8) (of_nat i)) [0..<256]"

definition table_step :: "u32 \<Rightarrow> byte \<Rightarrow> u32" where
  "table_step crc b = drop_bit 8 crc XOR crc_table ! unat ((crc XOR ucast b) AND 0xFF)"

definition computeCRC32 :: "byte list \<Rightarrow> u32" where
  "computeCRC32 bs = foldl table_step 0xFFFFFFFF bs XOR 0xFFFFFFFF"

definition cmdPacketCRC32 :: "CmdPacket \<Rightarrow> u32" where
  "cmdPacketCRC32 pkt =
     (let p = cmd_packet_bytes pkt;
          crc = foldl table_step 0xFFFFFFFF (take 20 p);
          crc = foldl table_step crc (take (COMMAND_PACKET_SIZE - 24) (drop 24 p))
      in crc XOR 0xFFFFFFFF)"

definition cmdPacketValidateCRC :: "CmdPacket \<Rightarrow> bool" where
  "cmdPacketValidateCRC pkt \<longleftrightarrow> cp_crc32 pkt = cmdPacketCRC32 pkt"

section \<open>The table computes the bitwise CRC\<close>

lemma crc_bit_xor: "crc_bit (a XOR b) = crc_bit a XOR crc_bit b"
proof (rule bit_word_eqI)
  fix n assume "n < LENGTH(32)"
  have *: "a AND 1 \<noteq> 0 \<longleftrightarrow> bit a 0" for a :: u32
    by (simp add: and_one_eq bit_0 odd_iff_mod_2_eq_one)
  show "bit (crc_bit (a XOR b)) n = bit (crc_bit a XOR crc_bit b) n"
    unfolding crc_bit_def * by (auto simp: bit_xor_iff bit_drop_bit_eq)
qed

lemma crc_bit_funpow_xor: "(crc_bit ^^ k) (a XOR b) = (crc_bit ^^ k) a XOR (crc_bit ^^ k) b"
  by (induction k) (auto simp: crc_bit_xor)

lemma crc_bit_funpow_shift: "(\<forall>i<k. \<not> bit a i) \<Longrightarrow> (crc_bit ^^ k) a = drop_bit k a"
proof (induction k arbitrary: a)
  case (Suc k)
  have "\<not> bit a 0" using Suc.prems by blast
  then have "crc_bit a = drop_bit 1 a"
    by (simp add: crc_bit_def and_one_eq bit_0 odd_iff_mod_2_eq_one)
  moreover have "\<forall>i<k. \<not> bit (drop_bit 1 a) i"
    using Suc.prems by (simp add: bit_drop_bit_eq)
  ultimately show ?case
    using Suc.IH [of "drop_bit 1 a"] by (simp add: funpow_swap1)
qed simp

lemma bit_ff: "bit (0xFF :: u32) n \<longleftrightarrow> n < 8"
  using bit_mask_iff [where 'a = "32 word", of 8 n] by (auto simp: mask_eq_exp_minus_1)

lemma crc_byte_split: "(crc_bit ^^ 8) x = drop_bit 8 x XOR (crc_bit ^^ 8) (x AND 0xFF)"
proof -
  have "x = (x AND NOT m) XOR (x AND m)" for m
    by (rule bit_word_eqI) (auto simp: bit_xor_iff bit_and_iff bit_not_iff)
  from this [of "0xFF"] have "(crc_bit ^^ 8) x = (crc_bit ^^ 8) (x AND NOT 0xFF) XOR (crc_bit ^^ 8) (x AND 0xFF)"
    by (metis crc_bit_funpow_xor)
  moreover have "(crc_bit ^^ 8) (x AND NOT 0xFF) = drop_bit 8 (x AND NOT 0xFF)"
    by (rule crc_bit_funpow_shift) (simp only: bit_and_iff bit_not_iff bit_ff, simp)
  moreover have "drop_bit 8 (x AND NOT 0xFF) = drop_bit 8 x"
    by (rule bit_word_eqI)
       (simp only: bit_drop_bit_eq bit_and_iff bit_not_iff bit_ff comp_def, auto dest: bit_imp_le_length)
  ultimately show ?thesis by simp
qed

lemma table_step_eq: "table_step crc b = crc_byte crc b"
proof -
  let ?x = "crc XOR ucast b"
  have lt: "unat (y AND 0xFF) < 256" for y :: u32
    using word_and_le1 [of y "0xFF"] by (simp add: word_le_nat_alt)
  have "drop_bit 8 ?x = drop_bit 8 crc"
    by (rule bit_word_eqI) (auto simp: bit_drop_bit_eq bit_xor_iff bit_ucast_iff dest: bit_imp_le_length)
  moreover have "crc_table ! unat (?x AND 0xFF) = (crc_bit ^^ 8) (?x AND 0xFF)"
    using lt by (simp add: crc_table_def)
  ultimately show ?thesis
    using crc_byte_split [of ?x] by (simp add: table_step_def crc_byte_def)
qed

lemma computeCRC32_eq: "computeCRC32 bs = crc32_of bs"
proof -
  have "table_step = crc_byte" by (intro ext) (rule table_step_eq)
  then show ?thesis by (simp add: computeCRC32_def crc32_of_def pssComputeCRC32_def)
qed


section \<open>The packet as a CRC-protected message\<close>

definition cmd_packet_payload :: "CmdPacket \<Rightarrow> byte list" where
  "cmd_packet_payload p = take 20 (cmd_packet_bytes p) @ drop 24 (cmd_packet_bytes p)"

definition cmd_packet_seal :: "CmdPacket \<Rightarrow> CmdPacket" where
  "cmd_packet_seal p = p\<lparr>cp_crc32 := cmdPacketCRC32 p\<rparr>"

lemma length_object_record_bytes [simp]: "length (object_record_bytes r) = 20"
  by (simp add: object_record_bytes_def)

lemma length_cmd_packet_bytes [simp]: "length (cmd_packet_bytes p) = COMMAND_PACKET_SIZE"
  by (simp add: cmd_packet_bytes_def COMMAND_PACKET_SIZE_def)

lemma cmd_packet_payload_eq:
  "cmd_packet_payload p =
     [cp_identifier p] @ le_bytes 2 (cp_seq p) @ [cp_command p] @
     le_bytes 8 (cp_ts_seconds p) @ le_bytes 8 (cp_ts_microseconds p) @
     object_record_bytes (fst (cp_objects p)) @ object_record_bytes (snd (cp_objects p))"
  by (simp add: cmd_packet_payload_def cmd_packet_bytes_def)

lemma cmdPacketCRC32_eq: "cmdPacketCRC32 p = crc32_of (cmd_packet_payload p)"
proof -
  have "foldl table_step = foldl crc_byte" by (intro ext) (simp add: table_step_eq [abs_def])
  then show ?thesis
    by (simp add: cmdPacketCRC32_def cmd_packet_payload_def crc32_of_def pssComputeCRC32_def Let_def
        take_all COMMAND_PACKET_SIZE_def)
qed

interpretation cmd: crc_message cmd_packet_payload cp_crc32 cmd_packet_seal cmdPacketValidateCRC
  by unfold_locales
     (simp_all add: cmdPacketValidateCRC_def cmdPacketCRC32_eq cmd_packet_seal_def cmd_packet_payload_eq)

section \<open>Properties\<close>

text \<open>
  C35. One CRC. The table-driven CRC-32 of the command packets and the bitwise CRC-32 of the PSS
  messages are the same function of the bytes.
\<close>

theorem table_crc_is_bitwise_crc: "computeCRC32 bs = pssComputeCRC32 (Some bs) (length bs)"
  by (simp add: computeCRC32_eq crc32_of_def)

text \<open>
  C36. Command integrity. A command packet with its CRC filled in validates; if any one byte of it outside
  the CRC field is changed, whichever byte and whatever its new value, it no longer does.
\<close>

theorem command_packet_integrity:
  "cmdPacketValidateCRC (cmd_packet_seal p) \<and>
   (cmdPacketValidateCRC q \<longrightarrow> i < length (cmd_packet_payload q) \<longrightarrow> b \<noteq> cmd_packet_payload q ! i \<longrightarrow>
    cmd_packet_payload q' = (cmd_packet_payload q)[i := b] \<longrightarrow> cp_crc32 q' = cp_crc32 q \<longrightarrow>
    \<not> cmdPacketValidateCRC q')"
  using cmd.seal_verifies cmd.corrupted_byte_rejected by blast

definition example_packet :: CmdPacket where
  "example_packet =
     \<lparr>cp_identifier = ATL_PACKET_IDENTIFIER, cp_seq = 5, cp_command = CMD_UNMUTE, cp_ts_seconds = 9,
      cp_ts_microseconds = 3, cp_crc32 = 0,
      cp_objects = (\<lparr>or_object_id = 1, or_x = 0, or_y = 0, or_z = 0, or_metadata = 2\<rparr>,
                    \<lparr>or_object_id = 0, or_x = 0, or_y = 0, or_z = 0, or_metadata = 0\<rparr>)\<rparr>"

theorem command_packet_integrity_witness:
  "\<not> cmdPacketValidateCRC ((cmd_packet_seal example_packet)\<lparr>cp_command := CMD_MUTE\<rparr>)"
proof -
  let ?q = "cmd_packet_seal example_packet"
  have "cmd_packet_payload ?q ! 3 = CMD_UNMUTE" "3 < length (cmd_packet_payload ?q)"
    "cmd_packet_payload (?q\<lparr>cp_command := CMD_MUTE\<rparr>) = (cmd_packet_payload ?q)[3 := CMD_MUTE]"
    by (simp_all add: cmd_packet_payload_eq cmd_packet_seal_def example_packet_def le_bytes_def upt_rec
        numeral_eq_Suc)
  moreover have "cmdPacketValidateCRC ?q" using command_packet_integrity [of example_packet] by blast
  moreover have "CMD_MUTE \<noteq> CMD_UNMUTE" by (simp add: atl_ops)
  ultimately show ?thesis
    using command_packet_integrity [of example_packet ?q 3 CMD_MUTE "?q\<lparr>cp_command := CMD_MUTE\<rparr>"] by simp
qed

end
