(* ===== verification/Atl_State.thy ===== *)
theory Atl_State
  imports Sdm_Sequence Atl_Cmd_Packet
begin

text \<open>
  State and primitive operations of the ATL (automated trailer loading) decision maker,
  \<^verbatim>\<open>decision-makers/atl/sdm/ATLControl.cpp\<close>. The file's static variables are grouped by what they are
  about: the faults and the safe-state latch, the readers of the gateway link, the physical
  situation, and the link to the controller (PLC). Each operation below is a function on the group it
  changes. Logging is left out; the packets put on the wire are kept in \<open>lk_out\<close>, oldest first.
  Times of the steady clock are integers in nanoseconds.
\<close>

section \<open>Configuration and environment\<close>

text \<open>Written once before any thread exists, read-only afterwards.\<close>

record AtlCfg =
  cf_forkliftEntered :: EventType
  cf_forkliftExited :: EventType
  cf_personEntered :: EventType
  cf_personExited :: EventType
  cf_roiViolation :: EventType
  cf_roiCleared :: EventType
  cf_reviewedIds :: "u8 list"
  cf_reviewedMask :: u32
  cf_maxHbFailures :: u32
  cf_warnThreshold :: u32
  cf_hbStaleMs :: u32
  cf_hbPeriodMs :: u32
  cf_decisionFreshnessTimeoutMs :: u32

text \<open>
  What one handler gets from outside: the steady clock, the system clock read for send number \<open>n\<close>
  (the value of \<open>cmdSeqNo\<close>), and whether \<open>sendto\<close> accepted the whole packet of that send.
\<close>

record AtlEnv =
  en_now :: int
  en_sysNow :: "u32 \<Rightarrow> int"
  en_sendto :: "u32 \<Rightarrow> bool"

section \<open>State\<close>

definition kPssSubModeError :: nat where [pss_enum]: "kPssSubModeError = 0"
definition kPssSubGatewayComm :: nat where [pss_enum]: "kPssSubGatewayComm = 1"
definition kPssSubSwFail :: nat where [pss_enum]: "kPssSubSwFail = 2"
definition kPssSubMonitorLost :: nat where [pss_enum]: "kPssSubMonitorLost = 3"
definition kPssSubPerceptionMonitorLost :: nat where [pss_enum]: "kPssSubPerceptionMonitorLost = 4"
definition kPssSubMdxLost :: nat where [pss_enum]: "kPssSubMdxLost = 5"
definition kPssSubInputUnusable :: nat where [pss_enum]: "kPssSubInputUnusable = 6"
definition kPssSubCauseCount :: nat where [pss_enum]: "kPssSubCauseCount = 7"

definition kSafeLatchGatewayHb :: u32 where [pss_enum]: "kSafeLatchGatewayHb = push_bit 0 1"
definition kSafeLatchPss :: u32 where [pss_enum]: "kSafeLatchPss = push_bit 1 1"
definition kSafeLatchCountDrift :: u32 where [pss_enum]: "kSafeLatchCountDrift = push_bit 2 1"
definition kSafeLatchDecisionFreshness :: u32 where
  [pss_enum]: "kSafeLatchDecisionFreshness = push_bit 3 1"
definition kSafeLatchGatewayDecisionSequence :: u32 where
  [pss_enum]: "kSafeLatchGatewayDecisionSequence = push_bit 4 1"
definition kSafeLatchAllSafetyRelevantSensorsFailed :: u32 where
  [pss_enum]: "kSafeLatchAllSafetyRelevantSensorsFailed = push_bit 5 1"
definition kSafeLatchAiPipelineInvalid :: u32 where
  [pss_enum]: "kSafeLatchAiPipelineInvalid = push_bit 6 1"

record AtlFaults =
  fl_hbFaultLatched :: bool
  fl_lastGatewayHbMissCount :: u32
  fl_pssErrorFusionSuppressLatched :: bool
  fl_pssSubCauseActive :: "nat \<Rightarrow> bool"
  fl_decisionFreshnessFaultActive :: bool
  fl_gatewayDecisionSequenceFaultActive :: bool
  fl_failedSafetyRelevantSensorMask :: u32
  fl_saimInitPendingSensorMask :: u32
  fl_allSafetyRelevantSensorsFailedActive :: bool
  fl_aiPipelineInvalidActive :: bool
  fl_safeStateLatchCauses :: u32

record AtlInput =
  in_lastEventId :: "u32 list"
  in_unreviewedSensorWarned :: u32
  in_sourcePresenceSeen :: u32
  in_sourceInputUnusableSeen :: u32
  in_gatewayDecisionSequenceState :: SdmGatewayDecisionSequenceState
  in_hbLastRecvTime :: int
  in_lastValidDecisionRequestTime :: int
  in_lastSafeReleaseRequestTime :: "int option"
  in_prevMiss :: u32
  in_regrTier2AttemptsRemaining :: int

record AtlPhysical =
  ph_forkliftInTrailer :: bool
  ph_personsInTrailerCount :: int
  ph_restrictedAreaViolationByPerson :: bool
  ph_lastForkliftRecord :: ObjectRecord
  ph_lastForkliftRecordValid :: bool

record CommandStatus =
  cs_sentTime :: int
  cs_command :: u8
  cs_acknowledged :: bool
  cs_sentTimeSec :: u64
  cs_sentTimeMicro :: u64

record AtlLink =
  lk_cmdSeqNo :: u32
  lk_pendingCommands :: "u16 \<rightharpoonup> CommandStatus"
  lk_out :: "CmdPacket list"

record AtlState =
  at_faults :: AtlFaults
  at_input :: AtlInput
  at_phys :: AtlPhysical
  at_link :: AtlLink

section \<open>The safe-state latch\<close>

definition safeStateLatched :: "AtlFaults \<Rightarrow> bool" where
  "safeStateLatched f \<longleftrightarrow> fl_safeStateLatchCauses f \<noteq> 0"

definition latch :: "u32 \<Rightarrow> AtlFaults \<Rightarrow> AtlFaults" where
  "latch cause f = f\<lparr>fl_safeStateLatchCauses := fl_safeStateLatchCauses f OR cause\<rparr>"

definition pssAnySubCauseActive :: "AtlFaults \<Rightarrow> bool" where
  "pssAnySubCauseActive f \<longleftrightarrow> list_ex (fl_pssSubCauseActive f) [0..<kPssSubCauseCount]"

definition markPssSubCause :: "nat \<Rightarrow> AtlFaults \<Rightarrow> AtlFaults" where
  "markPssSubCause cause f =
     latch kSafeLatchPss
       (f\<lparr>fl_pssSubCauseActive := (fl_pssSubCauseActive f)(cause := True),
          fl_pssErrorFusionSuppressLatched := True\<rparr>)"

definition clearPssSubCause :: "nat \<Rightarrow> AtlFaults \<Rightarrow> AtlFaults" where
  "clearPssSubCause cause f =
     (if \<not> fl_pssSubCauseActive f cause then f
      else
        (let f = f\<lparr>fl_pssSubCauseActive := (fl_pssSubCauseActive f)(cause := False)\<rparr> in
         if \<not> pssAnySubCauseActive f then f\<lparr>fl_pssErrorFusionSuppressLatched := False\<rparr> else f))"

definition markAllSafetyRelevantSensorsFailedLatched :: "AtlFaults \<Rightarrow> bool \<times> AtlFaults" where
  "markAllSafetyRelevantSensorsFailedLatched f =
     (if fl_allSafetyRelevantSensorsFailedActive f then (False, f)
      else (True, latch kSafeLatchAllSafetyRelevantSensorsFailed
                    (f\<lparr>fl_allSafetyRelevantSensorsFailedActive := True\<rparr>)))"

definition clearAllSafetyRelevantSensorsFailedActiveIfRecovered ::
  "AtlCfg \<Rightarrow> u32 \<Rightarrow> AtlFaults \<Rightarrow> AtlFaults" where
  "clearAllSafetyRelevantSensorsFailedActiveIfRecovered cfg failedMask f =
     (if failedMask AND cf_reviewedMask cfg = cf_reviewedMask cfg then f
      else f\<lparr>fl_allSafetyRelevantSensorsFailedActive := False\<rparr>)"

definition updateSafetyRelevantSensorFailedBit :: "u32 \<Rightarrow> bool \<Rightarrow> AtlFaults \<Rightarrow> u32 \<times> AtlFaults" where
  "updateSafetyRelevantSensorFailedBit b failed f =
     (let m = fl_failedSafetyRelevantSensorMask f;
          m' = (if failed then m OR b else m AND NOT b)
      in (m', f\<lparr>fl_failedSafetyRelevantSensorMask := m'\<rparr>))"

definition markCountDriftFaultLatched :: "AtlFaults \<Rightarrow> bool \<times> AtlFaults" where
  "markCountDriftFaultLatched f =
     (fl_safeStateLatchCauses f = 0, latch kSafeLatchCountDrift f)"

definition markGatewayHbFaultLatched :: "AtlFaults \<Rightarrow> bool \<times> AtlFaults" where
  "markGatewayHbFaultLatched f =
     (if fl_hbFaultLatched f then (False, f)
      else (True, latch kSafeLatchGatewayHb (f\<lparr>fl_hbFaultLatched := True\<rparr>)))"

definition clearGatewayHbFaultActive :: "AtlFaults \<Rightarrow> AtlFaults" where
  "clearGatewayHbFaultActive f = f\<lparr>fl_hbFaultLatched := False\<rparr>"

definition markDecisionFreshnessFaultLatched :: "AtlFaults \<Rightarrow> bool \<times> AtlFaults" where
  "markDecisionFreshnessFaultLatched f =
     (if fl_decisionFreshnessFaultActive f then (False, f)
      else (True, latch kSafeLatchDecisionFreshness (f\<lparr>fl_decisionFreshnessFaultActive := True\<rparr>)))"

definition markGatewayDecisionSequenceFaultLatched :: "AtlFaults \<Rightarrow> bool \<times> AtlFaults" where
  "markGatewayDecisionSequenceFaultLatched f =
     (if fl_gatewayDecisionSequenceFaultActive f then (False, f)
      else (True, latch kSafeLatchGatewayDecisionSequence
                    (f\<lparr>fl_gatewayDecisionSequenceFaultActive := True\<rparr>)))"

definition markGatewayDecisionSequenceRecovered :: "AtlFaults \<Rightarrow> AtlFaults" where
  "markGatewayDecisionSequenceRecovered f = f\<lparr>fl_gatewayDecisionSequenceFaultActive := False\<rparr>"

definition markAiPipelineInvalidLatched :: "AtlFaults \<Rightarrow> bool \<times> AtlFaults" where
  "markAiPipelineInvalidLatched f =
     (\<not> fl_aiPipelineInvalidActive f,
      latch kSafeLatchAiPipelineInvalid (f\<lparr>fl_aiPipelineInvalidActive := True\<rparr>))"

definition clearAiPipelineInvalidActive :: "AtlFaults \<Rightarrow> AtlFaults" where
  "clearAiPipelineInvalidActive f = f\<lparr>fl_aiPipelineInvalidActive := False\<rparr>"

definition gatewayHbTier2SafeHoldBand :: "AtlCfg \<Rightarrow> AtlFaults \<Rightarrow> bool" where
  "gatewayHbTier2SafeHoldBand cfg f =
     (if fl_hbFaultLatched f then False
      else fl_lastGatewayHbMissCount f > cf_warnThreshold cfg \<and>
           fl_lastGatewayHbMissCount f < cf_maxHbFailures cfg)"

definition gatewayHbSuppressFusionDecisions :: "AtlCfg \<Rightarrow> AtlFaults \<Rightarrow> bool" where
  "gatewayHbSuppressFusionDecisions cfg f =
     (if safeStateLatched f then True
      else if fl_hbFaultLatched f then True
      else fl_lastGatewayHbMissCount f > cf_warnThreshold cfg)"

definition activeSafeLatchCauses :: "AtlCfg \<Rightarrow> AtlFaults \<Rightarrow> u32" where
  "activeSafeLatchCauses cfg f =
     (let active = 0;
          active = active OR (if fl_hbFaultLatched f \<or> gatewayHbTier2SafeHoldBand cfg f
                              then kSafeLatchGatewayHb else 0);
          active = active OR (if pssAnySubCauseActive f then kSafeLatchPss else 0);
          active = active OR (if fl_decisionFreshnessFaultActive f then kSafeLatchDecisionFreshness else 0);
          active = active OR (if fl_gatewayDecisionSequenceFaultActive f
                              then kSafeLatchGatewayDecisionSequence else 0);
          active = active OR (if fl_allSafetyRelevantSensorsFailedActive f
                              then kSafeLatchAllSafetyRelevantSensorsFailed else 0);
          active = active OR (if fl_aiPipelineInvalidActive f then kSafeLatchAiPipelineInvalid else 0)
      in active)"

section \<open>Commands to the controller\<close>

definition getCurrentUTCTimeForPacket :: "int \<Rightarrow> u64 \<times> u64" where
  "getCurrentUTCTimeForPacket ns =
     (let totalSec = word_of_int (ns sdiv 1000000000) :: u64;
          totalUsec = word_of_int (ns sdiv 1000) :: u64
      in (totalSec, totalUsec - totalSec * 1000000))"

definition zero_object_record :: ObjectRecord where
  "zero_object_record = \<lparr>or_object_id = 0, or_x = 0, or_y = 0, or_z = 0, or_metadata = 0\<rparr>"

definition makeObjectRecordFromSensorData :: "SensorData \<Rightarrow> ObjectRecord" where
  "makeObjectRecordFromSensorData data =
     (let meta = fe_fusionMetadata (sd_event data) in
      \<lparr>or_object_id = fst (fm_objectID meta), or_x = tc_x (fm_coordinates meta ! 0),
       or_y = tc_y (fm_coordinates meta ! 0), or_z = 0,
       or_metadata = fst (fm_objectType meta)\<rparr>)"

definition updateLastForkliftRecordLocked :: "SensorData \<Rightarrow> AtlPhysical \<Rightarrow> AtlPhysical" where
  "updateLastForkliftRecordLocked data p =
     p\<lparr>ph_lastForkliftRecord := makeObjectRecordFromSensorData data, ph_lastForkliftRecordValid := True\<rparr>"

definition resetLastForkliftRecordLocked :: "AtlPhysical \<Rightarrow> AtlPhysical" where
  "resetLastForkliftRecordLocked p =
     p\<lparr>ph_lastForkliftRecord := zero_object_record, ph_lastForkliftRecordValid := False\<rparr>"

definition snapshotLastForkliftRecord :: "AtlPhysical \<Rightarrow> ObjectRecord option" where
  "snapshotLastForkliftRecord p =
     (if \<not> ph_lastForkliftRecordValid p then None else Some (ph_lastForkliftRecord p))"

definition fillObjectRecords ::
  "SensorData option \<Rightarrow> ObjectRecord option \<Rightarrow> ObjectRecord \<times> ObjectRecord" where
  "fillObjectRecords data object1Record =
     (case object1Record of
        Some r \<Rightarrow> (r, zero_object_record)
      | None \<Rightarrow>
          (case data of
             Some d \<Rightarrow> (makeObjectRecordFromSensorData d, zero_object_record)
           | None \<Rightarrow> (zero_object_record, zero_object_record)))"

definition trackedCommand :: "u8 \<Rightarrow> bool" where
  "trackedCommand command \<longleftrightarrow>
     command = CMD_MUTE \<or> command = CMD_UNMUTE \<or> command = CMD_SW_ERROR \<or>
     command = CMD_SAFE_RELEASE_ACK \<or> command = CMD_SAFE_RELEASE_DENIED"

definition sendDecisionCommandInternal ::
  "AtlEnv \<Rightarrow> u8 \<Rightarrow> bool \<Rightarrow> SensorData option \<Rightarrow> ObjectRecord option \<Rightarrow> AtlLink \<Rightarrow> bool \<times> AtlLink" where
  "sendDecisionCommandInternal env command trackAck data object1Record l =
     (let n = lk_cmdSeqNo l;
          seqNo = ucast n :: u16;
          (tsSec, tsMicro) = getCurrentUTCTimeForPacket (en_sysNow env n);
          pkt = \<lparr>cp_identifier = ATL_PACKET_IDENTIFIER, cp_seq = seqNo, cp_command = command,
                 cp_ts_seconds = tsSec, cp_ts_microseconds = tsMicro, cp_crc32 = 0,
                 cp_objects = fillObjectRecords data object1Record\<rparr>;
          pkt = pkt\<lparr>cp_crc32 := cmdPacketCRC32 pkt\<rparr>;
          trackPendingAck = (trackAck \<and> trackedCommand command);
          status = \<lparr>cs_sentTime = en_sysNow env n, cs_command = command, cs_acknowledged = False,
                    cs_sentTimeSec = tsSec, cs_sentTimeMicro = tsMicro\<rparr>;
          pending = (if trackPendingAck then (lk_pendingCommands l)(seqNo \<mapsto> status)
                     else lk_pendingCommands l);
          sentOk = en_sendto env n;
          pending = (if \<not> sentOk \<and> trackPendingAck
                     then (case pending seqNo of
                             None \<Rightarrow> pending
                           | Some s \<Rightarrow> if cs_command s = command \<and> cs_sentTimeSec s = tsSec \<and>
                                          cs_sentTimeMicro s = tsMicro
                                       then pending(seqNo := None) else pending)
                     else pending)
      in (sentOk, \<lparr>lk_cmdSeqNo = n + 1, lk_pendingCommands = pending,
                   lk_out = (if sentOk then lk_out l @ [pkt] else lk_out l)\<rparr>))"

definition sendDecisionCommand ::
  "AtlEnv \<Rightarrow> u8 \<Rightarrow> bool \<Rightarrow> SensorData option \<Rightarrow> AtlLink \<Rightarrow> bool \<times> AtlLink" where
  "sendDecisionCommand env command trackAck data l =
     sendDecisionCommandInternal env command trackAck data None l"

definition sendDecisionCommandWithObject1 ::
  "AtlEnv \<Rightarrow> u8 \<Rightarrow> bool \<Rightarrow> ObjectRecord option \<Rightarrow> AtlLink \<Rightarrow> bool \<times> AtlLink" where
  "sendDecisionCommandWithObject1 env command trackAck object1Record l =
     sendDecisionCommandInternal env command trackAck None object1Record l"

text \<open>The pair UNMUTE, SW_ERROR that every hold sends, whatever became of the first send.\<close>

definition sendLatchedSafeHold :: "AtlEnv \<Rightarrow> AtlLink \<Rightarrow> AtlLink" where
  "sendLatchedSafeHold env l =
     (let (unmuteSent, l) = sendDecisionCommand env CMD_UNMUTE True None l;
          (swErrorSent, l) = sendDecisionCommand env CMD_SW_ERROR True None l
      in l)"

definition sendPhysicalEventSafeHold :: "AtlEnv \<Rightarrow> ObjectRecord option \<Rightarrow> AtlLink \<Rightarrow> AtlLink" where
  "sendPhysicalEventSafeHold env object1Record l =
     (let (unmuteSent, l) = sendDecisionCommandWithObject1 env CMD_UNMUTE True object1Record l;
          (swErrorSent, l) = sendDecisionCommandWithObject1 env CMD_SW_ERROR True object1Record l
      in l)"

section \<open>Controller packets\<close>

definition isValidPlcInboundCommand :: "u8 \<Rightarrow> bool" where
  "isValidPlcInboundCommand command \<longleftrightarrow>
     command = CMD_HEARTBEAT \<or> command = CMD_MUTE \<or> command = CMD_UNMUTE \<or>
     command = CMD_HW_ERROR \<or> command = CMD_SW_ERROR \<or> command = CMD_SAFE_RELEASE_REQUEST"

definition resetAtlStateFromPlcSafeRelease :: "AtlPhysical \<Rightarrow> AtlPhysical" where
  "resetAtlStateFromPlcSafeRelease p =
     resetLastForkliftRecordLocked
       (p\<lparr>ph_forkliftInTrailer := False, ph_personsInTrailerCount := 0,
          ph_restrictedAreaViolationByPerson := False\<rparr>)"

end
