(* ===== verification/Atl_Control.thy ===== *)
theory Atl_Control
  imports Atl_State
begin

text \<open>
  The handlers of the ATL decision maker, \<^verbatim>\<open>decision-makers/atl/sdm/ATLControl.cpp\<close>: one decision
  request, one packet from the gateway, the release request of the controller, the two
  watchdogs and the periodic decision. Every handler runs as one step, which is what the source's
  transition lock gives packets and releases. The watchdogs latch without that lock; the two places
  where the source re-reads the latch before it acts (the end of a release and the decision itself) take the
  watchdog marks that land there as an argument.
\<close>

section \<open>Gateway heartbeat and decision freshness\<close>

definition gatewayMissFromElapsedMs :: "AtlCfg \<Rightarrow> int \<Rightarrow> u32" where
  "gatewayMissFromElapsedMs cfg elapsedMs =
     (let staleStartMs = uint (cf_hbStaleMs cfg); periodMs = uint (cf_hbPeriodMs cfg) in
      if elapsedMs \<le> staleStartMs then 0
      else
        (let m = 1 + (word_of_int ((elapsedMs - staleStartMs) sdiv periodMs) :: u64);
             maxF = cf_maxHbFailures cfg
         in if m > ucast maxF then maxF else ucast m))"

text \<open>
  The part of a freshness-watchdog round that runs before it waits for the send lock: (a fault was
  entered, the faults).
\<close>

definition freshness_mark :: "AtlCfg \<Rightarrow> int \<Rightarrow> AtlInput \<Rightarrow> AtlFaults \<Rightarrow> bool \<times> AtlFaults" where
  "freshness_mark cfg now i f =
     (let elapsedMs = word_of_int (ms_of (now - in_lastValidDecisionRequestTime i)) :: u64 in
      if sdmDecisionFreshnessExpired elapsedMs (cf_decisionFreshnessTimeoutMs cfg)
      then markDecisionFreshnessFaultLatched f else (False, f))"

definition decisionFreshnessWatchdog :: "AtlCfg \<Rightarrow> AtlEnv \<Rightarrow> AtlState \<Rightarrow> AtlState" where
  "decisionFreshnessWatchdog cfg env s =
     (let (entered, f) = freshness_mark cfg (en_now env) (at_input s) (at_faults s);
          s = s\<lparr>at_faults := f\<rparr>
      in if entered then s\<lparr>at_link := sendLatchedSafeHold env (at_link s)\<rparr> else s)"

text \<open>One round of the heartbeat watchdog: the miss count, tier 2 on entry, tier 3 latch.\<close>

definition heartbeat_mark :: "AtlCfg \<Rightarrow> int \<Rightarrow> AtlInput \<Rightarrow> AtlFaults \<Rightarrow> AtlFaults" where
  "heartbeat_mark cfg now i f =
     (let m = gatewayMissFromElapsedMs cfg (ms_of (now - in_hbLastRecvTime i));
          f = f\<lparr>fl_lastGatewayHbMissCount := m\<rparr>
      in if m = 0 then clearGatewayHbFaultActive f else f)"

definition gatewayHeartbeatWatchdog :: "AtlCfg \<Rightarrow> AtlEnv \<Rightarrow> AtlState \<Rightarrow> AtlState" where
  "gatewayHeartbeatWatchdog cfg env s =
     (let maxF = cf_maxHbFailures cfg; warnW = cf_warnThreshold cfg;
          m = gatewayMissFromElapsedMs cfg (ms_of (en_now env - in_hbLastRecvTime (at_input s)));
          prevMiss = in_prevMiss (at_input s);
          s = s\<lparr>at_faults := heartbeat_mark cfg (en_now env) (at_input s) (at_faults s)\<rparr>;
          s = (if m > warnW \<and> m < maxF \<and> prevMiss \<le> warnW
               then s\<lparr>at_input := (at_input s)\<lparr>in_regrTier2AttemptsRemaining :=
                        (if maxF > warnW + 1 then sint (maxF - warnW - 1) else 0)\<rparr>,
                      at_link := sendLatchedSafeHold env (at_link s)\<rparr>
               else s);
          s = s\<lparr>at_input := (at_input s)\<lparr>in_prevMiss := m\<rparr>\<rparr>
      in if m \<ge> maxF then
           (let (entered, f) = markGatewayHbFaultLatched (at_faults s);
                s = s\<lparr>at_faults := f\<rparr>
            in if entered then s\<lparr>at_link := sendLatchedSafeHold env (at_link s)\<rparr> else s)
         else s)"

text \<open>
  What a watchdog can do to the faults while another handler holds the send lock: a freshness
  mark, or the miss count together with the tier-3 mark.
\<close>

datatype WatchdogMark = FreshnessMark int | HeartbeatMark int

definition watchdog_mark :: "AtlCfg \<Rightarrow> AtlInput \<Rightarrow> WatchdogMark \<Rightarrow> AtlFaults \<Rightarrow> AtlFaults" where
  "watchdog_mark cfg i w f =
     (case w of
        FreshnessMark now \<Rightarrow> snd (freshness_mark cfg now i f)
      | HeartbeatMark now \<Rightarrow>
          (let f = heartbeat_mark cfg now i f in
           if fl_lastGatewayHbMissCount f \<ge> cf_maxHbFailures cfg
           then snd (markGatewayHbFaultLatched f) else f))"

section \<open>The decision\<close>

definition evaluateATLDecision ::
  "AtlCfg \<Rightarrow> AtlEnv \<Rightarrow> WatchdogMark list \<Rightarrow> AtlState \<Rightarrow> AtlState" where
  "evaluateATLDecision cfg env marks s =
     (let hold = (\<lambda>s. s\<lparr>at_link := sendLatchedSafeHold env (at_link s)\<rparr>); f = at_faults s in
      if safeStateLatched f then hold s
      else if fl_pssErrorFusionSuppressLatched f then hold s
      else if gatewayHbTier2SafeHoldBand cfg f then hold s
      else if gatewayHbSuppressFusionDecisions cfg f then s
      else
        (let forkliftOut = ph_forkliftInTrailer (at_phys s);
             personOut = ph_personsInTrailerCount (at_phys s);
             restrictedViol = ph_restrictedAreaViolationByPerson (at_phys s);
             forkliftRecord = snapshotLastForkliftRecord (at_phys s);
             f = fold (watchdog_mark cfg (at_input s)) marks f;
             s = s\<lparr>at_faults := f\<rparr>
         in if safeStateLatched f \<or> fl_pssErrorFusionSuppressLatched f \<or> gatewayHbTier2SafeHoldBand cfg f
            then hold s
            else if gatewayHbSuppressFusionDecisions cfg f then s
            else if forkliftOut \<and> personOut = 0 \<and> \<not> restrictedViol
            then s\<lparr>at_link := snd (sendDecisionCommandWithObject1 env CMD_MUTE True forkliftRecord (at_link s))\<rparr>
            else s\<lparr>at_link := snd (sendDecisionCommandWithObject1 env CMD_UNMUTE True forkliftRecord (at_link s))\<rparr>))"

section \<open>Release by the controller\<close>

definition SAFE_RELEASE_MIN_INTERVAL_MS :: int where
  "SAFE_RELEASE_MIN_INTERVAL_MS = 1000"

definition safeReleaseNoopResponseInRateWindow :: "int \<Rightarrow> AtlInput \<Rightarrow> bool" where
  "safeReleaseNoopResponseInRateWindow now i =
     (case in_lastSafeReleaseRequestTime i of None \<Rightarrow> False
      | Some lastTime \<Rightarrow> ms_of (now - lastTime) < SAFE_RELEASE_MIN_INTERVAL_MS)"

definition markSafeReleaseNoopResponseSuccess :: "int \<Rightarrow> AtlInput \<Rightarrow> AtlInput" where
  "markSafeReleaseNoopResponseSuccess now i = i\<lparr>in_lastSafeReleaseRequestTime := Some now\<rparr>"

definition handleSafeReleaseRequest ::
  "AtlCfg \<Rightarrow> AtlEnv \<Rightarrow> WatchdogMark list \<Rightarrow> AtlState \<Rightarrow> AtlState" where
  "handleSafeReleaseRequest cfg env marks s =
     (let active = activeSafeLatchCauses cfg (at_faults s); l = at_link s in
      if active \<noteq> 0 then
        (let (_, l) = sendDecisionCommand env CMD_SAFE_RELEASE_DENIED False None l;
             (_, l) = sendDecisionCommand env CMD_UNMUTE True None l;
             (_, l) = sendDecisionCommand env CMD_SW_ERROR True None l
         in s\<lparr>at_link := l\<rparr>)
      else
        (let releaseLatchSnapshot = fl_safeStateLatchCauses (at_faults s);
             now = en_now env;
             (ackSent, l) = sendDecisionCommand env CMD_SAFE_RELEASE_ACK False None l;
             (unmuteSent, l) = sendDecisionCommand env CMD_UNMUTE True None l;
             s = s\<lparr>at_link := l\<rparr>
         in if releaseLatchSnapshot \<noteq> 0 then
              (let f = fold (watchdog_mark cfg (at_input s)) marks (at_faults s);
                   s = s\<lparr>at_faults := f\<rparr>
               in if ackSent \<and> unmuteSent then
                    (if fl_safeStateLatchCauses f = releaseLatchSnapshot \<and> activeSafeLatchCauses cfg f = 0
                     then s\<lparr>at_faults := f\<lparr>fl_safeStateLatchCauses := 0\<rparr>,
                            at_phys := resetAtlStateFromPlcSafeRelease (at_phys s),
                            at_input := markSafeReleaseNoopResponseSuccess now (at_input s)\<rparr>
                     else s\<lparr>at_link := sendLatchedSafeHold env (at_link s)\<rparr>)
                  else s)
            else if ackSent \<and> unmuteSent then
              s\<lparr>at_phys := resetAtlStateFromPlcSafeRelease (at_phys s),
                at_input := markSafeReleaseNoopResponseSuccess now (at_input s)\<rparr>
            else s))"

text \<open>
  One packet received on the controller socket: the sender is the configured endpoint or not;
  other commands than a release acknowledge a pending command.
\<close>

definition acknowledge :: "CmdPacket \<Rightarrow> AtlLink \<Rightarrow> AtlLink" where
  "acknowledge pkt l =
     (case lk_pendingCommands l (cp_seq pkt) of
        None \<Rightarrow> l
      | Some st \<Rightarrow>
          if cp_command pkt \<noteq> cs_command st then l
          else l\<lparr>lk_pendingCommands := (lk_pendingCommands l)(cp_seq pkt \<mapsto> st\<lparr>cs_acknowledged := True\<rparr>)\<rparr>)"

definition plc_receive ::
  "AtlCfg \<Rightarrow> AtlEnv \<Rightarrow> WatchdogMark list \<Rightarrow> bool \<Rightarrow> CmdPacket \<Rightarrow> AtlState \<Rightarrow> AtlState" where
  "plc_receive cfg env marks fromPlc pkt s =
     (if \<not> fromPlc then s
      else if cp_identifier pkt \<noteq> ATL_PACKET_IDENTIFIER then s
      else if \<not> cmdPacketValidateCRC pkt then s
      else if \<not> isValidPlcInboundCommand (cp_command pkt) then s
      else if cp_command pkt = CMD_SAFE_RELEASE_REQUEST then handleSafeReleaseRequest cfg env marks s
      else s\<lparr>at_link := acknowledge pkt (at_link s)\<rparr>)"

definition ACK_TIMEOUT_SECONDS :: int where "ACK_TIMEOUT_SECONDS = 3"
definition ACK_CLEANUP_SECONDS :: int where "ACK_CLEANUP_SECONDS = 10"

text \<open>The periodic scan: erases acknowledged commands after 10 s and unanswered ones after 3 s.\<close>

definition ack_scan :: "int \<Rightarrow> AtlLink \<Rightarrow> AtlLink" where
  "ack_scan now l =
     l\<lparr>lk_pendingCommands := (\<lambda>k. case lk_pendingCommands l k of
        None \<Rightarrow> None
      | Some st \<Rightarrow>
          if cs_acknowledged st
          then (if now - cs_sentTime st > ACK_CLEANUP_SECONDS * 1000000000 then None else Some st)
          else (if now - cs_sentTime st > ACK_TIMEOUT_SECONDS * 1000000000 then None else Some st))\<rparr>"

section \<open>A decision request\<close>

definition ai_trust_step :: "SensorData \<Rightarrow> bool \<times> AtlFaults \<Rightarrow> bool \<times> AtlFaults" where
  "ai_trust_step sd = (\<lambda>(latchEntered, f).
     (if fe_status (sd_event sd) = STALE then (latchEntered, f)
      else if fe_type (sd_event sd) = AI_PIPELINE_INVALID then
        (let (e, f) = markAiPipelineInvalidLatched f in (e \<or> latchEntered, f))
      else if fe_type (sd_event sd) = AI_PIPELINE_VALID then (latchEntered, clearAiPipelineInvalidActive f)
      else (latchEntered, f)))"

definition updateAiPipelineTrustFromDecisionRequest ::
  "DecisionRequest \<Rightarrow> AtlFaults \<Rightarrow> bool \<times> AtlFaults" where
  "updateAiPipelineTrustFromDecisionRequest request f = fold ai_trust_step (populated request) (False, f)"

definition tracked_sources :: "nat list" where
  "tracked_sources = [kPssSubMonitorLost, kPssSubPerceptionMonitorLost, kPssSubMdxLost]"

text \<open>The first loop of \<open>applySourcePresence\<close>: clears, and collects the causes entered.\<close>

definition presence_clear :: "SdmPssSubCauseDelta \<Rightarrow> nat \<Rightarrow> nat list \<times> AtlFaults \<Rightarrow> nat list \<times> AtlFaults" where
  "presence_clear d cause = (\<lambda>(entered, f).
     (let f = (if bit (cleared d) cause then clearPssSubCause cause f else f) in
      if bit (raised d) cause \<and> \<not> fl_pssSubCauseActive f cause then (entered @ [cause], f)
      else (entered, f)))"

definition applySourcePresence :: "AtlEnv \<Rightarrow> DecisionRequest \<Rightarrow> AtlState \<Rightarrow> AtlState" where
  "applySourcePresence env request s =
     (let (d, seen) = SdmSourcePresenceEvaluate (Some (in_sourcePresenceSeen (at_input s))) (Some request);
          s = s\<lparr>at_input := (at_input s)\<lparr>in_sourcePresenceSeen := the seen\<rparr>\<rparr>;
          (entered, f) = fold (presence_clear d) tracked_sources ([], at_faults s)
      in if entered = [] then s\<lparr>at_faults := f\<rparr>
         else s\<lparr>at_faults := fold markPssSubCause entered f,
                at_link := sendLatchedSafeHold env (at_link s)\<rparr>)"

definition applySourceInputState :: "AtlEnv \<Rightarrow> DecisionRequest \<Rightarrow> AtlState \<Rightarrow> AtlState" where
  "applySourceInputState env request s =
     (let (d, seen) = SdmSourceInputStateEvaluate (Some (in_sourceInputUnusableSeen (at_input s))) (Some request);
          s = s\<lparr>at_input := (at_input s)\<lparr>in_sourceInputUnusableSeen := the seen\<rparr>\<rparr>;
          f = (if cleared d AND SDM_PSS_SUB_INPUT_UNUSABLE \<noteq> 0
               then clearPssSubCause kPssSubInputUnusable (at_faults s) else at_faults s);
          s = s\<lparr>at_faults := f\<rparr>
      in if raised d AND SDM_PSS_SUB_INPUT_UNUSABLE = 0 \<or> fl_pssSubCauseActive f kPssSubInputUnusable then s
         else s\<lparr>at_faults := markPssSubCause kPssSubInputUnusable f,
                at_link := sendLatchedSafeHold env (at_link s)\<rparr>)"

text \<open>The SW_FAIL loop: entry \<open>i\<close> on, the bits raised and the ids remembered.\<close>

fun sw_fail_loop :: "nat \<Rightarrow> SensorData list \<Rightarrow> u32 \<Rightarrow> u32 list \<Rightarrow> u32 \<times> u32 list" where
  "sw_fail_loop i [] bits ids = (bits, ids)"
| "sw_fail_loop i (sd # sds) bits ids =
     (let ev = sd_event sd in
      if fe_type ev \<noteq> SW_FAIL then sw_fail_loop (Suc i) sds bits ids
      else if fe_status ev = STALE then sw_fail_loop (Suc i) sds bits ids
      else if fe_id ev = ids ! i then sw_fail_loop (Suc i) sds bits ids
      else sw_fail_loop (Suc i) sds (bits OR ucast (SdmSwFailSubCause ev)) (ids[i := fe_id ev]))"

definition applySwFailEvents :: "AtlEnv \<Rightarrow> DecisionRequest \<Rightarrow> AtlState \<Rightarrow> bool \<times> AtlState" where
  "applySwFailEvents env request s =
     (let (bits, ids) = sw_fail_loop 0 (populated request) 0 (in_lastEventId (at_input s));
          s = s\<lparr>at_input := (at_input s)\<lparr>in_lastEventId := ids\<rparr>\<rparr>
      in if bits = 0 then (False, s)
         else (True, s\<lparr>at_faults :=
                  fold (\<lambda>c f. if bit bits c then markPssSubCause c f else f) [0..<kPssSubCauseCount]
                    (at_faults s),
                at_link := sendLatchedSafeHold env (at_link s)\<rparr>))"

definition safetyRelevantSensorBit :: "AtlCfg \<Rightarrow> u32 \<Rightarrow> u32" where
  "safetyRelevantSensorBit cfg pipelineId =
     (if pipelineId = 0 \<or> pipelineId > kReviewedSensorMaxPipelineId then 0
      else if list_ex (\<lambda>i. pipelineId = ucast i) (cf_reviewedIds cfg)
      then push_bit (unat (pipelineId - 1)) 1 else 0)"

text \<open>
  One entry of the sensor-health loop (built with AVOID_SAFETY_LATCH_FOR_SAIM_INIT, the default):
  \<open>None\<close> when the failed bit stays as it is, else whether the sensor has failed.
\<close>

definition sensor_verdict :: "u32 \<Rightarrow> SensorData \<Rightarrow> AtlFaults \<Rightarrow> bool option \<times> AtlFaults" where
  "sensor_verdict b sd f =
     (let et = fe_type (sd_event sd) in
      if et = SENSOR_INVALID \<or> \<not> sd_isHealthy sd then
        (if fe_cause (sd_event sd) = CAUSE_SAIM_INIT then
           (None, if et = SENSOR_INVALID
                  then f\<lparr>fl_saimInitPendingSensorMask := fl_saimInitPendingSensorMask f OR b\<rparr> else f)
         else if et \<noteq> SENSOR_INVALID \<and> fl_saimInitPendingSensorMask f AND b \<noteq> 0 then (None, f)
         else (Some True, f))
      else if et = SENSOR_VALID \<or> (sd_isHealthy sd \<and> sd_isTrustedSource sd) then
        (Some False, f\<lparr>fl_saimInitPendingSensorMask := fl_saimInitPendingSensorMask f AND NOT b\<rparr>)
      else (None, f))"

definition sensor_health_step ::
  "AtlCfg \<Rightarrow> SensorData \<Rightarrow> bool \<times> u32 \<times> AtlFaults \<Rightarrow> bool \<times> u32 \<times> AtlFaults" where
  "sensor_health_step cfg sd = (\<lambda>(latchEntered, warned, f).
     (if fe_status (sd_event sd) = STALE then (latchEntered, warned, f)
      else if fe_type (sd_event sd) = PSS_STATUS_NOOP then (latchEntered, warned, f)
      else
        (let pipelineId = ucast (fm_pipelineID (fe_fusionMetadata (sd_event sd))) :: u32;
             b = safetyRelevantSensorBit cfg pipelineId
         in if b = 0 then (latchEntered, snd (shouldWarnUnreviewedSensor warned pipelineId), f)
            else
              (case sensor_verdict b sd f of
                 (None, f) \<Rightarrow> (latchEntered, warned, f)
               | (Some failed, f) \<Rightarrow>
                   (let (newMask, f) = updateSafetyRelevantSensorFailedBit b failed f in
                    if newMask AND cf_reviewedMask cfg = cf_reviewedMask cfg then
                      (let (e, f) = markAllSafetyRelevantSensorsFailedLatched f in (e \<or> latchEntered, warned, f))
                    else (latchEntered, warned,
                          clearAllSafetyRelevantSensorsFailedActiveIfRecovered cfg newMask f))))))"

definition updateSensorHealthFromDecisionRequest ::
  "AtlCfg \<Rightarrow> DecisionRequest \<Rightarrow> AtlState \<Rightarrow> bool \<times> AtlState" where
  "updateSensorHealthFromDecisionRequest cfg request s =
     (let (latchEntered, warned, f) =
            fold (sensor_health_step cfg) (populated request)
              (False, in_unreviewedSensorWarned (at_input s), at_faults s)
      in (latchEntered, s\<lparr>at_faults := f, at_input := (at_input s)\<lparr>in_unreviewedSensorWarned := warned\<rparr>\<rparr>))"

text \<open>One physical situation: (state changed, latch entered, physical state, faults).\<close>

definition PERSONS_IN_TRAILER_MAX :: int where "PERSONS_IN_TRAILER_MAX = 10000"

definition physical_event ::
  "AtlCfg \<Rightarrow> SensorData \<Rightarrow> bool \<times> bool \<times> AtlPhysical \<times> AtlFaults \<Rightarrow> bool \<times> bool \<times> AtlPhysical \<times> AtlFaults"
where
  "physical_event cfg sd = (\<lambda>(stateChanged, latchEntered, p, f).
     (let et = fe_type (sd_event sd);
          drift = (let (e, f) = markCountDriftFaultLatched f in (True, e \<or> latchEntered, p, f))
      in if et = cf_forkliftEntered cfg
         then (True, latchEntered, (updateLastForkliftRecordLocked sd p)\<lparr>ph_forkliftInTrailer := True\<rparr>, f)
         else if et = cf_forkliftExited cfg
         then (True, latchEntered, (updateLastForkliftRecordLocked sd p)\<lparr>ph_forkliftInTrailer := False\<rparr>, f)
         else if et = cf_personEntered cfg
         then (if ph_personsInTrailerCount p < PERSONS_IN_TRAILER_MAX
               then (True, latchEntered, p\<lparr>ph_personsInTrailerCount := ph_personsInTrailerCount p + 1\<rparr>, f)
               else drift)
         else if et = cf_personExited cfg
         then (if ph_personsInTrailerCount p > 0
               then (True, latchEntered, p\<lparr>ph_personsInTrailerCount := ph_personsInTrailerCount p - 1\<rparr>, f)
               else drift)
         else if et = cf_roiViolation cfg
         then (True, latchEntered, p\<lparr>ph_restrictedAreaViolationByPerson := True\<rparr>, f)
         else if et = cf_roiCleared cfg
         then (True, latchEntered, p\<lparr>ph_restrictedAreaViolationByPerson := False\<rparr>, f)
         else (stateChanged, latchEntered, p, f)))"

fun event_loop ::
  "AtlCfg \<Rightarrow> nat \<Rightarrow> SensorData list \<Rightarrow> u32 list \<Rightarrow> bool \<times> bool \<times> AtlPhysical \<times> AtlFaults \<Rightarrow>
   u32 list \<times> bool \<times> bool \<times> AtlPhysical \<times> AtlFaults"
where
  "event_loop cfg i [] ids st = (ids, st)"
| "event_loop cfg i (sd # sds) ids st =
     (let ev = sd_event sd; et = fe_type ev in
      if fe_status ev = STALE then event_loop cfg (Suc i) sds ids st
      else if fe_id ev = ids ! i then event_loop cfg (Suc i) sds ids st
      else
        (let ids = ids[i := fe_id ev] in
         if et = SENSOR_INVALID \<or> et = SENSOR_VALID then event_loop cfg (Suc i) sds ids st
         else if et = AI_PIPELINE_INVALID \<or> et = AI_PIPELINE_VALID then event_loop cfg (Suc i) sds ids st
         else if \<not> sd_isHealthy sd then event_loop cfg (Suc i) sds ids st
         else if \<not> sd_isTrustedSource sd then event_loop cfg (Suc i) sds ids st
         else event_loop cfg (Suc i) sds ids (physical_event cfg sd st)))"

text \<open>
  The stages of \<open>processDecisionRequestLocked\<close>: what every request does before the mode is looked
  at, the ERROR branch, the physical events, and the normal branch around them.
\<close>

definition request_evidence :: "AtlCfg \<Rightarrow> AtlEnv \<Rightarrow> DecisionRequest \<Rightarrow> AtlState \<Rightarrow> bool \<times> AtlState" where
  "request_evidence cfg env request s =
     (let (aiEntered, f) = updateAiPipelineTrustFromDecisionRequest request (at_faults s);
          s = s\<lparr>at_faults := f\<rparr>;
          s = (if aiEntered
               then s\<lparr>at_link := sendPhysicalEventSafeHold env (snapshotLastForkliftRecord (at_phys s)) (at_link s)\<rparr>
               else s);
          s = applySourcePresence env request s;
          s = applySourceInputState env request s
      in updateSensorHealthFromDecisionRequest cfg request s)"

definition request_error_mode :: "AtlEnv \<Rightarrow> DecisionRequest \<Rightarrow> AtlState \<Rightarrow> AtlState" where
  "request_error_mode env request s =
     (let s = s\<lparr>at_faults := (at_faults s)\<lparr>fl_pssErrorFusionSuppressLatched := True\<rparr>\<rparr>;
          (_, s) = applySwFailEvents env request s
      in s\<lparr>at_faults := markPssSubCause kPssSubModeError (at_faults s),
           at_link := sendLatchedSafeHold env (at_link s)\<rparr>)"

definition request_events ::
  "AtlCfg \<Rightarrow> AtlEnv \<Rightarrow> WatchdogMark list \<Rightarrow> DecisionRequest \<Rightarrow> AtlState \<Rightarrow> AtlState" where
  "request_events cfg env marks request s =
     (let (ids, stateChanged, latchEntered, p, f) =
            event_loop cfg 0 (populated request) (in_lastEventId (at_input s))
              (False, False, at_phys s, at_faults s);
          s = s\<lparr>at_input := (at_input s)\<lparr>in_lastEventId := ids\<rparr>, at_phys := p, at_faults := f\<rparr>
      in if latchEntered
         then s\<lparr>at_link := sendPhysicalEventSafeHold env (snapshotLastForkliftRecord p) (at_link s)\<rparr>
         else if safeStateLatched f then s
         else if stateChanged then evaluateATLDecision cfg env marks s
         else s)"

text \<open>A request that is not a lone no-op, with PSS not in ERROR.\<close>

definition request_physical ::
  "AtlCfg \<Rightarrow> AtlEnv \<Rightarrow> WatchdogMark list \<Rightarrow> DecisionRequest \<Rightarrow> bool \<Rightarrow> AtlState \<Rightarrow> AtlState" where
  "request_physical cfg env marks request sensorLatchEntered s =
     (let s = (if SdmDecisionRequestClearsPssSwFail (Some request)
               then s\<lparr>at_faults := clearPssSubCause kPssSubGatewayComm
                                   (clearPssSubCause kPssSubSwFail (at_faults s))\<rparr> else s);
          (applied, s) = applySwFailEvents env request s
      in if applied then s
         else if sensorLatchEntered then s\<lparr>at_link := sendLatchedSafeHold env (at_link s)\<rparr>
         else request_events cfg env marks request s)"

definition request_normal_mode ::
  "AtlCfg \<Rightarrow> AtlEnv \<Rightarrow> WatchdogMark list \<Rightarrow> DecisionRequest \<Rightarrow> bool \<Rightarrow> AtlState \<Rightarrow> AtlState" where
  "request_normal_mode cfg env marks request sensorLatchEntered s =
     (let s = (if SdmDecisionRequestClearsPssModeError (Some request)
               then s\<lparr>at_faults := clearPssSubCause kPssSubModeError (at_faults s)\<rparr> else s)
      in if min (unat (dr_sensorDataSummarySize request)) MAX_SENSORS_DATA_SUMMARY_SIZE = 1 \<and>
            fe_type (dr_event0 request) = PSS_STATUS_NOOP then
           (if SdmDecisionRequestIsGatewayCommRecovered (Some request)
            then s\<lparr>at_faults := clearPssSubCause kPssSubGatewayComm (at_faults s)\<rparr> else s)
         else request_physical cfg env marks request sensorLatchEntered s)"

definition processDecisionRequestLocked ::
  "AtlCfg \<Rightarrow> AtlEnv \<Rightarrow> WatchdogMark list \<Rightarrow> DecisionRequest \<Rightarrow> AtlState \<Rightarrow> AtlState" where
  "processDecisionRequestLocked cfg env marks request s =
     (let (sensorLatchEntered, s) = request_evidence cfg env request s in
      if dr_mode request = ERROR then request_error_mode env request s
      else request_normal_mode cfg env marks request sensorLatchEntered s)"

section \<open>The gateway link\<close>

definition markDecisionRequestFresh :: "int \<Rightarrow> AtlState \<Rightarrow> AtlState" where
  "markDecisionRequestFresh now s =
     s\<lparr>at_input := (at_input s)\<lparr>in_lastValidDecisionRequestTime := now\<rparr>,
       at_faults := (at_faults s)\<lparr>fl_decisionFreshnessFaultActive := False\<rparr>\<rparr>"

text \<open>A packet of the size of \<open>NvPSDGatewayDecisionRequestPacket\<close>.\<close>

definition gateway_packet ::
  "AtlCfg \<Rightarrow> AtlEnv \<Rightarrow> WatchdogMark list \<Rightarrow> NvPSDGatewayDecisionRequestPacket \<Rightarrow> AtlState \<Rightarrow> AtlState" where
  "gateway_packet cfg env marks packet s =
     (if \<not> NvPSDGatewayDecisionPacketHeaderIsValid (Some packet) then s
      else if validateDecisionRequest (Some (pk_request packet)) \<noteq> PSS_VALID then s
      else
        (let (seqResult, q) = sdmGatewayDecisionSequenceObserve
                                (Some (in_gatewayDecisionSequenceState (at_input s)))
                                (pk_gatewayEpoch packet) (pk_gatewayTxSeq packet);
             s = s\<lparr>at_input := (at_input s)\<lparr>in_gatewayDecisionSequenceState := the q\<rparr>\<rparr>
         in if seqResult = SDM_GATEWAY_DECISION_SEQUENCE_DUPLICATE_OR_STALE then s
            else if seqResult = SDM_GATEWAY_DECISION_SEQUENCE_INVALID then s
            else
              (let s = (if seqResult = SDM_GATEWAY_DECISION_SEQUENCE_GAP then
                          (let (entered, f) = markGatewayDecisionSequenceFaultLatched (at_faults s);
                               s = s\<lparr>at_faults := f\<rparr>
                           in if entered then s\<lparr>at_link := sendLatchedSafeHold env (at_link s)\<rparr> else s)
                        else s\<lparr>at_faults := markGatewayDecisionSequenceRecovered (at_faults s)\<rparr>)
               in processDecisionRequestLocked cfg env marks (pk_request packet)
                    (markDecisionRequestFresh (en_now env) s))))"

text \<open>A heartbeat of the gateway arms the watchdog anew.\<close>

definition gateway_heartbeat :: "AtlEnv \<Rightarrow> AtlState \<Rightarrow> AtlState" where
  "gateway_heartbeat env s = s\<lparr>at_input := (at_input s)\<lparr>in_hbLastRecvTime := en_now env\<rparr>\<rparr>"

definition heartbeatTransmitter :: "AtlEnv \<Rightarrow> AtlState \<Rightarrow> AtlState" where
  "heartbeatTransmitter env s = s\<lparr>at_link := snd (sendDecisionCommand env CMD_HEARTBEAT True None (at_link s))\<rparr>"

section \<open>Launch\<close>

definition resetSafeStateFaultsForLaunch :: "AtlState \<Rightarrow> AtlState" where
  "resetSafeStateFaultsForLaunch s =
     s\<lparr>at_faults := (at_faults s)\<lparr>fl_hbFaultLatched := False, fl_pssErrorFusionSuppressLatched := False,
         fl_pssSubCauseActive := (\<lambda>i. if i < kPssSubCauseCount then False else fl_pssSubCauseActive (at_faults s) i),
         fl_decisionFreshnessFaultActive := False,
         fl_gatewayDecisionSequenceFaultActive := False, fl_failedSafetyRelevantSensorMask := 0,
         fl_saimInitPendingSensorMask := 0, fl_allSafetyRelevantSensorsFailedActive := False,
         fl_safeStateLatchCauses := 0\<rparr>,
       at_input := (at_input s)\<lparr>in_gatewayDecisionSequenceState :=
         the (sdmGatewayDecisionSequenceReset (Some (in_gatewayDecisionSequenceState (at_input s))))\<rparr>\<rparr>"

definition launch_reset :: "AtlEnv \<Rightarrow> AtlState \<Rightarrow> AtlState" where
  "launch_reset env s =
     (let s = s\<lparr>at_input := (at_input s)\<lparr>in_hbLastRecvTime := en_now env,
                 in_lastValidDecisionRequestTime := en_now env\<rparr>\<rparr>;
          s = resetSafeStateFaultsForLaunch s
      in s\<lparr>at_phys := resetLastForkliftRecordLocked (at_phys s),
           at_faults := (at_faults s)\<lparr>fl_lastGatewayHbMissCount := 0\<rparr>,
           at_input := (at_input s)\<lparr>in_lastSafeReleaseRequestTime := None,
             in_regrTier2AttemptsRemaining := 0, in_prevMiss := 0\<rparr>\<rparr>)"

text \<open>The static initialisers of the process.\<close>

definition EVENT_ID_UNSEEN :: u32 where "EVENT_ID_UNSEEN = 0xFFFFFFFF"

definition atl_static :: AtlState where
  "atl_static =
     \<lparr>at_faults = \<lparr>fl_hbFaultLatched = False, fl_lastGatewayHbMissCount = 0,
        fl_pssErrorFusionSuppressLatched = False, fl_pssSubCauseActive = (\<lambda>_. False),
        fl_decisionFreshnessFaultActive = False, fl_gatewayDecisionSequenceFaultActive = False,
        fl_failedSafetyRelevantSensorMask = 0, fl_saimInitPendingSensorMask = 0,
        fl_allSafetyRelevantSensorsFailedActive = False, fl_aiPipelineInvalidActive = False,
        fl_safeStateLatchCauses = 0\<rparr>,
      at_input = \<lparr>in_lastEventId = replicate MAX_SENSORS_DATA_SUMMARY_SIZE EVENT_ID_UNSEEN,
        in_unreviewedSensorWarned = 0, in_sourcePresenceSeen = 0, in_sourceInputUnusableSeen = 0,
        in_gatewayDecisionSequenceState = sdm_sequence_initial, in_hbLastRecvTime = 0,
        in_lastValidDecisionRequestTime = 0, in_lastSafeReleaseRequestTime = None, in_prevMiss = 0,
        in_regrTier2AttemptsRemaining = 0\<rparr>,
      at_phys = \<lparr>ph_forkliftInTrailer = False, ph_personsInTrailerCount = 0,
        ph_restrictedAreaViolationByPerson = False, ph_lastForkliftRecord = zero_object_record,
        ph_lastForkliftRecordValid = False\<rparr>,
      at_link = \<lparr>lk_cmdSeqNo = 0, lk_pendingCommands = (\<lambda>_. None), lk_out = []\<rparr>\<rparr>"

text \<open>The event binding, in the order of the configuration: six distinct physical codes.\<close>

definition ATL_EVENT_COUNT :: nat where "ATL_EVENT_COUNT = 6"

fun bindings_distinct :: "EventType list \<Rightarrow> bool" where
  "bindings_distinct [] = True"
| "bindings_distinct (e # es) = (e \<le> EVENT_23 \<and> e \<notin> set es \<and> bindings_distinct es)"

definition atlSetSubscribedEvents :: "bool \<Rightarrow> EventType list option \<Rightarrow> string option \<Rightarrow> AtlCfg \<Rightarrow> AtlCfg option" where
  "atlSetSubscribedEvents frozen events source cfg =
     (case (events, source) of
        (Some es, Some src) \<Rightarrow>
          if frozen \<or> length es \<noteq> ATL_EVENT_COUNT \<or> src = [] \<or> \<not> bindings_distinct es then None
          else Some (cfg\<lparr>cf_forkliftEntered := es ! 0, cf_forkliftExited := es ! 1,
                         cf_personEntered := es ! 2, cf_personExited := es ! 3,
                         cf_roiViolation := es ! 4, cf_roiCleared := es ! 5\<rparr>)
      | _ \<Rightarrow> None)"

definition atlSubscribedEvents :: "AtlCfg \<Rightarrow> EventType list" where
  "atlSubscribedEvents cfg =
     [cf_forkliftEntered cfg, cf_forkliftExited cfg, cf_personEntered cfg, cf_personExited cfg,
      cf_roiViolation cfg, cf_roiCleared cfg, SW_FAIL]"

text \<open>The registration message and one attempt to send it.\<close>

definition registration_message :: "AtlCfg \<Rightarrow> byte list" where
  "registration_message cfg = regr_message (atlSubscribedEvents cfg)"

section \<open>Steps\<close>

text \<open>Everything that can happen to the process after launch.\<close>

datatype AtlEvent =
    GatewayPacket "WatchdogMark list" NvPSDGatewayDecisionRequestPacket
  | GatewayHeartbeat
  | PlcPacket "WatchdogMark list" bool CmdPacket
  | AckScan int
  | FreshnessTick
  | HeartbeatTick
  | PeriodicDecision "WatchdogMark list"
  | HeartbeatToPlc

definition atl_step :: "AtlCfg \<Rightarrow> AtlEnv \<Rightarrow> AtlEvent \<Rightarrow> AtlState \<Rightarrow> AtlState" where
  "atl_step cfg env e s =
     (case e of
        GatewayPacket marks packet \<Rightarrow> gateway_packet cfg env marks packet s
      | GatewayHeartbeat \<Rightarrow> gateway_heartbeat env s
      | PlcPacket marks fromPlc pkt \<Rightarrow> plc_receive cfg env marks fromPlc pkt s
      | AckScan now \<Rightarrow> s\<lparr>at_link := ack_scan now (at_link s)\<rparr>
      | FreshnessTick \<Rightarrow> decisionFreshnessWatchdog cfg env s
      | HeartbeatTick \<Rightarrow> gatewayHeartbeatWatchdog cfg env s
      | PeriodicDecision marks \<Rightarrow> evaluateATLDecision cfg env marks s
      | HeartbeatToPlc \<Rightarrow> heartbeatTransmitter env s)"

inductive atl_reachable :: "AtlCfg \<Rightarrow> AtlState \<Rightarrow> bool" for cfg where
  launched: "atl_reachable cfg (launch_reset env atl_static)"
| stepped: "atl_reachable cfg s \<Longrightarrow> atl_reachable cfg (atl_step cfg env e s)"

end
