(* ===== verification/Atl_Invariants.thy ===== *)
theory Atl_Invariants
  imports Atl_Control
begin

text \<open>
  What every handler of the ATL decision maker keeps: the active causes are latched, the latch only
  loses a cause in an accepted release, and MUTE goes out only from a state in which it is allowed. The facts
  are built up operation by operation as relations between the state before and after
  (\<open>fault_step\<close> on the faults, \<open>quiet\<close> and \<open>guarded\<close> on the packets sent), which compose.
\<close>

section \<open>Relations between states\<close>

text \<open>
  \<open>faults_inv\<close> ties the active causes to the latch: output suppression is on exactly while a PSS
  sub-cause is active, and a cause that latches is latched while it is active.
\<close>

definition faults_safe :: "AtlFaults \<Rightarrow> bool" where
  "faults_safe f \<longleftrightarrow>
     (pssAnySubCauseActive f \<longrightarrow> fl_pssErrorFusionSuppressLatched f \<and> bit (fl_safeStateLatchCauses f) 1) \<and>
     (fl_hbFaultLatched f \<longrightarrow> bit (fl_safeStateLatchCauses f) 0) \<and>
     (fl_decisionFreshnessFaultActive f \<longrightarrow> bit (fl_safeStateLatchCauses f) 3) \<and>
     (fl_gatewayDecisionSequenceFaultActive f \<longrightarrow> bit (fl_safeStateLatchCauses f) 4) \<and>
     (fl_allSafetyRelevantSensorsFailedActive f \<longrightarrow> bit (fl_safeStateLatchCauses f) 5) \<and>
     (fl_aiPipelineInvalidActive f \<longrightarrow> bit (fl_safeStateLatchCauses f) 6)"

definition faults_inv :: "AtlFaults \<Rightarrow> bool" where
  "faults_inv f \<longleftrightarrow> faults_safe f \<and> (fl_pssErrorFusionSuppressLatched f \<longrightarrow> pssAnySubCauseActive f)"

definition keeps_latch :: "AtlFaults \<Rightarrow> AtlFaults \<Rightarrow> bool" where
  "keeps_latch f f' \<longleftrightarrow>
     fl_safeStateLatchCauses f AND fl_safeStateLatchCauses f' = fl_safeStateLatchCauses f"

text \<open>The link only grows by packets with a right CRC, none of which allows operation.\<close>

definition quiet :: "AtlLink \<Rightarrow> AtlLink \<Rightarrow> bool" where
  "quiet l l' \<longleftrightarrow> (\<exists>new. lk_out l' = lk_out l @ new \<and>
     (\<forall>p \<in> set new. cp_command p \<noteq> CMD_MUTE \<and> cmdPacketValidateCRC p))"

definition fault_step :: "AtlFaults \<Rightarrow> AtlFaults \<Rightarrow> bool" where
  "fault_step f f' \<longleftrightarrow>
     keeps_latch f f' \<and> (faults_safe f \<longrightarrow> faults_safe f') \<and> (faults_inv f \<longrightarrow> faults_inv f')"

section \<open>Latch bits\<close>

lemma latch_bits:
  "bit kSafeLatchGatewayHb n \<longleftrightarrow> n = 0"
  "bit kSafeLatchPss n \<longleftrightarrow> n = 1"
  "bit kSafeLatchCountDrift n \<longleftrightarrow> n = 2"
  "bit kSafeLatchDecisionFreshness n \<longleftrightarrow> n = 3"
  "bit kSafeLatchGatewayDecisionSequence n \<longleftrightarrow> n = 4"
  "bit kSafeLatchAllSafetyRelevantSensorsFailed n \<longleftrightarrow> n = 5"
  "bit kSafeLatchAiPipelineInvalid n \<longleftrightarrow> n = 6"
proof -
  have e: "bit (push_bit k 1 :: u32) n \<longleftrightarrow> n = k" if "k < 32" for k
    using that by (auto simp: bit_exp_iff)
  show "bit kSafeLatchGatewayHb n \<longleftrightarrow> n = 0" using e [of 0] by (simp only: kSafeLatchGatewayHb_def)
  show "bit kSafeLatchPss n \<longleftrightarrow> n = 1" using e [of 1] by (simp only: kSafeLatchPss_def)
  show "bit kSafeLatchCountDrift n \<longleftrightarrow> n = 2" using e [of 2] by (simp only: kSafeLatchCountDrift_def)
  show "bit kSafeLatchDecisionFreshness n \<longleftrightarrow> n = 3"
    using e [of 3] by (simp only: kSafeLatchDecisionFreshness_def)
  show "bit kSafeLatchGatewayDecisionSequence n \<longleftrightarrow> n = 4"
    using e [of 4] by (simp only: kSafeLatchGatewayDecisionSequence_def)
  show "bit kSafeLatchAllSafetyRelevantSensorsFailed n \<longleftrightarrow> n = 5"
    using e [of 5] by (simp only: kSafeLatchAllSafetyRelevantSensorsFailed_def)
  show "bit kSafeLatchAiPipelineInvalid n \<longleftrightarrow> n = 6"
    using e [of 6] by (simp only: kSafeLatchAiPipelineInvalid_def)
qed

lemma latch_fields [simp]:
  "fl_safeStateLatchCauses (latch c f) = fl_safeStateLatchCauses f OR c"
  "fl_hbFaultLatched (latch c f) = fl_hbFaultLatched f"
  "fl_lastGatewayHbMissCount (latch c f) = fl_lastGatewayHbMissCount f"
  "fl_pssErrorFusionSuppressLatched (latch c f) = fl_pssErrorFusionSuppressLatched f"
  "fl_pssSubCauseActive (latch c f) = fl_pssSubCauseActive f"
  "fl_decisionFreshnessFaultActive (latch c f) = fl_decisionFreshnessFaultActive f"
  "fl_gatewayDecisionSequenceFaultActive (latch c f) = fl_gatewayDecisionSequenceFaultActive f"
  "fl_failedSafetyRelevantSensorMask (latch c f) = fl_failedSafetyRelevantSensorMask f"
  "fl_saimInitPendingSensorMask (latch c f) = fl_saimInitPendingSensorMask f"
  "fl_allSafetyRelevantSensorsFailedActive (latch c f) = fl_allSafetyRelevantSensorsFailedActive f"
  "fl_aiPipelineInvalidActive (latch c f) = fl_aiPipelineInvalidActive f"
  by (simp_all add: latch_def)

lemma keeps_latch_bits: "keeps_latch f f' \<longleftrightarrow>
    (\<forall>n. bit (fl_safeStateLatchCauses f) n \<longrightarrow> bit (fl_safeStateLatchCauses f') n)"
  unfolding keeps_latch_def
proof
  assume e: "fl_safeStateLatchCauses f AND fl_safeStateLatchCauses f' = fl_safeStateLatchCauses f"
  show "\<forall>n. bit (fl_safeStateLatchCauses f) n \<longrightarrow> bit (fl_safeStateLatchCauses f') n"
    using arg_cong [OF e, of bit] by (metis bit_and_iff)
qed (auto intro!: bit_word_eqI simp: bit_and_iff)

lemma pssAny_iff: "pssAnySubCauseActive f \<longleftrightarrow> (\<exists>c<7. fl_pssSubCauseActive f c)"
  by (auto simp: pssAnySubCauseActive_def kPssSubCauseCount_def list_ex_iff)

lemma fault_step_refl [simp, intro]: "fault_step f f"
  by (simp add: fault_step_def keeps_latch_def)

lemma fault_step_trans [trans]: "fault_step f g \<Longrightarrow> fault_step g h \<Longrightarrow> fault_step f h"
  by (auto simp: fault_step_def keeps_latch_bits)

lemma fault_step_fold:
  "(\<And>x f. x \<in> set xs \<Longrightarrow> fault_step f (g x f)) \<Longrightarrow> fault_step f (fold g xs f)"
  by (induction xs arbitrary: f) (auto intro: fault_step_trans)

lemmas fault_step_defs = fault_step_def keeps_latch_bits faults_inv_def faults_safe_def pssAny_iff
  bit_or_iff latch_bits

section \<open>Primitive operations\<close>

lemma fault_step_markPss: "c < 7 \<Longrightarrow> fault_step f (markPssSubCause c f)"
  by (auto simp: markPssSubCause_def fault_step_defs)

lemma markPss_inv: "c < 7 \<Longrightarrow> faults_safe f \<Longrightarrow> faults_inv (markPssSubCause c f)"
  by (auto simp: markPssSubCause_def fault_step_defs)

lemma fault_step_clearPss: "fault_step f (clearPssSubCause c f)"
  by (auto simp: clearPssSubCause_def Let_def fault_step_defs split: if_splits)

lemma fault_step_marks:
  "fault_step f (snd (markAllSafetyRelevantSensorsFailedLatched f))"
  "fault_step f (snd (markCountDriftFaultLatched f))"
  "fault_step f (snd (markGatewayHbFaultLatched f))"
  "fault_step f (snd (markDecisionFreshnessFaultLatched f))"
  "fault_step f (snd (markGatewayDecisionSequenceFaultLatched f))"
  "fault_step f (snd (markAiPipelineInvalidLatched f))"
  by (auto simp: markAllSafetyRelevantSensorsFailedLatched_def markCountDriftFaultLatched_def
      markGatewayHbFaultLatched_def markDecisionFreshnessFaultLatched_def
      markGatewayDecisionSequenceFaultLatched_def markAiPipelineInvalidLatched_def fault_step_defs)

lemma fault_step_clears:
  "fault_step f (clearAllSafetyRelevantSensorsFailedActiveIfRecovered cfg m f)"
  "fault_step f (clearGatewayHbFaultActive f)"
  "fault_step f (markGatewayDecisionSequenceRecovered f)"
  "fault_step f (clearAiPipelineInvalidActive f)"
  "fault_step f (f\<lparr>fl_decisionFreshnessFaultActive := False\<rparr>)"
  by (auto simp: clearAllSafetyRelevantSensorsFailedActiveIfRecovered_def clearGatewayHbFaultActive_def
      markGatewayDecisionSequenceRecovered_def clearAiPipelineInvalidActive_def fault_step_defs)

lemma fault_step_frame:
  "fault_step f (f\<lparr>fl_lastGatewayHbMissCount := m\<rparr>)"
  "fault_step f (snd (updateSafetyRelevantSensorFailedBit b failed f))"
  "fault_step f (snd (sensor_verdict b sd f))"
  by (auto simp: updateSafetyRelevantSensorFailedBit_def sensor_verdict_def Let_def fault_step_defs)


section \<open>Watchdog marks\<close>

lemma fault_step_freshness_mark: "fault_step f (snd (freshness_mark cfg now i f))"
  by (auto simp: freshness_mark_def Let_def intro: fault_step_marks)

lemma fault_step_heartbeat_mark: "fault_step f (heartbeat_mark cfg now i f)"
  unfolding heartbeat_mark_def Let_def
  by (auto intro: fault_step_frame fault_step_clears fault_step_trans [OF fault_step_frame(1)])

lemma fault_step_watchdog_mark: "fault_step f (watchdog_mark cfg i w f)"
  by (cases w) (auto simp: watchdog_mark_def Let_def intro: fault_step_freshness_mark
      fault_step_heartbeat_mark fault_step_trans [OF fault_step_heartbeat_mark fault_step_marks(3)])

lemma fault_step_watchdog_marks: "fault_step f (fold (watchdog_mark cfg i) ws f)"
  by (rule fault_step_fold) (rule fault_step_watchdog_mark)

section \<open>Sends\<close>

lemma quiet_refl [simp, intro]: "quiet l l"
  by (simp add: quiet_def)

lemma quiet_trans [trans]: "quiet l m \<Longrightarrow> quiet m n \<Longrightarrow> quiet l n"
  unfolding quiet_def by (metis (no_types, lifting) Un_iff append_assoc set_append)

lemma send_packet:
  "lk_out (snd (sendDecisionCommandInternal env command track data obj l)) =
     (if en_sendto env (lk_cmdSeqNo l)
      then lk_out l @ [cmd_packet_seal
        \<lparr>cp_identifier = ATL_PACKET_IDENTIFIER, cp_seq = ucast (lk_cmdSeqNo l), cp_command = command,
         cp_ts_seconds = fst (getCurrentUTCTimeForPacket (en_sysNow env (lk_cmdSeqNo l))),
         cp_ts_microseconds = snd (getCurrentUTCTimeForPacket (en_sysNow env (lk_cmdSeqNo l))),
         cp_crc32 = 0, cp_objects = fillObjectRecords data obj\<rparr>]
      else lk_out l)"
  by (simp add: sendDecisionCommandInternal_def Let_def case_prod_beta cmd_packet_seal_def)

lemma send_result [simp]:
  "fst (sendDecisionCommandInternal env command track data obj l) = en_sendto env (lk_cmdSeqNo l)"
  "lk_cmdSeqNo (snd (sendDecisionCommandInternal env command track data obj l)) = lk_cmdSeqNo l + 1"
  by (simp_all add: sendDecisionCommandInternal_def Let_def case_prod_beta)

lemma quiet_send: "command \<noteq> CMD_MUTE \<Longrightarrow> quiet l (snd (sendDecisionCommandInternal env command track data obj l))"
  using cmd.seal_verifies by (auto simp: quiet_def send_packet) (simp add: cmd_packet_seal_def)

lemma not_mute_commands [simp]:
  "CMD_UNMUTE \<noteq> CMD_MUTE" "CMD_SW_ERROR \<noteq> CMD_MUTE" "CMD_HEARTBEAT \<noteq> CMD_MUTE"
  "CMD_SAFE_RELEASE_ACK \<noteq> CMD_MUTE" "CMD_SAFE_RELEASE_DENIED \<noteq> CMD_MUTE"
  by (simp_all add: atl_ops)

lemma sendLatchedSafeHold_eq:
  "sendLatchedSafeHold env l =
     snd (sendDecisionCommand env CMD_SW_ERROR True None (snd (sendDecisionCommand env CMD_UNMUTE True None l)))"
  by (simp add: sendLatchedSafeHold_def Let_def case_prod_beta)

lemma quiet_hold: "quiet l (sendLatchedSafeHold env l)"
  unfolding sendLatchedSafeHold_eq sendDecisionCommand_def
  by (rule quiet_trans [OF quiet_send quiet_send]) simp_all

lemma quiet_physical_hold: "quiet l (sendPhysicalEventSafeHold env obj l)"
  unfolding sendPhysicalEventSafeHold_def Let_def case_prod_beta sendDecisionCommandWithObject1_def
  by (rule quiet_trans [OF quiet_send quiet_send]) simp_all

section \<open>Steps of a request\<close>

text \<open>What every part of the handlers does to the whole state, the decision itself apart.\<close>

definition safe_step :: "AtlState \<Rightarrow> AtlState \<Rightarrow> bool" where
  "safe_step s s' \<longleftrightarrow> fault_step (at_faults s) (at_faults s') \<and> quiet (at_link s) (at_link s')"

lemma safe_step_refl [simp, intro]: "safe_step s s"
  by (simp add: safe_step_def)

lemma safe_step_trans [trans]: "safe_step s t \<Longrightarrow> safe_step t u \<Longrightarrow> safe_step s u"
  by (auto simp: safe_step_def intro: fault_step_trans quiet_trans)

lemma fault_step_ai_trust: "fault_step f (snd (fold ai_trust_step sds (b, f)))"
proof (induction sds arbitrary: b f)
  case (Cons sd sds)
  obtain b' f' where st: "ai_trust_step sd (b, f) = (b', f')" by fastforce
  then have "fault_step f f'"
    using fault_step_marks(6) [of f] fault_step_clears(4) [of f]
    by (auto simp: ai_trust_step_def case_prod_beta split: if_splits)
  then show ?case using Cons [of f' b'] st by (auto intro: fault_step_trans)
qed simp

lemma fault_step_presence_clear: "fault_step f (snd (fold (presence_clear d) cs (es, f)))"
proof (induction cs arbitrary: es f)
  case (Cons c cs)
  obtain es' f' where st: "presence_clear d c (es, f) = (es', f')" by fastforce
  then have "fault_step f f'"
    using fault_step_clearPss [of f c] by (auto simp: presence_clear_def Let_def split: if_splits)
  then show ?case using Cons [of f' es'] st by (auto intro: fault_step_trans)
qed simp

lemma presence_clear_entered: "set (fst (fold (presence_clear d) cs (es, f))) \<subseteq> set es \<union> set cs"
proof (induction cs arbitrary: es f)
  case (Cons c cs)
  obtain es' f' where st: "presence_clear d c (es, f) = (es', f')" by fastforce
  then have "set es' \<subseteq> set es \<union> {c}"
    by (auto simp: presence_clear_def Let_def split: if_splits)
  then show ?case using Cons [of es' f'] st by auto
qed simp

lemma safe_step_presence: "safe_step s (applySourcePresence env request s)"
proof -
  let ?d = "fst (SdmSourcePresenceEvaluate (Some (in_sourcePresenceSeen (at_input s))) (Some request))"
  obtain es f where st: "fold (presence_clear ?d) tracked_sources ([], at_faults s) = (es, f)" by fastforce
  have f: "fault_step (at_faults s) f" using fault_step_presence_clear [of "at_faults s" ?d tracked_sources "[]"] st by simp
  have "set es \<subseteq> set tracked_sources" using presence_clear_entered [of ?d tracked_sources "[]" "at_faults s"] st by simp
  then have "\<forall>c\<in>set es. c < 7" by (auto simp: tracked_sources_def pss_enum)
  then have "fault_step f (fold markPssSubCause es f)" by (intro fault_step_fold fault_step_markPss) auto
  then show ?thesis
    using f st quiet_hold by (auto simp: applySourcePresence_def case_prod_beta Let_def safe_step_def
        intro: fault_step_trans)
qed

lemma safe_step_input_state: "safe_step s (applySourceInputState env request s)"
proof -
  have "fault_step (at_faults s) (markPssSubCause kPssSubInputUnusable (at_faults s))"
    "fault_step (clearPssSubCause kPssSubInputUnusable (at_faults s))
      (markPssSubCause kPssSubInputUnusable (clearPssSubCause kPssSubInputUnusable (at_faults s)))"
    by (rule fault_step_markPss, simp add: pss_enum)+
  then show ?thesis
    using fault_step_clearPss [of "at_faults s"] quiet_hold
    by (auto simp: applySourceInputState_def case_prod_beta Let_def safe_step_def intro: fault_step_trans)
qed


lemma fault_step_mark_bits:
  "fault_step f (fold (\<lambda>c f. if bit w c then markPssSubCause c f else f) [0..<kPssSubCauseCount] f)"
  by (rule fault_step_fold) (auto simp: kPssSubCauseCount_def intro: fault_step_markPss)

lemma safe_step_sw_fail: "safe_step s (snd (applySwFailEvents env request s))"
  by (simp add: applySwFailEvents_def case_prod_beta Let_def safe_step_def fault_step_mark_bits quiet_hold)

lemma fault_step_sensor_health:
  "fault_step f (snd (snd (fold (sensor_health_step cfg) sds (b, w, f))))"
proof (induction sds arbitrary: b w f)
  case (Cons sd sds)
  obtain b' w' f' where st: "sensor_health_step cfg sd (b, w, f) = (b', w', f')" by (metis prod_cases3)
  have upd: "fault_step f (snd (updateSafetyRelevantSensorFailedBit x y (snd (sensor_verdict x sd f))))" for x y
    by (rule fault_step_trans [OF fault_step_frame(3) fault_step_frame(2)])
  have "fault_step f f'"
    using st fault_step_frame(3) [of f _ sd] fault_step_trans [OF upd fault_step_marks(1)]
      fault_step_trans [OF upd fault_step_clears(1)]
    by (auto simp: sensor_health_step_def case_prod_beta Let_def split: if_splits option.splits)
  then show ?case using Cons [of f' b' w'] st by (auto intro: fault_step_trans)
qed simp

lemma safe_step_sensor_health: "safe_step s (snd (updateSensorHealthFromDecisionRequest cfg request s))"
  using fault_step_sensor_health
  by (simp add: updateSensorHealthFromDecisionRequest_def case_prod_beta Let_def safe_step_def)

lemma safe_step_evidence: "safe_step s (snd (request_evidence cfg env request s))"
proof -
  let ?f = "snd (updateAiPipelineTrustFromDecisionRequest request (at_faults s))"
  have "fault_step (at_faults s) ?f"
    using fault_step_ai_trust by (simp add: updateAiPipelineTrustFromDecisionRequest_def)
  then have "safe_step s (s\<lparr>at_faults := ?f\<rparr>)"
    "safe_step s (s\<lparr>at_faults := ?f,
       at_link := sendPhysicalEventSafeHold env (snapshotLastForkliftRecord (at_phys s)) (at_link s)\<rparr>)"
    using quiet_physical_hold by (auto simp: safe_step_def)
  then show ?thesis
    using safe_step_trans [OF _ safe_step_trans [OF safe_step_presence safe_step_trans [OF
          safe_step_input_state safe_step_sensor_health]]]
    by (simp add: request_evidence_def case_prod_beta Let_def)
qed

lemma fault_step_physical: "fault_step f (snd (snd (snd (physical_event cfg sd (c, e, p, f)))))"
  using fault_step_marks(2) [of f]
  by (auto simp: physical_event_def Let_def case_prod_beta)

lemma fault_step_event_loop:
  "fault_step (snd (snd (snd st))) (snd (snd (snd (snd (event_loop cfg i sds ids st)))))"
proof (induction cfg i sds ids st rule: event_loop.induct)
  case (2 cfg i sd sds ids st)
  obtain c e p f where st: "st = (c, e, p, f)" by (metis prod_cases4)
  note phys = fault_step_physical [of f cfg sd c e p]
  show ?case
    using 2 phys unfolding st
    by (auto simp: Let_def intro: fault_step_trans)
qed simp


section \<open>The decision\<close>

definition mute_allowed :: "AtlCfg \<Rightarrow> AtlState \<Rightarrow> bool" where
  "mute_allowed cfg s \<longleftrightarrow>
     fl_safeStateLatchCauses (at_faults s) = 0 \<and> \<not> fl_pssErrorFusionSuppressLatched (at_faults s) \<and>
     \<not> gatewayHbTier2SafeHoldBand cfg (at_faults s) \<and>
     fl_lastGatewayHbMissCount (at_faults s) \<le> cf_warnThreshold cfg \<and>
     ph_forkliftInTrailer (at_phys s) \<and> ph_personsInTrailerCount (at_phys s) = 0 \<and>
     \<not> ph_restrictedAreaViolationByPerson (at_phys s)"

text \<open>The packets a step adds all validate, and it adds a MUTE only when it ends where MUTE is allowed.\<close>

definition guarded :: "AtlCfg \<Rightarrow> AtlState \<Rightarrow> AtlState \<Rightarrow> bool" where
  "guarded cfg s s' \<longleftrightarrow> (\<exists>new. lk_out (at_link s') = lk_out (at_link s) @ new \<and>
     (\<forall>p \<in> set new. cmdPacketValidateCRC p \<and> (cp_command p = CMD_MUTE \<longrightarrow> mute_allowed cfg s')))"

lemma quiet_guarded: "quiet (at_link s) (at_link s') \<Longrightarrow> guarded cfg s s'"
  unfolding quiet_def guarded_def by metis

lemma guarded_after: "quiet (at_link s) (at_link t) \<Longrightarrow> guarded cfg t s' \<Longrightarrow> guarded cfg s s'"
  unfolding quiet_def guarded_def by (metis (no_types, lifting) Un_iff append_assoc set_append)

lemma evaluate_fault_step: "fault_step (at_faults s) (at_faults (evaluateATLDecision cfg env marks s))"
  using fault_step_watchdog_marks by (simp add: evaluateATLDecision_def Let_def)

lemma evaluate_phys [simp]: "at_phys (evaluateATLDecision cfg env marks s) = at_phys s"
  "at_input (evaluateATLDecision cfg env marks s) = at_input s"
  by (simp_all add: evaluateATLDecision_def Let_def)

lemma guarded_link: "at_link s = at_link t \<Longrightarrow> guarded cfg s u = guarded cfg t u"
  by (simp add: guarded_def)

lemma evaluate_mute:
  assumes "\<not> quiet (at_link s) (at_link (evaluateATLDecision cfg env marks s))"
  shows "evaluateATLDecision cfg env marks s =
      s\<lparr>at_faults := fold (watchdog_mark cfg (at_input s)) marks (at_faults s),
        at_link := snd (sendDecisionCommandWithObject1 env CMD_MUTE True
                          (snapshotLastForkliftRecord (at_phys s)) (at_link s))\<rparr> \<and>
    mute_allowed cfg (evaluateATLDecision cfg env marks s)"
proof -
  have q: "quiet (at_link s) (snd (sendDecisionCommandWithObject1 env CMD_UNMUTE True obj (at_link s)))" for obj
    by (simp add: sendDecisionCommandWithObject1_def quiet_send)
  show ?thesis
    using assms unfolding evaluateATLDecision_def Let_def
    by (simp add: quiet_hold q mute_allowed_def gatewayHbSuppressFusionDecisions_def safeStateLatched_def
        not_less split: if_split_asm)
qed

lemma evaluate_guarded: "guarded cfg s (evaluateATLDecision cfg env marks s)"
proof (cases "quiet (at_link s) (at_link (evaluateATLDecision cfg env marks s))")
  case False
  have "cmdPacketValidateCRC (cmd_packet_seal p)" for p by (rule cmd.seal_verifies)
  then show ?thesis
    using evaluate_mute [OF False]
    by (auto simp: guarded_def sendDecisionCommandWithObject1_def send_packet)
qed (rule quiet_guarded)

lemma request_events_fault_step:
  "fault_step (at_faults s) (at_faults (request_events cfg env marks request s))"
proof -
  let ?r = "event_loop cfg 0 (populated request) (in_lastEventId (at_input s)) (False, False, at_phys s, at_faults s)"
  have "fault_step (at_faults s) (snd (snd (snd (snd ?r))))"
    using fault_step_event_loop [of "(False, False, at_phys s, at_faults s)"] by simp
  then show ?thesis
    using evaluate_fault_step [of "s\<lparr>at_input := x, at_phys := y, at_faults := snd (snd (snd (snd ?r)))\<rparr>" for x y]
    by (auto simp: request_events_def case_prod_beta Let_def intro: fault_step_trans)
qed

lemma request_events_guarded: "guarded cfg s (request_events cfg env marks request s)"
proof -
  have "guarded cfg s (evaluateATLDecision cfg env marks (s\<lparr>at_input := x, at_phys := y, at_faults := z\<rparr>))" for x y z
    using evaluate_guarded [of cfg "s\<lparr>at_input := x, at_phys := y, at_faults := z\<rparr>"]
    by (simp add: guarded_link [of s "s\<lparr>at_input := x, at_phys := y, at_faults := z\<rparr>"])
  then show ?thesis
    using quiet_physical_hold by (auto simp: request_events_def case_prod_beta Let_def intro!: quiet_guarded)
qed


lemma error_mode_fault_step:
  "fault_step (at_faults s) (at_faults (request_error_mode env request s))"
proof -
  let ?f1 = "(at_faults s)\<lparr>fl_pssErrorFusionSuppressLatched := True\<rparr>"
  let ?s1 = "s\<lparr>at_faults := ?f1\<rparr>"
  let ?f2 = "at_faults (snd (applySwFailEvents env request ?s1))"
  have step: "fault_step ?f1 ?f2" using safe_step_sw_fail [of ?s1 env request] by (simp add: safe_step_def)
  have mark: "fault_step ?f2 (markPssSubCause kPssSubModeError ?f2)"
    by (rule fault_step_markPss) (simp add: pss_enum)
  have "faults_safe (at_faults s) \<Longrightarrow> faults_safe ?f1"
    by (auto simp: faults_safe_def pssAny_iff)
  then have "faults_safe (at_faults s) \<Longrightarrow> faults_inv (markPssSubCause kPssSubModeError ?f2)"
    using step markPss_inv [of kPssSubModeError ?f2] by (simp add: fault_step_def pss_enum)
  moreover have "keeps_latch (at_faults s) ?f1" by (simp add: keeps_latch_def)
  ultimately have "fault_step (at_faults s) (markPssSubCause kPssSubModeError ?f2)"
    using step mark by (auto simp: fault_step_def faults_inv_def keeps_latch_bits)
  then show ?thesis by (simp add: request_error_mode_def case_prod_beta Let_def)
qed

lemma error_mode_quiet: "quiet (at_link s) (at_link (request_error_mode env request s))"
proof -
  let ?s1 = "s\<lparr>at_faults := (at_faults s)\<lparr>fl_pssErrorFusionSuppressLatched := True\<rparr>\<rparr>"
  have "quiet (at_link ?s1) (at_link (snd (applySwFailEvents env request ?s1)))"
    using safe_step_sw_fail [of ?s1 env request] by (simp add: safe_step_def)
  then show ?thesis
    using quiet_hold by (auto simp: request_error_mode_def case_prod_beta Let_def intro: quiet_trans)
qed

text \<open>A part of a handler that may decide.\<close>

definition decide_step :: "AtlCfg \<Rightarrow> AtlState \<Rightarrow> AtlState \<Rightarrow> bool" where
  "decide_step cfg s s' \<longleftrightarrow> fault_step (at_faults s) (at_faults s') \<and> guarded cfg s s'"

lemma safe_decide: "safe_step s s' \<Longrightarrow> decide_step cfg s s'"
  by (simp add: safe_step_def decide_step_def quiet_guarded)

lemma safe_decide_trans: "safe_step s t \<Longrightarrow> decide_step cfg t u \<Longrightarrow> decide_step cfg s u"
  by (auto simp: safe_step_def decide_step_def intro: fault_step_trans guarded_after)

lemma safe_step_clearPss: "safe_step s (s\<lparr>at_faults := clearPssSubCause c (at_faults s)\<rparr>)"
  by (simp add: safe_step_def fault_step_clearPss)

lemma safe_step_clearPss2:
  "safe_step s (s\<lparr>at_faults := clearPssSubCause c (clearPssSubCause d (at_faults s))\<rparr>)"
  by (simp add: safe_step_def fault_step_trans [OF fault_step_clearPss fault_step_clearPss])

lemma safe_step_hold: "safe_step s (s\<lparr>at_link := sendLatchedSafeHold env (at_link s)\<rparr>)"
  by (simp add: safe_step_def quiet_hold)

lemma decide_step_events: "decide_step cfg s (request_events cfg env marks request s)"
  by (simp add: decide_step_def request_events_fault_step request_events_guarded)

lemma decide_step_physical:
  "decide_step cfg s (request_physical cfg env marks request sensorLatchEntered s)"
proof -
  let ?c = "if SdmDecisionRequestClearsPssSwFail (Some request)
     then s\<lparr>at_faults := clearPssSubCause kPssSubGatewayComm (clearPssSubCause kPssSubSwFail (at_faults s))\<rparr> else s"
  let ?s = "snd (applySwFailEvents env request ?c)"
  have "safe_step s ?c" by (simp add: safe_step_clearPss2)
  then have "safe_step s ?s" using safe_step_sw_fail by (rule safe_step_trans)
  then show ?thesis
    using safe_decide_trans [of s ?s cfg] safe_decide [OF safe_step_refl, of cfg ?s]
      safe_decide [OF safe_step_hold, of cfg ?s env] decide_step_events [of cfg ?s env marks request]
    unfolding request_physical_def Let_def case_prod_beta by presburger
qed

lemma decide_step_normal_mode:
  "decide_step cfg s (request_normal_mode cfg env marks request sensorLatchEntered s)"
proof -
  let ?m = "if SdmDecisionRequestClearsPssModeError (Some request)
     then s\<lparr>at_faults := clearPssSubCause kPssSubModeError (at_faults s)\<rparr> else s"
  have "safe_step s ?m" by (simp add: safe_step_clearPss)
  then show ?thesis
    using safe_decide_trans [of s ?m cfg] safe_decide [OF safe_step_refl, of cfg ?m]
      safe_decide [OF safe_step_clearPss, of cfg ?m kPssSubGatewayComm]
      decide_step_physical [of cfg ?m env marks request sensorLatchEntered]
    unfolding request_normal_mode_def Let_def by presburger
qed

lemma decide_step_process: "decide_step cfg s (processDecisionRequestLocked cfg env marks request s)"
proof -
  let ?e = "snd (request_evidence cfg env request s)"
  have "decide_step cfg ?e (request_error_mode env request ?e)"
    by (simp add: decide_step_def error_mode_fault_step quiet_guarded error_mode_quiet)
  then show ?thesis
    using safe_decide_trans [OF safe_step_evidence [of s cfg env request]] decide_step_normal_mode
    by (simp add: processDecisionRequestLocked_def case_prod_beta)
qed

section \<open>Gateway packets and watchdogs\<close>

lemma safe_step_fresh: "safe_step s (markDecisionRequestFresh now s)"
  by (simp add: safe_step_def markDecisionRequestFresh_def fault_step_clears)

lemma decide_step_packet: "decide_step cfg s (gateway_packet cfg env marks packet s)"
proof -
  have g: "safe_step s (if fst (markGatewayDecisionSequenceFaultLatched (at_faults s))
      then s\<lparr>at_input := i, at_faults := snd (markGatewayDecisionSequenceFaultLatched (at_faults s)),
             at_link := sendLatchedSafeHold env (at_link s)\<rparr>
      else s\<lparr>at_input := i, at_faults := snd (markGatewayDecisionSequenceFaultLatched (at_faults s))\<rparr>)"
    "safe_step s (s\<lparr>at_input := i, at_faults := markGatewayDecisionSequenceRecovered (at_faults s)\<rparr>)"
    "safe_step s (s\<lparr>at_input := i\<rparr>)" for i
    by (simp_all add: safe_step_def fault_step_marks fault_step_clears quiet_hold)
  show ?thesis
    using g safe_decide_trans [OF safe_step_trans [OF _ safe_step_fresh] decide_step_process, of s]
      safe_decide [of s _ cfg]
    by (auto simp: gateway_packet_def case_prod_beta Let_def split: if_splits)
qed

lemma safe_step_freshness_watchdog: "safe_step s (decisionFreshnessWatchdog cfg env s)"
  using fault_step_freshness_mark quiet_hold
  by (auto simp: decisionFreshnessWatchdog_def case_prod_beta Let_def safe_step_def)

lemma safe_step_heartbeat_watchdog: "safe_step s (gatewayHeartbeatWatchdog cfg env s)"
proof -
  note hb = fault_step_heartbeat_mark fault_step_trans [OF fault_step_heartbeat_mark fault_step_marks(3)]
  have qq: "quiet l (sendLatchedSafeHold env (sendLatchedSafeHold env l))" for l
    by (rule quiet_trans [OF quiet_hold quiet_hold])
  show ?thesis
    using hb quiet_hold qq
    by (auto simp: gatewayHeartbeatWatchdog_def case_prod_beta Let_def safe_step_def)
qed


section \<open>Release\<close>

lemma latch_cause_neq_0:
  "kSafeLatchGatewayHb \<noteq> 0" "kSafeLatchPss \<noteq> 0" "kSafeLatchDecisionFreshness \<noteq> 0"
  "kSafeLatchGatewayDecisionSequence \<noteq> 0" "kSafeLatchAllSafetyRelevantSensorsFailed \<noteq> 0"
  "kSafeLatchAiPipelineInvalid \<noteq> 0"
  by (simp_all add: pss_enum)

lemma active_eq_0_iff:
  "activeSafeLatchCauses cfg f = 0 \<longleftrightarrow>
     \<not> fl_hbFaultLatched f \<and> \<not> gatewayHbTier2SafeHoldBand cfg f \<and> \<not> pssAnySubCauseActive f \<and>
     \<not> fl_decisionFreshnessFaultActive f \<and> \<not> fl_gatewayDecisionSequenceFaultActive f \<and>
     \<not> fl_allSafetyRelevantSensorsFailedActive f \<and> \<not> fl_aiPipelineInvalidActive f"
  by (simp add: activeSafeLatchCauses_def Let_def latch_cause_neq_0)

text \<open>When a release is accepted: nothing is active, both answers are sent, and no watchdog has meanwhile
  changed the latch or made a cause active.\<close>

definition release_accepted :: "AtlCfg \<Rightarrow> AtlEnv \<Rightarrow> WatchdogMark list \<Rightarrow> AtlState \<Rightarrow> bool" where
  "release_accepted cfg env marks s \<longleftrightarrow>
     (let n = lk_cmdSeqNo (at_link s); f = fold (watchdog_mark cfg (at_input s)) marks (at_faults s) in
      activeSafeLatchCauses cfg (at_faults s) = 0 \<and> en_sendto env n \<and> en_sendto env (n + 1) \<and>
      fl_safeStateLatchCauses f = fl_safeStateLatchCauses (at_faults s) \<and>
      activeSafeLatchCauses cfg f = 0)"

lemma release_faults:
  assumes "fl_safeStateLatchCauses (at_faults s) \<noteq> 0"
  shows "at_faults (handleSafeReleaseRequest cfg env marks s) =
    (let f = fold (watchdog_mark cfg (at_input s)) marks (at_faults s) in
     if activeSafeLatchCauses cfg (at_faults s) \<noteq> 0 then at_faults s
     else if release_accepted cfg env marks s then f\<lparr>fl_safeStateLatchCauses := 0\<rparr> else f)"
  using assms
  by (simp add: handleSafeReleaseRequest_def release_accepted_def Let_def case_prod_beta
      sendDecisionCommand_def)

lemma release_faults_unlatched:
  assumes "fl_safeStateLatchCauses (at_faults s) = 0"
  shows "at_faults (handleSafeReleaseRequest cfg env marks s) = at_faults s"
  using assms
  by (simp add: handleSafeReleaseRequest_def Let_def case_prod_beta sendDecisionCommand_def)

lemma release_quiet: "quiet (at_link s) (at_link (handleSafeReleaseRequest cfg env marks s))"
proof -
  let ?send = "\<lambda>c t l. snd (sendDecisionCommandInternal env c t None None l)"
  have ack: "quiet l (?send CMD_UNMUTE True (?send CMD_SAFE_RELEASE_ACK False l))" for l
    by (rule quiet_trans [OF quiet_send quiet_send]) simp_all
  have denied: "quiet l (?send CMD_SW_ERROR True (?send CMD_UNMUTE True (?send CMD_SAFE_RELEASE_DENIED False l)))" for l
    by (rule quiet_trans [OF quiet_trans [OF quiet_send quiet_send] quiet_send]) simp_all
  show ?thesis
    by (simp add: handleSafeReleaseRequest_def Let_def case_prod_beta sendDecisionCommand_def ack denied
        quiet_trans [OF ack quiet_hold])
qed

lemma release_latch:
  "fault_step (at_faults s) (at_faults (handleSafeReleaseRequest cfg env marks s)) \<or>
   release_accepted cfg env marks s \<and> fl_safeStateLatchCauses (at_faults s) \<noteq> 0 \<and>
   at_faults (handleSafeReleaseRequest cfg env marks s) =
     (fold (watchdog_mark cfg (at_input s)) marks (at_faults s))\<lparr>fl_safeStateLatchCauses := 0\<rparr>"
  using release_faults [of s cfg env marks] release_faults_unlatched [of s cfg env marks]
    fault_step_watchdog_marks [of "at_faults s" cfg "at_input s" marks]
  by (cases "fl_safeStateLatchCauses (at_faults s) = 0") (auto simp: Let_def split: if_splits)

lemma released_inv:
  "faults_inv f \<Longrightarrow> activeSafeLatchCauses cfg f = 0 \<Longrightarrow> faults_inv (f\<lparr>fl_safeStateLatchCauses := 0\<rparr>)"
  by (auto simp: active_eq_0_iff faults_inv_def faults_safe_def pssAny_iff)

lemma release_inv:
  assumes "faults_inv (at_faults s)"
  shows "faults_inv (at_faults (handleSafeReleaseRequest cfg env marks s))"
proof -
  let ?f = "fold (watchdog_mark cfg (at_input s)) marks (at_faults s)"
  have "faults_inv ?f" using assms fault_step_watchdog_marks by (simp add: fault_step_def)
  then show ?thesis
    using release_latch [of s cfg env marks] released_inv [of ?f cfg] assms
    by (auto simp: release_accepted_def Let_def fault_step_def)
qed

section \<open>All steps\<close>

text \<open>The release requests that get past the checks on the packet.\<close>

definition is_release :: "AtlEvent \<Rightarrow> bool" where
  "is_release e = (case e of
      PlcPacket marks fromPlc pkt \<Rightarrow>
        fromPlc \<and> cp_identifier pkt = ATL_PACKET_IDENTIFIER \<and> cmdPacketValidateCRC pkt \<and>
        cp_command pkt = CMD_SAFE_RELEASE_REQUEST
    | _ \<Rightarrow> False)"

definition release_marks :: "AtlEvent \<Rightarrow> WatchdogMark list" where
  "release_marks e = (case e of PlcPacket marks fromPlc pkt \<Rightarrow> marks | _ \<Rightarrow> [])"

lemma step_release:
  "is_release e \<Longrightarrow> atl_step cfg env e s = handleSafeReleaseRequest cfg env (release_marks e) s"
  by (cases e) (simp_all add: is_release_def release_marks_def atl_step_def plc_receive_def
      isValidPlcInboundCommand_def)

lemma safe_step_heartbeats:
  "safe_step s (gateway_heartbeat env s)" "safe_step s (heartbeatTransmitter env s)"
  by (simp_all add: safe_step_def gateway_heartbeat_def heartbeatTransmitter_def sendDecisionCommand_def
      quiet_send)

lemma step_plc_other:
  assumes "\<not> is_release (PlcPacket marks fromPlc pkt)"
  shows "safe_step s (plc_receive cfg env marks fromPlc pkt s)"
proof -
  have "safe_step s (s\<lparr>at_link := acknowledge pkt (at_link s)\<rparr>)"
    by (simp add: safe_step_def quiet_def acknowledge_def split: option.splits)
  then show ?thesis using assms by (simp add: is_release_def plc_receive_def)
qed

lemma step_other: "\<not> is_release e \<Longrightarrow> decide_step cfg s (atl_step cfg env e s)"
proof (cases e)
  case (PeriodicDecision marks)
  then show ?thesis by (simp add: atl_step_def decide_step_def evaluate_fault_step evaluate_guarded)
next
  case (AckScan now)
  then show ?thesis by (simp add: atl_step_def decide_step_def guarded_def ack_scan_def)
qed (simp_all add: atl_step_def decide_step_packet safe_decide safe_step_freshness_watchdog
      safe_step_heartbeat_watchdog safe_step_heartbeats step_plc_other)

lemma step_guarded: "guarded cfg s (atl_step cfg env e s)"
  using step_other [of e cfg s env] step_release [of e cfg env s] release_quiet quiet_guarded
  by (cases "is_release e") (auto simp: decide_step_def)

lemma step_inv: "faults_inv (at_faults s) \<Longrightarrow> faults_inv (at_faults (atl_step cfg env e s))"
  using step_other [of e cfg s env] step_release [of e cfg env s] release_inv [of s]
  by (cases "is_release e") (auto simp: decide_step_def fault_step_def)

lemma launch_inv: "faults_inv (at_faults (launch_reset env atl_static))"
  by (simp add: launch_reset_def Let_def resetSafeStateFaultsForLaunch_def atl_static_def faults_inv_def
      faults_safe_def pssAny_iff kPssSubCauseCount_def)

lemma reachable_inv: "atl_reachable cfg s \<Longrightarrow> faults_inv (at_faults s)"
  by (induction rule: atl_reachable.induct) (auto intro: launch_inv step_inv)

end
