(* ===== verification/Atl_Examples.thy ===== *)
theory Atl_Examples
  imports Atl_Invariants
begin

text \<open>
  A configuration, an environment and short runs of the ATL decision maker on which the properties are
  instantiated: a forklift entering the trailer, and a gateway that falls silent and comes back.
\<close>

section \<open>A forklift enters\<close>

definition example_cfg :: AtlCfg where
  "example_cfg =
     \<lparr>cf_forkliftEntered = EVENT_0, cf_forkliftExited = 1, cf_personEntered = 2, cf_personExited = 3,
      cf_roiViolation = 4, cf_roiCleared = 5, cf_reviewedIds = [1, 2, 3], cf_reviewedMask = 7,
      cf_maxHbFailures = 10, cf_warnThreshold = 5, cf_hbStaleMs = 5000, cf_hbPeriodMs = 5500,
      cf_decisionFreshnessTimeoutMs = 7000\<rparr>"

text \<open>Time in milliseconds, with a link that accepts every packet.\<close>

definition example_env :: "int \<Rightarrow> AtlEnv" where
  "example_env ms = \<lparr>en_now = ms * 1000000, en_sysNow = (\<lambda>_. ms * 1000000), en_sendto = (\<lambda>_. True)\<rparr>"

definition example_start :: AtlState where
  "example_start = launch_reset (example_env 0) atl_static"

text \<open>A sealed request with one event, the forklift entering the trailer.\<close>

definition example_decision :: AtlEvent where
  "example_decision = GatewayPacket []
     (the (NvPSDGatewayBuildDecisionRequestPacket (seal_request example_request) 1 1))"

definition example_sd :: SensorData where
  "example_sd = zero_sensor_data\<lparr>sd_isHealthy := True, sd_isTrustedSource := True,
     sd_event := zero_event\<lparr>fe_timestamp := 1\<rparr>\<rparr>"

lemma example_request_simps [simp]:
  "populated example_request = [example_sd]"
  "dr_mode example_request = NORMAL"
  "dr_sensorDataSummarySize example_request = 1"
  "dr_event0 example_request = sd_event example_sd"
  by (simp_all add: populated_def example_request_def zero_request_def example_sd_def pss_enum  zero_status_def
)

lemma example_sd_simps [simp]:
  "fe_type (sd_event example_sd) = EVENT_0" "fe_status (sd_event example_sd) = FUSED" "fe_id (sd_event example_sd) = 0"
  "fe_fusionMetadata (sd_event example_sd) = zero_metadata" "sd_isHealthy example_sd" "sd_isTrustedSource example_sd"
  "\<not> is_presence_report (sd_event example_sd)"
  by (simp_all add: is_presence_report_def example_sd_def zero_event_def zero_sensor_data_def pss_enum)

lemma example_start_eq: "example_start = atl_static"
  by (simp add: example_start_def launch_reset_def resetSafeStateFaultsForLaunch_def atl_static_def Let_def
     sdmGatewayDecisionSequenceReset_def example_env_def sdm_sequence_initial_def resetLastForkliftRecordLocked_def)

text \<open>The state in which the handler sees the request: the sequence observed, the freshness time set.\<close>

definition example_seen :: AtlState where
  "example_seen = markDecisionRequestFresh 1000000 (atl_static\<lparr>at_input := (at_input atl_static)\<lparr>in_gatewayDecisionSequenceState :=
     the (snd (sdmGatewayDecisionSequenceObserve (Some sdm_sequence_initial) 1 1))\<rparr>\<rparr>)"

lemmas example_seen_eq = example_seen_def markDecisionRequestFresh_def atl_static_def

lemma example_presence: "applySourcePresence env (seal_request example_request) example_seen = example_seen"
  by (simp add: applySourcePresence_def SdmSourcePresenceEvaluate_def SdmDecisionRequestFindPresenceReport_def example_seen_eq
    tracked_sources_def presence_clear_def pss_enum Let_def)

lemma example_input: "applySourceInputState env (seal_request example_request) example_seen = example_seen"
  by (simp add: applySourceInputState_def SdmSourceInputStateEvaluate_def SdmDecisionRequestFindPresenceReport_def example_seen_eq
     pss_enum Let_def no_delta_def)

lemma example_evidence:
  "request_evidence example_cfg env (seal_request example_request) example_seen = (False, example_seen)"
proof -
  have "updateAiPipelineTrustFromDecisionRequest (seal_request example_request) (at_faults example_seen) =
      (False, at_faults example_seen)"
    by (simp add: updateAiPipelineTrustFromDecisionRequest_def ai_trust_step_def pss_enum)
  moreover have "updateSensorHealthFromDecisionRequest example_cfg (seal_request example_request) example_seen =
      (False, example_seen)"
    by (simp add: updateSensorHealthFromDecisionRequest_def sensor_health_step_def zero_metadata_def
        safetyRelevantSensorBit_def shouldWarnUnreviewedSensor_def pss_enum Let_def example_seen_eq)
  moreover have "example_seen\<lparr>at_faults := at_faults example_seen\<rparr> = example_seen" by simp
  ultimately show ?thesis by (simp add: request_evidence_def example_presence example_input)
qed

lemma example_clears: "clearPssSubCause n (at_faults example_seen) = at_faults example_seen"
  by (simp add: clearPssSubCause_def example_seen_eq)

lemma example_normal:
  "request_normal_mode example_cfg env [] (seal_request example_request) False example_seen =
   request_events example_cfg env [] (seal_request example_request) example_seen"
proof -
  have "applySwFailEvents env (seal_request example_request) example_seen = (False, example_seen)"
    by (simp add: applySwFailEvents_def pss_enum)
  moreover have "EVENT_0 \<noteq> PSS_STATUS_NOOP" by (simp add: pss_enum)
  ultimately show ?thesis
    by (simp add: request_normal_mode_def request_physical_def example_clears Let_def MAX_SENSORS_DATA_SUMMARY_SIZE_def)
qed

lemma example_events:
  "map cp_command (lk_out (at_link (request_events example_cfg (example_env 1) [] (seal_request example_request) example_seen))) = [CMD_MUTE]"
  by (simp add: request_events_def example_seen_eq Let_def EVENT_ID_UNSEEN_def pss_enum physical_event_def example_cfg_def
    updateLastForkliftRecordLocked_def safeStateLatched_def evaluateATLDecision_def gatewayHbTier2SafeHoldBand_def
    gatewayHbSuppressFusionDecisions_def sendDecisionCommandWithObject1_def send_packet cmd_packet_seal_def example_env_def)

lemma example_step: "atl_step example_cfg (example_env 1) example_decision example_start =
   processDecisionRequestLocked example_cfg (example_env 1) [] (seal_request example_request) example_seen"
proof -
  have "validateDecisionRequest (Some (seal_request example_request)) = PSS_VALID" by (simp only: validate_sealed example_request_ok)
  then show ?thesis
    by (simp add: atl_step_def gateway_packet_def example_decision_def NvPSDGatewayBuildDecisionRequestPacket_def
     NvPSDGatewayDecisionPacketEpochIsValid_def NvPSDGatewayDecisionPacketSequenceIsValid_def 
     NvPSDGatewayDecisionPacketHeaderIsValid_def gw_defs example_start_eq example_seen_def example_env_def
     sdmGatewayDecisionSequenceObserve_def sdm_sequence_initial_def Let_def atl_static_def markDecisionRequestFresh_def
     markGatewayDecisionSequenceRecovered_def)
qed

lemma example_muted:
  "map cp_command (lk_out (at_link (atl_step example_cfg (example_env 1) example_decision example_start))) = [CMD_MUTE]"
  unfolding example_step processDecisionRequestLocked_def example_evidence
  by (simp add: example_normal example_events pss_enum)

section \<open>A latch and its release\<close>

definition example_release :: AtlEvent where
  "example_release = PlcPacket [] True (cmd_packet_seal (example_packet\<lparr>cp_command := CMD_SAFE_RELEASE_REQUEST\<rparr>))"

lemma example_release_ok: "is_release example_release"
  using cmd.seal_verifies [of "example_packet\<lparr>cp_command := CMD_SAFE_RELEASE_REQUEST\<rparr>"]
  by (simp add: example_release_def is_release_def cmd_packet_seal_def example_packet_def)

text \<open>The gateway falls silent for a minute, and then is heard again.\<close>

definition example_latched :: AtlState where
  "example_latched = atl_step example_cfg (example_env 60000) HeartbeatTick example_start"

definition example_cleared :: AtlState where
  "example_cleared = atl_step example_cfg (example_env 60001) HeartbeatTick
     (atl_step example_cfg (example_env 60001) GatewayHeartbeat example_latched)"

lemma example_miss:
  "gatewayMissFromElapsedMs example_cfg 60000 = 10" "gatewayMissFromElapsedMs example_cfg 0 = 0"
  by (simp_all add: gatewayMissFromElapsedMs_def example_cfg_def signed_divide_int_def)

lemma example_latched_eq:
  "at_faults example_latched = (at_faults atl_static)\<lparr>fl_hbFaultLatched := True, fl_lastGatewayHbMissCount := 10,
     fl_safeStateLatchCauses := 1\<rparr>"
  by (simp add: example_latched_def atl_step_def gatewayHeartbeatWatchdog_def heartbeat_mark_def example_start_eq
      atl_static_def Let_def example_env_def example_miss ms_of_def signed_divide_int_def
      markGatewayHbFaultLatched_def latch_def pss_enum)
     (simp add: example_cfg_def)

lemma example_cleared_eq:
  "at_faults example_cleared = (at_faults atl_static)\<lparr>fl_safeStateLatchCauses := 1\<rparr>"
  by (simp add: example_cleared_def atl_step_def gateway_heartbeat_def gatewayHeartbeatWatchdog_def heartbeat_mark_def
      Let_def example_env_def example_miss ms_of_def signed_divide_int_def clearGatewayHbFaultActive_def
      example_latched_eq)
     (simp add: example_cfg_def atl_static_def)

lemma example_release_accepted: "release_accepted example_cfg (example_env 60002) [] example_cleared"
  by (simp add: release_accepted_def example_cleared_eq activeSafeLatchCauses_def example_env_def atl_static_def
      gatewayHbTier2SafeHoldBand_def pssAnySubCauseActive_def example_cfg_def list_ex_iff)

lemma example_released:
  "fl_safeStateLatchCauses (at_faults (atl_step example_cfg (example_env 60002) example_release example_cleared)) = 0"
  using step_release [OF example_release_ok, of example_cfg "example_env 60002" example_cleared]
    release_faults [of example_cleared example_cfg "example_env 60002" "[]"] example_release_accepted
  by (simp add: example_cleared_eq release_marks_def example_release_def Let_def)
     (simp add: release_accepted_def example_cleared_eq Let_def)

lemma example_reachable [intro]:
  "atl_reachable example_cfg example_start" "atl_reachable example_cfg example_latched"
  "atl_reachable example_cfg example_cleared"
  by (simp_all add: example_start_def example_latched_def example_cleared_def atl_reachable.intros)

end
