(* ===== verification/Atl_Safety.thy ===== *)
theory Atl_Safety
  imports Atl_Examples
begin

text \<open>
  The safe-state contract of a decision maker as a locale, its interpretation on the ATL steps, and
  the properties of the ATL decision maker as a whole.
\<close>

section \<open>The safe-state contract\<close>

text \<open>
  The contract documented in \<^verbatim>\<open>docs/integration/safe-state-model.mdx\<close>: a cause that becomes active
  is latched, a cause that goes away does not unlatch itself, and only a release, accepted while no
  cause is active, clears the latch.
\<close>

locale safe_state_latch =
  fixes step :: "'e \<Rightarrow> 's \<Rightarrow> 's"
    and latched :: "'s \<Rightarrow> u32"
    and cause :: "'s \<Rightarrow> nat \<Rightarrow> bool"
    and inv :: "'s \<Rightarrow> bool"
    and blocked :: "'s \<Rightarrow> bool"
    and release :: "'e \<Rightarrow> bool"
  assumes inv_step: "inv s \<Longrightarrow> inv (step e s)"
    and cause_latched: "inv s \<Longrightarrow> cause s n \<Longrightarrow> bit (latched s) n"
    and keeps: "\<not> release e \<Longrightarrow> bit (latched s) n \<Longrightarrow> bit (latched (step e s)) n"
    and release_clears: "release e \<Longrightarrow> bit (latched s) n \<Longrightarrow> \<not> bit (latched (step e s)) n \<Longrightarrow>
        \<not> blocked s \<and> \<not> blocked (step e s) \<and> latched (step e s) = 0"
begin

lemma inv_run: "inv s \<Longrightarrow> inv (fold step es s)"
  by (induction es arbitrary: s) (auto intro: inv_step)

lemma cause_held:
  assumes "inv s" and "cause s n" and "\<forall>e\<in>set es. \<not> release e"
  shows "bit (latched (fold step es s)) n"
proof -
  have "bit (latched (fold step es t)) n" if "bit (latched t) n" for t
    using that assms(3) keeps by (induction es arbitrary: t) auto
  then show ?thesis using cause_latched [OF assms(1,2)] by blast
qed

lemma cleared_by_release:
  assumes "bit (latched s) n" and "\<not> bit (latched (fold step es s)) n"
  shows "\<exists>xs e ys. es = xs @ e # ys \<and> release e \<and> \<not> blocked (fold step xs s) \<and>
    \<not> blocked (fold step (xs @ [e]) s) \<and> latched (fold step (xs @ [e]) s) = 0"
  using assms
proof (induction es arbitrary: s)
  case (Cons e es)
  show ?case
  proof (cases "bit (latched (step e s)) n")
    case True
    then obtain xs e' ys where "es = xs @ e' # ys \<and> release e' \<and> \<not> blocked (fold step xs (step e s)) \<and>
        \<not> blocked (fold step (xs @ [e']) (step e s)) \<and> latched (fold step (xs @ [e']) (step e s)) = 0"
      using Cons by (metis fold_simps(2))
    then have "e # es = (e # xs) @ e' # ys \<and> release e' \<and> \<not> blocked (fold step (e # xs) s) \<and>
        \<not> blocked (fold step ((e # xs) @ [e']) s) \<and> latched (fold step ((e # xs) @ [e']) s) = 0" by simp
    then show ?thesis by blast
  next
    case False
    then have "release e" using keeps Cons.prems(1) by blast
    then have "e # es = [] @ e # es \<and> release e \<and> \<not> blocked (fold step [] s) \<and>
        \<not> blocked (fold step ([] @ [e]) s) \<and> latched (fold step ([] @ [e]) s) = 0"
      using release_clears [of e s n] Cons.prems(1) False by simp
    then show ?thesis by blast
  qed
qed simp

end

section \<open>The ATL decision maker keeps the contract\<close>

definition atl_event_step :: "AtlCfg \<Rightarrow> AtlEnv \<times> AtlEvent \<Rightarrow> AtlState \<Rightarrow> AtlState" where
  "atl_event_step cfg = (\<lambda>(env, e) s. atl_step cfg env e s)"

definition atl_latch :: "AtlState \<Rightarrow> u32" where
  "atl_latch s = fl_safeStateLatchCauses (at_faults s)"

text \<open>The causes that latch, by latch bit. The tier-2 heartbeat band blocks a release without latching.\<close>

definition atl_cause :: "AtlState \<Rightarrow> nat \<Rightarrow> bool" where
  "atl_cause s n \<longleftrightarrow>
     n = 0 \<and> fl_hbFaultLatched (at_faults s) \<or>
     n = 1 \<and> pssAnySubCauseActive (at_faults s) \<or>
     n = 3 \<and> fl_decisionFreshnessFaultActive (at_faults s) \<or>
     n = 4 \<and> fl_gatewayDecisionSequenceFaultActive (at_faults s) \<or>
     n = 5 \<and> fl_allSafetyRelevantSensorsFailedActive (at_faults s) \<or>
     n = 6 \<and> fl_aiPipelineInvalidActive (at_faults s)"

definition atl_blocked :: "AtlCfg \<Rightarrow> AtlState \<Rightarrow> bool" where
  "atl_blocked cfg s \<longleftrightarrow> activeSafeLatchCauses cfg (at_faults s) \<noteq> 0"

lemma active_unlatched [simp]:
  "activeSafeLatchCauses cfg (f\<lparr>fl_safeStateLatchCauses := x\<rparr>) = activeSafeLatchCauses cfg f"
  by (simp add: activeSafeLatchCauses_def gatewayHbTier2SafeHoldBand_def pssAnySubCauseActive_def)

interpretation atl: safe_state_latch "atl_event_step cfg" atl_latch atl_cause
  "\<lambda>s. faults_inv (at_faults s)" "atl_blocked cfg" "\<lambda>e. is_release (snd e)" for cfg
proof
  fix s e n
  show "faults_inv (at_faults s) \<Longrightarrow> faults_inv (at_faults (atl_event_step cfg e s))"
    by (simp add: atl_event_step_def case_prod_beta step_inv)
  show "faults_inv (at_faults s) \<Longrightarrow> atl_cause s n \<Longrightarrow> bit (atl_latch s) n"
    by (auto simp: faults_inv_def faults_safe_def atl_cause_def atl_latch_def)
  show "\<not> is_release (snd e) \<Longrightarrow> bit (atl_latch s) n \<Longrightarrow> bit (atl_latch (atl_event_step cfg e s)) n"
    using step_other [of "snd e" cfg s "fst e"]
    by (simp add: atl_event_step_def case_prod_beta atl_latch_def decide_step_def fault_step_def keeps_latch_bits)
  assume "is_release (snd e)" "bit (atl_latch s) n" "\<not> bit (atl_latch (atl_event_step cfg e s)) n"
  then show "\<not> atl_blocked cfg s \<and> \<not> atl_blocked cfg (atl_event_step cfg e s) \<and>
      atl_latch (atl_event_step cfg e s) = 0"
    using step_release [of "snd e" cfg "fst e" s] release_latch [of s cfg "fst e" "release_marks (snd e)"]
    by (auto simp: atl_event_step_def case_prod_beta atl_latch_def atl_blocked_def fault_step_def
        keeps_latch_bits release_accepted_def Let_def)
qed


section \<open>Bounds\<close>

definition persons_ok :: "AtlPhysical \<Rightarrow> bool" where
  "persons_ok p \<longleftrightarrow> 0 \<le> ph_personsInTrailerCount p \<and> ph_personsInTrailerCount p \<le> PERSONS_IN_TRAILER_MAX"

lemma physical_event_persons:
  "persons_ok p \<Longrightarrow> persons_ok (fst (snd (snd (physical_event cfg sd (c, e, p, f)))))"
  by (auto simp: physical_event_def persons_ok_def Let_def case_prod_beta updateLastForkliftRecordLocked_def)

lemma event_loop_persons:
  "persons_ok (fst (snd (snd st))) \<Longrightarrow> persons_ok (fst (snd (snd (snd (event_loop cfg i sds ids st)))))"
proof (induction cfg i sds ids st rule: event_loop.induct)
  case (2 cfg i sd sds ids st)
  obtain c e p f where st: "st = (c, e, p, f)" by (metis prod_cases4)
  show ?case using 2 physical_event_persons [of p cfg sd c e f] unfolding st by (simp add: Let_def)
qed simp

lemma request_events_persons: "persons_ok (at_phys s) \<Longrightarrow> persons_ok (at_phys (request_events cfg env marks request s))"
  using event_loop_persons [of "(False, False, at_phys s, at_faults s)" cfg 0 "populated request" "in_lastEventId (at_input s)"]
  by (simp add: request_events_def case_prod_beta Let_def)

lemma evidence_phys [simp]: "at_phys (snd (request_evidence cfg env request s)) = at_phys s"
  by (simp add: request_evidence_def updateSensorHealthFromDecisionRequest_def applySourceInputState_def
      applySourcePresence_def case_prod_beta Let_def)

lemma sw_fail_phys [simp]: "at_phys (snd (applySwFailEvents env request s)) = at_phys s"
  by (simp add: applySwFailEvents_def case_prod_beta Let_def)

lemma process_persons:
  "persons_ok (at_phys s) \<Longrightarrow> persons_ok (at_phys (processDecisionRequestLocked cfg env marks request s))"
  by (simp add: processDecisionRequestLocked_def request_error_mode_def request_normal_mode_def
      request_physical_def case_prod_beta Let_def request_events_persons)

lemma release_persons: "persons_ok (at_phys s) \<Longrightarrow> persons_ok (at_phys (handleSafeReleaseRequest cfg env marks s))"
  by (simp add: handleSafeReleaseRequest_def case_prod_beta Let_def resetAtlStateFromPlcSafeRelease_def
      resetLastForkliftRecordLocked_def persons_ok_def PERSONS_IN_TRAILER_MAX_def)

lemma step_persons: "persons_ok (at_phys s) \<Longrightarrow> persons_ok (at_phys (atl_step cfg env e s))"
  by (cases e)
     (simp_all add: atl_step_def gateway_packet_def plc_receive_def gateway_heartbeat_def case_prod_beta Let_def
       decisionFreshnessWatchdog_def gatewayHeartbeatWatchdog_def heartbeatTransmitter_def
       markDecisionRequestFresh_def process_persons release_persons)

lemma reachable_persons: "atl_reachable cfg s \<Longrightarrow> persons_ok (at_phys s)"
proof (induction rule: atl_reachable.induct)
  case (launched env)
  show ?case
    by (simp add: launch_reset_def Let_def resetSafeStateFaultsForLaunch_def atl_static_def
        resetLastForkliftRecordLocked_def persons_ok_def PERSONS_IN_TRAILER_MAX_def)
qed (rule step_persons)

section \<open>Watchdogs\<close>

lemma div_le_dividend_int: "0 \<le> a \<Longrightarrow> 0 < b \<Longrightarrow> a div b \<le> a" for a b :: int
  using zdiv_mono2 [of a 1 b] by simp

lemma uint_u64_small: "0 \<le> x \<Longrightarrow> x < 2 ^ 64 \<Longrightarrow> uint (word_of_int x :: u64) = x"
  by (simp add: uint_word_of_int_eq take_bit_int_eq_self)

lemma take_bit_64_u32: "take_bit 64 (uint x) = uint x" for x :: u32
  using uint_lt2p [of x] by (intro take_bit_int_eq_self) auto

lemma miss_count_eq:
  assumes "0 < cf_hbPeriodMs cfg" and "elapsed < 2 ^ 63"
  shows "uint (gatewayMissFromElapsedMs cfg elapsed) =
    (if elapsed \<le> uint (cf_hbStaleMs cfg) then 0
     else min (uint (cf_maxHbFailures cfg))
            (1 + (elapsed - uint (cf_hbStaleMs cfg)) div uint (cf_hbPeriodMs cfg)))"
proof (cases "elapsed \<le> uint (cf_hbStaleMs cfg)")
  case False
  let ?q = "(elapsed - uint (cf_hbStaleMs cfg)) div uint (cf_hbPeriodMs cfg)"
  have p: "0 < uint (cf_hbPeriodMs cfg)" using assms(1) by (simp add: word_less_def)
  have "elapsed - uint (cf_hbStaleMs cfg) < 2 ^ 63"
    using assms(2) uint_ge_0 [of "cf_hbStaleMs cfg"] by linarith
  moreover have "?q \<le> elapsed - uint (cf_hbStaleMs cfg)"
    using False p by (intro div_le_dividend_int) auto
  ultimately have q: "0 \<le> ?q" "?q < 2 ^ 63"
    using False p by (auto simp: pos_imp_zdiv_nonneg_iff)
  have sd: "(elapsed - uint (cf_hbStaleMs cfg)) sdiv uint (cf_hbPeriodMs cfg) = ?q"
    using False p by (simp add: sdiv_nonneg)
  let ?m = "1 + (word_of_int ?q :: u64)"
  have m: "uint ?m = 1 + ?q"
    using q uint_u64_small [of ?q] by (simp add: uint_word_ariths)
  have le: "?m > ucast (cf_maxHbFailures cfg) \<longleftrightarrow> uint (cf_maxHbFailures cfg) < 1 + ?q"
    using m by (simp add: word_less_def unsigned_ucast_eq take_bit_64_u32)
  have mx: "uint (cf_maxHbFailures cfg) < 2 ^ 32" using uint_lt2p [of "cf_maxHbFailures cfg"] by simp
  show ?thesis
  proof (cases "uint (cf_maxHbFailures cfg) < 1 + ?q")
    case True
    then show ?thesis using False le sd by (simp add: gatewayMissFromElapsedMs_def Let_def)
  next
    case small: False
    then have "uint (ucast ?m :: u32) = 1 + ?q"
      using m q mx by (simp add: unsigned_ucast_eq take_bit_int_eq_self)
    then show ?thesis using False le sd small by (simp add: gatewayMissFromElapsedMs_def Let_def)
  qed
qed (simp add: gatewayMissFromElapsedMs_def)

section \<open>Properties\<close>

text \<open>
  C1. MUTE (allow operation) only when it is safe. Whatever a reachable ATL decision maker handles
  next, if it puts a MUTE packet on the wire then it ends with no safe-state latch, no active cause, the
  forklift in the trailer, nobody in the trailer and no restricted-area violation, and the packet validates.
\<close>

theorem mute_only_when_safe:
  assumes "atl_reachable cfg s"
    and "p \<in> set (drop (length (lk_out (at_link s))) (lk_out (at_link (atl_step cfg env e s))))"
    and "cp_command p = CMD_MUTE"
  shows "cmdPacketValidateCRC p \<and> atl_latch (atl_step cfg env e s) = 0 \<and>
    activeSafeLatchCauses cfg (at_faults (atl_step cfg env e s)) = 0 \<and>
    ph_forkliftInTrailer (at_phys (atl_step cfg env e s)) \<and>
    ph_personsInTrailerCount (at_phys (atl_step cfg env e s)) = 0 \<and>
    \<not> ph_restrictedAreaViolationByPerson (at_phys (atl_step cfg env e s))"
proof -
  let ?s = "atl_step cfg env e s"
  have p: "cmdPacketValidateCRC p" "mute_allowed cfg ?s"
    using step_guarded [of cfg s env e] assms(2,3) by (auto simp: guarded_def)
  have "faults_inv (at_faults ?s)" using step_inv reachable_inv [OF assms(1)] by blast
  then have "activeSafeLatchCauses cfg (at_faults ?s) = 0"
    using p(2) by (auto simp: active_eq_0_iff mute_allowed_def faults_inv_def faults_safe_def)
  then show ?thesis using p by (simp add: mute_allowed_def atl_latch_def)
qed

theorem mute_only_when_safe_witness:
  "\<exists>p. cp_command p = CMD_MUTE \<and> cmdPacketValidateCRC p \<and>
    p \<in> set (lk_out (at_link (atl_step example_cfg (example_env 1) example_decision example_start))) \<and>
    ph_personsInTrailerCount (at_phys (atl_step example_cfg (example_env 1) example_decision example_start)) = 0"
proof -
  have "CMD_MUTE \<in> set (map cp_command
      (lk_out (at_link (atl_step example_cfg (example_env 1) example_decision example_start))))"
    by (simp only: example_muted list.set) simp
  then obtain p where p: "cp_command p = CMD_MUTE"
    "p \<in> set (lk_out (at_link (atl_step example_cfg (example_env 1) example_decision example_start)))"
    by (auto simp: in_set_conv_nth) (metis nth_mem)
  moreover have "lk_out (at_link example_start) = []" by (simp add: example_start_eq atl_static_def)
  ultimately show ?thesis
    using mute_only_when_safe [OF example_reachable(1), of p "example_env 1" example_decision] by auto
qed

text \<open>
  C2. A latched cause is cleared only by an accepted release. If a cause is active in a reachable state and after
  any further events its latch bit is gone, then one of these events was a valid release request of the
  controller that arrived while no cause was active, and it cleared the whole latch.
\<close>

theorem latched_cause_cleared_only_by_release:
  assumes "atl_reachable cfg s" and "atl_cause s n"
    and "\<not> bit (atl_latch (fold (atl_event_step cfg) es s)) n"
  shows "\<exists>xs env e ys. es = xs @ (env, e) # ys \<and> is_release e \<and>
    activeSafeLatchCauses cfg (at_faults (fold (atl_event_step cfg) xs s)) = 0 \<and>
    atl_latch (fold (atl_event_step cfg) (xs @ [(env, e)]) s) = 0"
proof -
  have "bit (atl_latch s) n" using atl.cause_latched [OF reachable_inv [OF assms(1)] assms(2)] .
  from atl.cleared_by_release [OF this assms(3)] show ?thesis
    unfolding atl_blocked_def by (metis prod.collapse)
qed

theorem latched_cause_cleared_only_by_release_witness:
  "\<exists>xs env e ys. [(example_env 60001, GatewayHeartbeat), (example_env 60001, HeartbeatTick),
      (example_env 60002, example_release)] = xs @ (env, e) # ys \<and> is_release e \<and>
    activeSafeLatchCauses example_cfg (at_faults (fold (atl_event_step example_cfg) xs example_latched)) = 0 \<and>
    atl_latch (fold (atl_event_step example_cfg) (xs @ [(env, e)]) example_latched) = 0"
proof (rule latched_cause_cleared_only_by_release [of _ _ 0])
  show "atl_cause example_latched 0" by (simp add: atl_cause_def example_latched_eq)
  have "fold (atl_event_step example_cfg) [(example_env 60001, GatewayHeartbeat), (example_env 60001, HeartbeatTick),
      (example_env 60002, example_release)] example_latched =
      atl_step example_cfg (example_env 60002) example_release example_cleared"
    by (simp add: atl_event_step_def example_cleared_def)
  then show "\<not> bit (atl_latch (fold (atl_event_step example_cfg) [(example_env 60001, GatewayHeartbeat),
      (example_env 60001, HeartbeatTick), (example_env 60002, example_release)] example_latched)) 0"
    by (simp only: atl_latch_def example_released) simp
qed blast

text \<open>
  C12. Exactly when a release is granted. With the latch set, a packet from the controller socket leaves the
  latch cleared exactly when it comes from the configured endpoint, is a release request with the right
  identifier and CRC, no cause is active, the acknowledgement and the UNMUTE were both sent, and no
  watchdog has meanwhile changed the latch or made a cause active.
\<close>

theorem release_granted_iff:
  assumes "atl_latch s \<noteq> 0"
  shows "atl_latch (atl_step cfg env (PlcPacket marks fromPlc pkt) s) = 0 \<longleftrightarrow>
    is_release (PlcPacket marks fromPlc pkt) \<and> release_accepted cfg env marks s"
proof (cases "is_release (PlcPacket marks fromPlc pkt)")
  case True
  have keeps: "fl_safeStateLatchCauses g \<noteq> 0" if "fault_step (at_faults s) g" for g
    using that assms by (auto simp: fault_step_def keeps_latch_def atl_latch_def)
  show ?thesis
    using True step_release [OF True, of cfg env s] release_faults [of s cfg env marks] assms
      keeps [OF fault_step_watchdog_marks [of _ cfg "at_input s" marks]]
    by (auto simp: atl_latch_def release_marks_def Let_def release_accepted_def split: if_splits)
next
  case False
  then have "fault_step (at_faults s) (at_faults (atl_step cfg env (PlcPacket marks fromPlc pkt) s))"
    using step_other by (simp add: decide_step_def)
  then show ?thesis using False assms by (auto simp: fault_step_def keeps_latch_def atl_latch_def)
qed

theorem release_granted_iff_witness:
  "atl_latch example_cleared \<noteq> 0 \<and>
   atl_latch (atl_step example_cfg (example_env 60002) example_release example_cleared) = 0"
proof -
  have "atl_latch example_cleared \<noteq> 0" by (simp add: atl_latch_def example_cleared_eq)
  then show ?thesis
    using release_granted_iff [of example_cleared example_cfg "example_env 60002" "[]" True
        "cmd_packet_seal (example_packet\<lparr>cp_command := CMD_SAFE_RELEASE_REQUEST\<rparr>)"]
      example_release_ok example_release_accepted
    unfolding example_release_def by blast
qed

text \<open>
  C22. State invariant. In every reachable state output suppression is on exactly while a PSS sub-cause is
  active, every active cause has its latch bit set, and the number of persons counted stays within
  0 and 10000.
\<close>

theorem atl_reachable_invariant:
  assumes "atl_reachable cfg s"
  shows "(fl_pssErrorFusionSuppressLatched (at_faults s) \<longleftrightarrow> pssAnySubCauseActive (at_faults s)) \<and>
    (\<forall>n. atl_cause s n \<longrightarrow> bit (atl_latch s) n) \<and>
    0 \<le> ph_personsInTrailerCount (at_phys s) \<and> ph_personsInTrailerCount (at_phys s) \<le> PERSONS_IN_TRAILER_MAX"
  using reachable_inv [OF assms] reachable_persons [OF assms] atl.cause_latched [of s]
  by (auto simp: faults_inv_def faults_safe_def persons_ok_def)


theorem atl_reachable_invariant_witness: "bit (atl_latch example_latched) 0"
  using atl_reachable_invariant [OF example_reachable(2)] by (auto simp: atl_cause_def example_latched_eq)

text \<open>
  C19. Loss of decisions is caught. When the freshness watchdog runs more than the configured timeout
  after the last valid decision request, the freshness cause is active and latched afterwards, and on entry
  the hold goes out: UNMUTE, then SW_ERROR, when the link accepts them.
\<close>

theorem stale_decisions_latch:
  assumes "atl_reachable cfg s"
    and "uint (cf_decisionFreshnessTimeoutMs cfg) < ms_of (en_now env - in_lastValidDecisionRequestTime (at_input s))"
    and "ms_of (en_now env - in_lastValidDecisionRequestTime (at_input s)) < 2 ^ 64"
  shows "fl_decisionFreshnessFaultActive (at_faults (atl_step cfg env FreshnessTick s)) \<and>
    bit (atl_latch (atl_step cfg env FreshnessTick s)) 3 \<and>
    (\<not> fl_decisionFreshnessFaultActive (at_faults s) \<and> en_sendto env (lk_cmdSeqNo (at_link s)) \<and>
       en_sendto env (lk_cmdSeqNo (at_link s) + 1) \<longrightarrow>
     map cp_command (lk_out (at_link (atl_step cfg env FreshnessTick s))) =
     map cp_command (lk_out (at_link s)) @ [CMD_UNMUTE, CMD_SW_ERROR])"
proof -
  let ?ms = "ms_of (en_now env - in_lastValidDecisionRequestTime (at_input s))"
  have "0 \<le> ?ms" using assms(2) uint_ge_0 [of "cf_decisionFreshnessTimeoutMs cfg"] by linarith
  then have "sdmDecisionFreshnessExpired (word_of_int ?ms) (cf_decisionFreshnessTimeoutMs cfg)"
    using assms(2,3) uint_u64_small [of ?ms]
    by (simp add: sdmDecisionFreshnessExpired_def word_less_def unsigned_ucast_eq take_bit_64_u32)
  then have mark: "freshness_mark cfg (en_now env) (at_input s) (at_faults s) = markDecisionFreshnessFaultLatched (at_faults s)"
    by (simp add: freshness_mark_def)
  have "bit (atl_latch s) 3" if "fl_decisionFreshnessFaultActive (at_faults s)"
    using that reachable_inv [OF assms(1)] by (simp add: faults_inv_def faults_safe_def atl_latch_def)
  then show ?thesis
    by (auto simp: atl_step_def decisionFreshnessWatchdog_def mark markDecisionFreshnessFaultLatched_def Let_def
        atl_latch_def bit_or_iff latch_bits sendLatchedSafeHold_eq sendDecisionCommand_def send_packet
        cmd_packet_seal_def)
qed

theorem stale_decisions_latch_witness:
  "map cp_command (lk_out (at_link (atl_step example_cfg (example_env 7001) FreshnessTick example_start))) =
     [CMD_UNMUTE, CMD_SW_ERROR]"
  using stale_decisions_latch [OF example_reachable(1), of "example_env 7001"]
  by (simp add: example_start_eq atl_static_def example_cfg_def example_env_def ms_of_nonneg)

text \<open>
  C20. Loss of the gateway is caught. A watchdog round at which the silence of the gateway has lasted the
  stale time and as many periods as make up the configured maximum of misses leaves the miss count at that
  maximum and the heartbeat cause active and latched.
\<close>

theorem heartbeat_loss_latches:
  fixes cfg env s
  defines "elapsed \<equiv> ms_of (en_now env - in_hbLastRecvTime (at_input s))"
  assumes "atl_reachable cfg s" and "0 < cf_hbPeriodMs cfg" and "0 < cf_maxHbFailures cfg"
    and "uint (cf_hbStaleMs cfg) < elapsed" and "elapsed < 2 ^ 63"
    and "uint (cf_maxHbFailures cfg) \<le> 1 + (elapsed - uint (cf_hbStaleMs cfg)) div uint (cf_hbPeriodMs cfg)"
  shows "fl_hbFaultLatched (at_faults (atl_step cfg env HeartbeatTick s)) \<and>
    bit (atl_latch (atl_step cfg env HeartbeatTick s)) 0 \<and>
    fl_lastGatewayHbMissCount (at_faults (atl_step cfg env HeartbeatTick s)) = cf_maxHbFailures cfg"
proof -
  let ?s = "atl_step cfg env HeartbeatTick s"
  have "uint (gatewayMissFromElapsedMs cfg elapsed) = uint (cf_maxHbFailures cfg)"
    using miss_count_eq [OF assms(3,6)] assms(5,7) by simp
  then have m: "gatewayMissFromElapsedMs cfg elapsed = cf_maxHbFailures cfg" by (simp add: word_uint_eq_iff)
  have "fl_hbFaultLatched (at_faults ?s) \<and> fl_lastGatewayHbMissCount (at_faults ?s) = cf_maxHbFailures cfg"
    using m assms(4)
    by (auto simp: atl_step_def gatewayHeartbeatWatchdog_def heartbeat_mark_def Let_def case_prod_beta
        elapsed_def [symmetric] markGatewayHbFaultLatched_def)
  moreover have "faults_inv (at_faults ?s)" using step_inv reachable_inv [OF assms(2)] by blast
  ultimately show ?thesis by (simp add: faults_inv_def faults_safe_def atl_latch_def)
qed

theorem heartbeat_loss_latches_witness: "bit (atl_latch example_latched) 0"
proof -
  have "ms_of (en_now (example_env 60000) - in_hbLastRecvTime (at_input example_start)) = 60000"
    by (simp add: example_start_eq atl_static_def example_env_def ms_of_nonneg)
  then show ?thesis
    using heartbeat_loss_latches [OF example_reachable(1), of "example_env 60000"]
    unfolding example_latched_def by (simp add: example_cfg_def)
qed


text \<open>
  The miss count. For a positive period the count computed in machine integers is zero up to the stale time, then
  one more than the whole periods since, capped at the configured maximum.
\<close>

theorem gateway_miss_count:
  assumes "0 < cf_hbPeriodMs cfg" and "elapsed < 2 ^ 63"
  shows "uint (gatewayMissFromElapsedMs cfg elapsed) =
    (if elapsed \<le> uint (cf_hbStaleMs cfg) then 0
     else min (uint (cf_maxHbFailures cfg))
            (1 + (elapsed - uint (cf_hbStaleMs cfg)) div uint (cf_hbPeriodMs cfg)))"
  by (rule miss_count_eq [OF assms])

theorem gateway_miss_count_witness: "uint (gatewayMissFromElapsedMs example_cfg 16000) = 3"
  using gateway_miss_count [of example_cfg 16000] by (simp add: example_cfg_def)

end
