(* ===== verification/Pss_Delivery.thy ===== *)
theory Pss_Delivery
  imports Gateway_Contract Sdm_Request_State
begin

text \<open>
  The delivery fail-safe of the PSS daemon, \<^verbatim>\<open>NvPSSDeliveryFailSafe.hpp\<close>, and the status no-op,
  \<^verbatim>\<open>NvPSSStatusNoop.hpp\<close>: lane selection and release gate, request ids, response matching, critical-lane
  admission, the overflow latch, the list of refused reports and the ledger of abandoned batches.
\<close>

section \<open>Configuration bounds\<close>

definition NVPSS_PSS_TO_PSD_RETRY_BUDGET_DEFAULT :: u32 where "NVPSS_PSS_TO_PSD_RETRY_BUDGET_DEFAULT = 3"
definition NVPSS_PSS_TO_PSD_RETRY_BUDGET_MIN :: u32 where [pss_fs]: "NVPSS_PSS_TO_PSD_RETRY_BUDGET_MIN = 1"
definition NVPSS_PSS_TO_PSD_RETRY_BUDGET_MAX :: u32 where [pss_fs]: "NVPSS_PSS_TO_PSD_RETRY_BUDGET_MAX = 10"
definition NVPSS_PSS_TO_PSD_RETRY_WINDOW_MS_MAX :: u32 where [pss_fs]: "NVPSS_PSS_TO_PSD_RETRY_WINDOW_MS_MAX = 6000"
definition NVPSD_DECISION_RESPONSE_TIMEOUT_MS_DEFAULT :: u32 where "NVPSD_DECISION_RESPONSE_TIMEOUT_MS_DEFAULT = 2000"
definition NVPSD_DECISION_RESPONSE_TIMEOUT_MS_MIN :: u32 where [pss_fs]: "NVPSD_DECISION_RESPONSE_TIMEOUT_MS_MIN = 100"
definition NVPSD_DECISION_RESPONSE_TIMEOUT_MS_MAX :: u32 where [pss_fs]: "NVPSD_DECISION_RESPONSE_TIMEOUT_MS_MAX = 30000"
definition NVPSS_PSD_OPERATIONAL_QUEUE_DEPTH_MIN :: u32 where [pss_fs]: "NVPSS_PSD_OPERATIONAL_QUEUE_DEPTH_MIN = 8"
definition NVPSS_PSD_OPERATIONAL_QUEUE_DEPTH_MAX :: u32 where [pss_fs]: "NVPSS_PSD_OPERATIONAL_QUEUE_DEPTH_MAX = 512"
definition NVPSS_PSD_CRITICAL_QUEUE_DEPTH_MIN :: u32 where [pss_fs]: "NVPSS_PSD_CRITICAL_QUEUE_DEPTH_MIN = 8"
definition NVPSS_PSD_CRITICAL_QUEUE_DEPTH_MAX :: u32 where [pss_fs]: "NVPSS_PSD_CRITICAL_QUEUE_DEPTH_MAX = 512"

definition NvPSSDeliveryRetryBudgetIsValid :: "u32 \<Rightarrow> bool" where
  "NvPSSDeliveryRetryBudgetIsValid b \<longleftrightarrow>
     b \<ge> NVPSS_PSS_TO_PSD_RETRY_BUDGET_MIN \<and> b \<le> NVPSS_PSS_TO_PSD_RETRY_BUDGET_MAX"

definition NvPSSDeliveryResponseTimeoutMsIsValid :: "u32 \<Rightarrow> bool" where
  "NvPSSDeliveryResponseTimeoutMsIsValid t \<longleftrightarrow>
     t \<ge> NVPSD_DECISION_RESPONSE_TIMEOUT_MS_MIN \<and> t \<le> NVPSD_DECISION_RESPONSE_TIMEOUT_MS_MAX"

definition NvPSSDeliveryRetryWindowMs :: "u32 \<Rightarrow> u32 \<Rightarrow> u64" where
  "NvPSSDeliveryRetryWindowMs b t = ucast b * ucast t"

definition NvPSSDeliveryRetryWindowMsIsValid :: "u32 \<Rightarrow> u32 \<Rightarrow> bool" where
  "NvPSSDeliveryRetryWindowMsIsValid b t \<longleftrightarrow>
     NvPSSDeliveryRetryBudgetIsValid b \<and> NvPSSDeliveryResponseTimeoutMsIsValid t \<and>
     NvPSSDeliveryRetryWindowMs b t \<le> ucast NVPSS_PSS_TO_PSD_RETRY_WINDOW_MS_MAX"

section \<open>Delivery state\<close>

datatype NvPSSDeliveryState = DELIVERY_NORMAL | DELIVERY_RETRYING | DELIVERY_ERROR_ACTIVE

datatype NvPSSDeliveryFailureReason = REASON_NONE | PROCESS_DECISION_REQUEST_FAILED | RESPONSE_TIMEOUT

definition NvPSSDeliveryOperationalMode :: "NvPSSDeliveryState \<Rightarrow> OperationalMode \<Rightarrow> OperationalMode" where
  "NvPSSDeliveryOperationalMode state baseMode = (if state = DELIVERY_ERROR_ACTIVE then ERROR else baseMode)"

section \<open>Lanes and release gate\<close>

datatype NvPSSPsdSendPriority = PRIO_CRITICAL | PRIO_OPERATIONAL

definition NVPSS_PSD_SEND_NS_PER_US :: u64 where [pss_fs]: "NVPSS_PSD_SEND_NS_PER_US = 1000"
definition NVPSS_PSD_SEND_NS_PER_MS :: u64 where [pss_fs]: "NVPSS_PSD_SEND_NS_PER_MS = 1000000"
definition NVPSS_PSD_SEND_OPERATIONAL_RELEASE_PERIOD_US :: u64 where
  [pss_fs]: "NVPSS_PSD_SEND_OPERATIONAL_RELEASE_PERIOD_US = 2500"
definition NVPSS_PSD_STATUS_NOOP_ENQUEUE_RETRY_BACKOFF_NS :: u64 where
  [pss_fs]: "NVPSS_PSD_STATUS_NOOP_ENQUEUE_RETRY_BACKOFF_NS = 100 * NVPSS_PSD_SEND_NS_PER_MS"
definition NVPSS_PSD_SEND_FAILURE_RETRY_BACKOFF_NS :: u64 where
  [pss_fs]: "NVPSS_PSD_SEND_FAILURE_RETRY_BACKOFF_NS = 100 * NVPSS_PSD_SEND_NS_PER_MS"
definition NVPSS_PSD_BATCH_MAX_DELIVERY_ATTEMPTS :: u32 where
  [pss_fs]: "NVPSS_PSD_BATCH_MAX_DELIVERY_ATTEMPTS = 3"

record NvPSSPsdReleaseGate =
  rg_armed :: bool
  rg_deadlineNs :: u64

record NvPSSPsdReleaseSnapshot =
  sn_criticalQueued :: bool
  sn_operationalQueued :: bool
  sn_criticalYieldPending :: bool
  sn_operationalGate :: NvPSSPsdReleaseGate
  sn_nowNs :: u64

definition NvPSSPsdSaturatingAddNs :: "u64 \<Rightarrow> u64 \<Rightarrow> u64" where
  "NvPSSPsdSaturatingAddNs baseNs deltaNs =
     (if 0xFFFFFFFFFFFFFFFF - baseNs < deltaNs then 0xFFFFFFFFFFFFFFFF else baseNs + deltaNs)"

definition NvPSSPsdSendPriorityReleasePeriodNs :: "NvPSSPsdSendPriority \<Rightarrow> u64" where
  "NvPSSPsdSendPriorityReleasePeriodNs priority =
     (case priority of
        PRIO_OPERATIONAL \<Rightarrow> NVPSS_PSD_SEND_OPERATIONAL_RELEASE_PERIOD_US * NVPSS_PSD_SEND_NS_PER_US
      | PRIO_CRITICAL \<Rightarrow> 0)"

definition NvPSSPsdUpdateReleaseGate :: "bool \<Rightarrow> u64 \<Rightarrow> u64 \<Rightarrow> NvPSSPsdReleaseGate \<Rightarrow> NvPSSPsdReleaseGate" where
  "NvPSSPsdUpdateReleaseGate queued nowNs periodNs gate =
     (if \<not> queued then \<lparr>rg_armed = False, rg_deadlineNs = 0\<rparr>
      else if \<not> rg_armed gate
      then \<lparr>rg_armed = True, rg_deadlineNs = NvPSSPsdSaturatingAddNs nowNs periodNs\<rparr>
      else gate)"

definition NvPSSPsdForceReleaseGateDue :: "u64 \<Rightarrow> NvPSSPsdReleaseGate \<Rightarrow> NvPSSPsdReleaseGate" where
  "NvPSSPsdForceReleaseGateDue nowNs gate = \<lparr>rg_armed = True, rg_deadlineNs = nowNs\<rparr>"

definition NvPSSPsdAdvanceReleaseGateAfterSend ::
  "bool \<Rightarrow> u64 \<Rightarrow> u64 \<Rightarrow> NvPSSPsdReleaseGate \<Rightarrow> NvPSSPsdReleaseGate" where
  "NvPSSPsdAdvanceReleaseGateAfterSend stillQueued nowNs periodNs gate =
     (if \<not> stillQueued then \<lparr>rg_armed = False, rg_deadlineNs = 0\<rparr>
      else \<lparr>rg_armed = True, rg_deadlineNs = NvPSSPsdSaturatingAddNs nowNs periodNs\<rparr>)"

definition NvPSSPsdUpdateStatusNoopDeadline :: "bool \<Rightarrow> u64 \<Rightarrow> u64 \<Rightarrow> u64" where
  "NvPSSPsdUpdateStatusNoopDeadline enqueueSucceeded nowNs intervalNs =
     NvPSSPsdSaturatingAddNs nowNs
       (if enqueueSucceeded then intervalNs else NVPSS_PSD_STATUS_NOOP_ENQUEUE_RETRY_BACKOFF_NS)"

definition NvPSSPsdReleaseGateIsDue :: "bool \<Rightarrow> NvPSSPsdReleaseGate \<Rightarrow> u64 \<Rightarrow> bool" where
  "NvPSSPsdReleaseGateIsDue queued gate nowNs \<longleftrightarrow> queued \<and> rg_armed gate \<and> nowNs \<ge> rg_deadlineNs gate"

definition NvPSSPsdSelectDuePriority :: "NvPSSPsdReleaseSnapshot option \<Rightarrow> NvPSSPsdSendPriority option" where
  "NvPSSPsdSelectDuePriority snapshot =
     (case snapshot of None \<Rightarrow> None
      | Some s \<Rightarrow>
          if sn_criticalQueued s \<and> \<not> sn_criticalYieldPending s then Some PRIO_CRITICAL
          else if NvPSSPsdReleaseGateIsDue (sn_operationalQueued s) (sn_operationalGate s) (sn_nowNs s)
          then Some PRIO_OPERATIONAL
          else if sn_criticalQueued s then Some PRIO_CRITICAL
          else None)"

section \<open>Request ids and responses\<close>

definition NVPSS_DECISION_REQUEST_ID_MIN :: u32 where [pss_fs]: "NVPSS_DECISION_REQUEST_ID_MIN = 1"
definition NVPSS_DECISION_REQUEST_ID_MAX :: u32 where [pss_fs]: "NVPSS_DECISION_REQUEST_ID_MAX = 0xFFFFFFFF - 1"

definition NvPSSDecisionRequestIdIsValid :: "u32 \<Rightarrow> bool" where
  "NvPSSDecisionRequestIdIsValid requestId \<longleftrightarrow>
     requestId \<ge> NVPSS_DECISION_REQUEST_ID_MIN \<and> requestId \<le> NVPSS_DECISION_REQUEST_ID_MAX"

definition NvPSSNextDecisionRequestIdAfter :: "u32 \<Rightarrow> u32" where
  "NvPSSNextDecisionRequestIdAfter requestId =
     (if requestId \<ge> NVPSS_DECISION_REQUEST_ID_MAX then NVPSS_DECISION_REQUEST_ID_MIN else requestId + 1)"

text \<open>
  The compare-exchange loop returns from the exchange that succeeds, which sees the counter's current value:
  the id allocated and the counter afterwards.
\<close>

definition NvPSSAllocateSerializedDecisionRequestId :: "u32 \<Rightarrow> u32 \<times> u32" where
  "NvPSSAllocateSerializedDecisionRequestId observed =
     (let allocated = (if NvPSSDecisionRequestIdIsValid observed then observed else NVPSS_DECISION_REQUEST_ID_MIN)
      in (allocated, NvPSSNextDecisionRequestIdAfter allocated))"

definition NvPSSDecisionRequestIsStatusNoopOnly :: "DecisionRequest option \<Rightarrow> bool" where
  "NvPSSDecisionRequestIsStatusNoopOnly request =
     (case request of None \<Rightarrow> False
      | Some r \<Rightarrow> dr_sensorDataSummarySize r = 1 \<and> fe_type (dr_event0 r) = PSS_STATUS_NOOP)"

text \<open>Packed: a 32-bit id, an enum and a float.\<close>

definition decision_response_size :: int where "decision_response_size = 12"

definition NvPSSIsCompleteDecisionResponseSize :: "int \<Rightarrow> bool" where
  "NvPSSIsCompleteDecisionResponseSize receivedBytes \<longleftrightarrow> receivedBytes = decision_response_size"

definition NvPSSDecisionResponseMatchesRequest :: "DecisionRequest \<Rightarrow> DecisionResponse \<Rightarrow> bool" where
  "NvPSSDecisionResponseMatchesRequest request response \<longleftrightarrow>
     NvPSSDecisionRequestIdIsValid (dr_requestId request) \<and> rs_decisionId response = dr_requestId request"

datatype NvPSSDecisionResponseReceiveAction = RESP_ACCEPT | RESP_DISCARD_AND_CONTINUE | RESP_FAIL

definition NvPSSDecisionResponseReceiveActionFor ::
  "DecisionRequest \<Rightarrow> DecisionResponse \<Rightarrow> int \<Rightarrow> NvPSSDecisionResponseReceiveAction" where
  "NvPSSDecisionResponseReceiveActionFor request response receivedBytes =
     (if \<not> NvPSSIsCompleteDecisionResponseSize receivedBytes then RESP_FAIL
      else if \<not> NvPSSDecisionResponseMatchesRequest request response then RESP_DISCARD_AND_CONTINUE
      else RESP_ACCEPT)"

definition assign_noop_id :: "u32 \<Rightarrow> SensorData \<Rightarrow> SensorData" where
  "assign_noop_id requestId sd =
     (if fe_type (sd_event sd) = PSS_STATUS_NOOP then sd\<lparr>sd_event := (sd_event sd)\<lparr>fe_id := requestId\<rparr>\<rparr> else sd)"

definition NvPSSAssignSerializedDecisionRequestId :: "u32 \<Rightarrow> DecisionRequest \<Rightarrow> DecisionRequest" where
  "NvPSSAssignSerializedDecisionRequestId requestId request =
     (let count = min (unat (dr_sensorDataSummarySize request)) MAX_SENSORS_DATA_SUMMARY_SIZE
      in request\<lparr>dr_requestId := requestId,
           dr_sensorDataSummary := map (assign_noop_id requestId) (take count (dr_sensorDataSummary request)) @
             drop count (dr_sensorDataSummary request)\<rparr>)"

section \<open>Critical-lane admission\<close>

definition NvPSSPsdIsMustDeliverReport :: "EventType \<Rightarrow> bool" where
  "NvPSSPsdIsMustDeliverReport type \<longleftrightarrow>
     type = SW_FAIL \<or> type = SENSOR_INVALID \<or> type = SENSOR_VALID \<or>
     type = AI_PIPELINE_INVALID \<or> type = AI_PIPELINE_VALID"

text \<open>The scan from position \<open>i\<close> down to the protected front; \<open>None\<close> is the source's -1.\<close>

fun victim_scan :: "('a \<Rightarrow> bool) \<Rightarrow> 'a list \<Rightarrow> nat \<Rightarrow> nat \<Rightarrow> nat option" where
  "victim_scan evictable lane protectedFront 0 = None"
| "victim_scan evictable lane protectedFront (Suc i) =
     (if Suc i \<le> protectedFront then None
      else if evictable (lane ! i) then Some i
      else victim_scan evictable lane protectedFront i)"

definition NvPSSPsdCriticalLaneVictim :: "('a \<Rightarrow> bool) \<Rightarrow> 'a list \<Rightarrow> nat \<Rightarrow> nat option" where
  "NvPSSPsdCriticalLaneVictim evictable lane protectedFront =
     victim_scan evictable lane protectedFront (length lane)"

text \<open>
  The overflow latch. Its 64-bit generation, advanced once per refused report, is a natural number
  here: at one refusal per nanosecond it would wrap after 584 years.
\<close>

record NvPSSPsdCriticalOverflowLatch =
  ov_active :: bool
  ov_generation :: nat
  ov_deliveredGeneration :: nat

definition overflow_initial :: NvPSSPsdCriticalOverflowLatch where
  "overflow_initial = \<lparr>ov_active = False, ov_generation = 0, ov_deliveredGeneration = 0\<rparr>"

definition overflow_raise :: "NvPSSPsdCriticalOverflowLatch \<Rightarrow> bool \<times> NvPSSPsdCriticalOverflowLatch" where
  "overflow_raise l = (\<not> ov_active l, l\<lparr>ov_active := True, ov_generation := ov_generation l + 1\<rparr>)"

definition stampGeneration :: "NvPSSPsdCriticalOverflowLatch \<Rightarrow> nat" where
  "stampGeneration l = (if ov_active l then ov_generation l else 0)"

definition noteStampDelivered :: "nat \<Rightarrow> NvPSSPsdCriticalOverflowLatch \<Rightarrow> NvPSSPsdCriticalOverflowLatch" where
  "noteStampDelivered generation l =
     (if generation = 0 then l
      else if generation > ov_deliveredGeneration l then l\<lparr>ov_deliveredGeneration := generation\<rparr> else l)"

definition clearIfDrained ::
  "nat \<Rightarrow> nat \<Rightarrow> bool \<Rightarrow> NvPSSPsdCriticalOverflowLatch \<Rightarrow> bool \<times> NvPSSPsdCriticalOverflowLatch" where
  "clearIfDrained depth capacity refusedOutstanding l =
     (if \<not> ov_active l \<or> (of_nat depth * 2 :: u64) > of_nat capacity \<or>
         ov_deliveredGeneration l < ov_generation l \<or> refusedOutstanding
      then (False, l) else (True, l\<lparr>ov_active := False\<rparr>))"

section \<open>Refused reports\<close>

definition NVPSS_PSD_REFUSED_PENDING_MAX :: nat where [pss_fs]: "NVPSS_PSD_REFUSED_PENDING_MAX = 32"

definition NvPSSPsdVerdictSlotClass :: "EventType \<Rightarrow> nat" where
  "NvPSSPsdVerdictSlotClass type =
     (if type = SENSOR_INVALID \<or> type = SENSOR_VALID then 1
      else if type = AI_PIPELINE_INVALID \<or> type = AI_PIPELINE_VALID then 2 else 0)"

definition NvPSSPsdSameVerdictSlot :: "FusedSafetyEvent \<Rightarrow> FusedSafetyEvent \<Rightarrow> bool" where
  "NvPSSPsdSameVerdictSlot a b =
     (let cls = NvPSSPsdVerdictSlotClass (fe_type a) in
      if cls = 0 \<or> cls \<noteq> NvPSSPsdVerdictSlotClass (fe_type b) then False
      else if cls = 2 then True
      else fm_pipelineID (fe_fusionMetadata a) = fm_pipelineID (fe_fusionMetadata b))"

text \<open>The entries kept; the source also counts the ones dropped.\<close>

definition NvPSSPsdDropSupersededRefused :: "('a \<Rightarrow> FusedSafetyEvent) \<Rightarrow> FusedSafetyEvent \<Rightarrow> 'a list \<Rightarrow> 'a list" where
  "NvPSSPsdDropSupersededRefused event newer pending =
     filter (\<lambda>e. \<not> NvPSSPsdSameVerdictSlot (event e) newer) pending"

definition NvPSSPsdRetainRefused :: "('a \<Rightarrow> FusedSafetyEvent) \<Rightarrow> 'a \<Rightarrow> nat \<Rightarrow> 'a list \<Rightarrow> bool \<times> 'a list" where
  "NvPSSPsdRetainRefused event refused mx pending =
     (let pending = NvPSSPsdDropSupersededRefused event (event refused) pending in
      if length pending \<ge> mx then (False, pending) else (True, pending @ [refused]))"

section \<open>Abandoned batches\<close>

definition digit_char :: "nat \<Rightarrow> char" where "digit_char d = char_of (48 + d)"

fun to_string :: "nat \<Rightarrow> string" where
  "to_string n = (if n < 10 then [digit_char n] else to_string (n div 10) @ [digit_char (n mod 10)])"

declare to_string.simps [simp del]

definition to_string_int :: "int \<Rightarrow> string" where
  "to_string_int i = (if i < 0 then CHR ''-'' # to_string (nat (- i)) else to_string (nat i))"

fun join_with :: "string \<Rightarrow> string list \<Rightarrow> string" where
  "join_with sep [] = []"
| "join_with sep [s] = s"
| "join_with sep (s # t # ss) = s @ sep @ join_with sep (t # ss)"

definition NvPSSPsdDescribeEvents :: "FusedSafetyEvent list option \<Rightarrow> string" where
  "NvPSSPsdDescribeEvents events =
     ''['' @ (case events of None \<Rightarrow> [] | Some evs \<Rightarrow>
        join_with '','' (map (\<lambda>ev. to_string (unat (fe_id ev)) @ '':'' @ to_string_int (sint (fe_type ev)) @ '':'' @
          to_string (unat (fm_pipelineID (fe_fusionMetadata ev))) @ '':'' @
          to_string (unat (fm_clientID (fe_fusionMetadata ev)))) evs)) @ '']''"

definition kListedRequestIds :: nat where "kListedRequestIds = 8"

record NvPSSPsdUndeliverableLedger =
  ul_batches :: u64
  ul_events :: u64
  ul_requestIds :: "u32 list"

definition ledger_empty :: NvPSSPsdUndeliverableLedger where
  "ledger_empty = \<lparr>ul_batches = 0, ul_events = 0, ul_requestIds = []\<rparr>"

definition noteAbandoned :: "u32 \<Rightarrow> nat \<Rightarrow> NvPSSPsdUndeliverableLedger \<Rightarrow> NvPSSPsdUndeliverableLedger" where
  "noteAbandoned requestId eventCount l =
     (let ids = ul_requestIds l @ [requestId]
      in \<lparr>ul_batches = ul_batches l + 1, ul_events = ul_events l + of_nat eventCount,
          ul_requestIds = (if length ids > kListedRequestIds then tl ids else ids)\<rparr>)"

definition ledger_pending :: "NvPSSPsdUndeliverableLedger \<Rightarrow> bool" where
  "ledger_pending l \<longleftrightarrow> ul_batches l \<noteq> 0"

definition takeResumed :: "u32 \<Rightarrow> NvPSSPsdUndeliverableLedger \<Rightarrow> string \<times> NvPSSPsdUndeliverableLedger" where
  "takeResumed deliveredRequestId l =
     (if ul_batches l = 0 then ([], l)
      else
        (''requestId='' @ to_string (unat deliveredRequestId) @
         '', abandonedBatches='' @ to_string (unat (ul_batches l)) @
         '', abandonedEvents='' @ to_string (unat (ul_events l)) @
         '', abandonedRequestIds=['' @ join_with '','' (map (\<lambda>i. to_string (unat i)) (ul_requestIds l)) @ '']'' @
         (if unat (ul_batches l) > length (ul_requestIds l)
          then '' (the last '' @ to_string (length (ul_requestIds l)) @ '')'' else []),
         ledger_empty))"

section \<open>The status no-op\<close>

definition NVPSS_STATUS_NOOP_INTERVAL_MS_DEFAULT :: u32 where "NVPSS_STATUS_NOOP_INTERVAL_MS_DEFAULT = 5000"
definition NVPSS_STATUS_NOOP_INTERVAL_MS_MIN :: u32 where [pss_fs]: "NVPSS_STATUS_NOOP_INTERVAL_MS_MIN = 100"
definition NVPSS_STATUS_NOOP_INTERVAL_MS_MAX :: u32 where [pss_fs]: "NVPSS_STATUS_NOOP_INTERVAL_MS_MAX = 600000"

definition NvPSSStatusNoopIntervalMsIsValid :: "u32 \<Rightarrow> bool" where
  "NvPSSStatusNoopIntervalMsIsValid ms \<longleftrightarrow>
     ms \<ge> NVPSS_STATUS_NOOP_INTERVAL_MS_MIN \<and> ms \<le> NVPSS_STATUS_NOOP_INTERVAL_MS_MAX"

definition NvPSSPackPresenceWord :: "u32 \<Rightarrow> u32 \<Rightarrow> u32" where
  "NvPSSPackPresenceWord presenceSet inputStateSet =
     (presenceSet AND 0x0000FFFF) OR push_bit PSS_INPUT_STATE_SHIFT (inputStateSet AND PSS_INPUT_STATE_MASK)"

definition NvPSSStampSourcePresence :: "u32 \<Rightarrow> u32 \<Rightarrow> FusedSafetyEvent \<Rightarrow> FusedSafetyEvent" where
  "NvPSSStampSourcePresence presenceMask expectedMask event =
     event\<lparr>fe_cause := CAUSE_SOURCE_PRESENCE,
       fe_fusionMetadata := (fe_fusionMetadata event)\<lparr>fm_objectID := (presenceMask, expectedMask)\<rparr>\<rparr>"

definition NvPSSBuildStatusNoopFusedEvent :: "u32 \<Rightarrow> u64 \<Rightarrow> u32 \<Rightarrow> u32 \<Rightarrow> FusedSafetyEvent" where
  "NvPSSBuildStatusNoopFusedEvent eventId timestampNs presenceMask expectedMask =
     NvPSSStampSourcePresence presenceMask expectedMask
       (zero_event\<lparr>fe_id := eventId, fe_type := PSS_STATUS_NOOP, fe_severity := OPERATIONAL,
          fe_timestamp := timestampNs, fe_confidenceLevel := F32_ONE, fe_status := PASSTHROUGH,
          fe_fusionMetadata := zero_metadata\<lparr>fm_objectType := (OBJECT, OBJECT)\<rparr>,
          fe_sensorIdentifier := snprintf_identifier ''PSS_DAEMON''\<rparr>)"

definition NvPSSBuildStatusNoopDecisionRequest :: "u32 \<Rightarrow> SystemStatus \<Rightarrow> u64 \<Rightarrow> DecisionRequest" where
  "NvPSSBuildStatusNoopDecisionRequest requestId pssStatus timestampNs =
     zero_request\<lparr>dr_requestId := requestId, dr_pssStatus := pssStatus, dr_sensorDataSummarySize := 1,
       dr_sensorDataSummary := (dr_sensorDataSummary zero_request)[0 :=
         zero_sensor_data\<lparr>sd_clientID := 0, sd_isHealthy := True, sd_isTrustedSource := True,
           sd_event := zero_event\<lparr>fe_id := requestId, fe_type := PSS_STATUS_NOOP,
             fe_severity := (if ss_mode pssStatus = ERROR then CRITICAL else OPERATIONAL),
             fe_timestamp := timestampNs, fe_confidenceLevel := F32_ONE, fe_status := PASSTHROUGH,
             fe_fusionMetadata := zero_metadata\<lparr>fm_objectType := (OBJECT, OBJECT)\<rparr>,
             fe_sensorIdentifier := snprintf_identifier ''PSS_DAEMON'', fe_cause := CAUSE_NONE\<rparr>\<rparr>]\<rparr>"

section \<open>The victim\<close>

lemma victim_scan_Some:
  "victim_scan ev lane k n = Some i \<longleftrightarrow> k \<le> i \<and> i < n \<and> ev (lane ! i) \<and> (\<forall>j. i < j \<and> j < n \<longrightarrow> \<not> ev (lane ! j))"
  by (induction n) (auto simp: less_Suc_eq not_le less_Suc_eq_le)

lemma victim_scan_None: "victim_scan ev lane k n = None \<longleftrightarrow> (\<forall>i. k \<le> i \<and> i < n \<longrightarrow> \<not> ev (lane ! i))"
proof (induction n)
  case (Suc n)
  then show ?case by (cases "k \<le> n") (auto simp: less_Suc_eq)
qed simp

lemma victim_Some:
  "NvPSSPsdCriticalLaneVictim ev lane k = Some i \<longleftrightarrow>
     k \<le> i \<and> i < length lane \<and> ev (lane ! i) \<and> (\<forall>j. i < j \<and> j < length lane \<longrightarrow> \<not> ev (lane ! j))"
  by (simp add: NvPSSPsdCriticalLaneVictim_def victim_scan_Some)

lemma victim_None:
  "NvPSSPsdCriticalLaneVictim ev lane k = None \<longleftrightarrow> (\<forall>e\<in>set (drop k lane). \<not> ev e)"
proof -
  have "(\<forall>e\<in>set (drop k lane). \<not> ev e) \<longleftrightarrow> (\<forall>j < length lane - k. \<not> ev (lane ! (k + j)))"
    by (auto simp: all_set_conv_all_nth)
  also have "\<dots> \<longleftrightarrow> (\<forall>i. k \<le> i \<and> i < length lane \<longrightarrow> \<not> ev (lane ! i))"
    by (metis add_diff_inverse_nat diff_less_mono le_add1 less_diff_conv linorder_not_less add.commute)
  finally show ?thesis by (simp add: NvPSSPsdCriticalLaneVictim_def victim_scan_None)
qed

section \<open>The presence words\<close>

lemma bit_low_half: "bit (0xFFFF :: u32) n \<longleftrightarrow> n < 16"
proof -
  have "(0xFFFF :: u32) = mask 16" by (simp add: mask_eq_exp_minus_1)
  then show ?thesis by (simp only: bit_mask_iff) auto
qed

lemma bit_input_state: "bit PSS_INPUT_STATE_MASK n \<Longrightarrow> n < 16"
proof -
  have "PSS_INPUT_STATE_MASK AND 0xFFFF = PSS_INPUT_STATE_MASK" by (simp add: pss_enum)
  then show "bit PSS_INPUT_STATE_MASK n \<Longrightarrow> n < 16" by (metis bit_and_iff bit_low_half)
qed

lemma pack_presence_bits:
  "bit (NvPSSPackPresenceWord p i) n \<longleftrightarrow>
     (if n < 16 then bit p n else bit i (n - 16) \<and> bit PSS_INPUT_STATE_MASK (n - 16))"
proof -
  have "bit (push_bit 16 (i AND PSS_INPUT_STATE_MASK)) n \<longleftrightarrow>
      16 \<le> n \<and> bit i (n - 16) \<and> bit PSS_INPUT_STATE_MASK (n - 16)"
    using bit_input_state [of "n - 16"] by (simp only: bit_push_bit_iff bit_and_iff) auto
  then show ?thesis
    unfolding NvPSSPackPresenceWord_def PSS_INPUT_STATE_SHIFT_def bit_or_iff
    by (simp only: bit_and_iff bit_low_half) (simp add: not_less)
qed

lemma pack_presence_low: "NvPSSPackPresenceWord p i AND 0xFFFF = p AND 0xFFFF"
  by (rule bit_eqI) (simp only: bit_and_iff bit_low_half pack_presence_bits split: if_split, blast)

lemma pack_presence_high:
  "drop_bit PSS_INPUT_STATE_SHIFT (NvPSSPackPresenceWord p i) AND PSS_INPUT_STATE_MASK = i AND PSS_INPUT_STATE_MASK"
  by (rule bit_eqI) (simp add: bit_and_iff bit_drop_bit_eq pack_presence_bits PSS_INPUT_STATE_SHIFT_def)

text \<open>A presence word read through any mask of the low half gives the presence set.\<close>

lemma pack_presence_masked:
  assumes "m AND 0xFFFF = m"
  shows "NvPSSPackPresenceWord p i AND m = p AND m"
proof -
  have "bit m n \<Longrightarrow> n < 16" for n using assms by (metis bit_and_iff bit_low_half)
  then show ?thesis by (intro bit_eqI) (auto simp: bit_and_iff pack_presence_bits)
qed

section \<open>The overflow latch\<close>

text \<open>What can happen to the latch: a refusal, an acknowledgement of a stamp, an attempt to clear.\<close>

datatype overflow_op = Refused | Delivered nat | TryClear nat nat bool

definition overflow_step :: "overflow_op \<Rightarrow> NvPSSPsdCriticalOverflowLatch \<Rightarrow> NvPSSPsdCriticalOverflowLatch" where
  "overflow_step q l =
     (case q of Refused \<Rightarrow> snd (overflow_raise l) | Delivered g \<Rightarrow> noteStampDelivered g l
      | TryClear d c r \<Rightarrow> snd (clearIfDrained d c r l))"

lemmas overflow_defs = overflow_step_def overflow_raise_def noteStampDelivered_def clearIfDrained_def

lemma overflow_held:
  assumes "ov_active l" and "g \<le> ov_generation l" and "ov_deliveredGeneration l < g"
    and "\<forall>h. Delivered h \<in> set ops \<longrightarrow> h < g"
  shows "ov_active (fold overflow_step ops l)"
  using assms
proof (induction ops arbitrary: l)
  case (Cons q ops)
  have "ov_active (overflow_step q l) \<and> g \<le> ov_generation (overflow_step q l) \<and>
      ov_deliveredGeneration (overflow_step q l) < g"
    using Cons.prems by (cases q) (auto simp: overflow_defs)
  then show ?case using Cons by simp
qed simp

section \<open>Refused reports\<close>

lemma same_slot_sym: "NvPSSPsdSameVerdictSlot a b \<Longrightarrow> NvPSSPsdSameVerdictSlot b a"
  by (auto simp: NvPSSPsdSameVerdictSlot_def Let_def split: if_splits)

lemma same_slot_trans:
  "NvPSSPsdSameVerdictSlot a b \<Longrightarrow> NvPSSPsdSameVerdictSlot b c \<Longrightarrow> NvPSSPsdSameVerdictSlot a c"
  by (auto simp: NvPSSPsdSameVerdictSlot_def Let_def split: if_splits)

lemma retain_length: "length pending \<le> mx \<Longrightarrow> length (snd (NvPSSPsdRetainRefused event e mx pending)) \<le> mx"
  using length_filter_le [of "\<lambda>x. \<not> NvPSSPsdSameVerdictSlot (event x) (event e)" pending]
  unfolding NvPSSPsdRetainRefused_def NvPSSPsdDropSupersededRefused_def Let_def by (auto simp del: length_filter_le)

section \<open>Request ids\<close>

text \<open>The ids of \<open>n\<close> successive requests, from the counter's value.\<close>

fun allocate_ids :: "nat \<Rightarrow> u32 \<Rightarrow> u32 list" where
  "allocate_ids 0 c = []"
| "allocate_ids (Suc n) c = (let (i, c) = NvPSSAllocateSerializedDecisionRequestId c in i # allocate_ids n c)"

lemma valid_id_iff: "NvPSSDecisionRequestIdIsValid i \<longleftrightarrow> wrap_valid i"
  by (simp add: NvPSSDecisionRequestIdIsValid_def wrap_valid_def pss_fs)

lemma next_id_eq: "NvPSSNextDecisionRequestIdAfter = wrap_next"
  by (simp add: fun_eq_iff NvPSSNextDecisionRequestIdAfter_def wrap_next_def pss_fs)

lemma allocate_ids_stream: "wrap_valid c \<Longrightarrow> allocate_ids n c = wrap_stream c n"
proof (induction n arbitrary: c)
  case 0
  then show ?case by (simp add: wrap_stream_def)
next
  case (Suc n)
  then show ?case
    by (simp add: wrap_stream_Cons NvPSSAllocateSerializedDecisionRequestId_def valid_id_iff next_id_eq Let_def)
qed

lemma allocated_valid: "wrap_valid (fst (NvPSSAllocateSerializedDecisionRequestId c))"
  by (auto simp: NvPSSAllocateSerializedDecisionRequestId_def Let_def valid_id_iff wrap_valid_def pss_fs)

end
