(* ===== verification/Pss_Staging.thy ===== *)
theory Pss_Staging
  imports Pss_Delivery
begin

text \<open>
  The two staging lanes of the PSS daemon between the event processor and the sender,
  \<^verbatim>\<open>NvPSSSafetyEventManager.cpp\<close>: admission with eviction, the ordered operational lane, removal by
  sequence number, re-admission of refused reports and the recovery from an overflow of the critical lane. Each
  operation holds the lane's mutex throughout, so it is one step here.
\<close>

section \<open>State\<close>

record TrustState =
  ts_sensorInvalid :: bool
  ts_aiPipelineInvalid :: bool

text \<open>
  The 64-bit enqueue counter is a natural number: the source relies on it never being reused, and at one
  enqueue per nanosecond it would wrap after 584 years.
\<close>

record PsdQueuedEvent =
  qe_clientId :: int
  qe_seq :: nat
  qe_event :: FusedSafetyEvent
  qe_queuedTrust :: TrustState
  qe_evictable :: bool

record PssStagingCfg =
  sc_operationalDepth :: u32
  sc_criticalDepth :: u32

record PssStaging =
  sg_critical :: "PsdQueuedEvent list"
  sg_operational :: "PsdQueuedEvent list"
  sg_enqueueSeq :: nat
  sg_acceptedCount :: u64
  sg_droppedCount :: u64
  sg_operationalHighWater :: u64
  sg_criticalHighWater :: u64
  sg_undeliverableCount :: u64
  sg_ledger :: NvPSSPsdUndeliverableLedger
  sg_evictedCount :: u64
  sg_overflow :: NvPSSPsdCriticalOverflowLatch
  sg_refusedPending :: "PsdQueuedEvent list"
  sg_readmittedSeqMax :: nat
  sg_refusedLost :: u64

definition staging_initial :: PssStaging where
  "staging_initial =
     \<lparr>sg_critical = [], sg_operational = [], sg_enqueueSeq = 0, sg_acceptedCount = 0, sg_droppedCount = 0,
      sg_operationalHighWater = 0, sg_criticalHighWater = 0, sg_undeliverableCount = 0, sg_ledger = ledger_empty,
      sg_evictedCount = 0, sg_overflow = overflow_initial, sg_refusedPending = [], sg_readmittedSeqMax = 0,
      sg_refusedLost = 0\<rparr>"

text \<open>The constructor clamps the configured depths.\<close>

definition clamp_depth :: "u32 \<Rightarrow> u32 \<Rightarrow> u32 \<Rightarrow> u32" where
  "clamp_depth lo hi d = (if d < lo then lo else if d > hi then hi else d)"

definition staging_cfg :: "u32 \<Rightarrow> u32 \<Rightarrow> PssStagingCfg" where
  "staging_cfg operationalDepth criticalDepth =
     \<lparr>sc_operationalDepth = clamp_depth NVPSS_PSD_OPERATIONAL_QUEUE_DEPTH_MIN
        NVPSS_PSD_OPERATIONAL_QUEUE_DEPTH_MAX operationalDepth,
      sc_criticalDepth = clamp_depth NVPSS_PSD_CRITICAL_QUEUE_DEPTH_MIN
        NVPSS_PSD_CRITICAL_QUEUE_DEPTH_MAX criticalDepth\<rparr>"

section \<open>Routing\<close>

definition NvPSSEventTypeRequiresCriticalDelivery :: "EventType \<Rightarrow> bool" where
  "NvPSSEventTypeRequiresCriticalDelivery type = NvPSSPsdIsMustDeliverReport type"

definition NvPSSPsdEvictable :: "FusedSafetyEvent \<Rightarrow> bool \<Rightarrow> bool" where
  "NvPSSPsdEvictable event sourceDistrusted \<longleftrightarrow>
     \<not> NvPSSPsdIsMustDeliverReport (fe_type event) \<and> (sourceDistrusted \<or> fe_status event = STALE)"

definition NvPSSClassifyPsdSeverity :: "FusedSafetyEvent \<Rightarrow> bool \<Rightarrow> bool \<Rightarrow> OperationalMode \<Rightarrow> SeverityLevel" where
  "NvPSSClassifyPsdSeverity event isHealthy isTrustedSource mode =
     (if mode = ERROR \<or> fe_severity event = CRITICAL \<or>
         NvPSSEventTypeRequiresCriticalDelivery (fe_type event) \<or> \<not> isHealthy \<or> \<not> isTrustedSource
      then CRITICAL else OPERATIONAL)"

definition NvPSSPsdSendPriorityFromSeverity :: "SeverityLevel \<Rightarrow> NvPSSPsdSendPriority" where
  "NvPSSPsdSendPriorityFromSeverity severity = (if severity = CRITICAL then PRIO_CRITICAL else PRIO_OPERATIONAL)"

section \<open>Admission\<close>

definition queued_earlier :: "PsdQueuedEvent \<Rightarrow> PsdQueuedEvent \<Rightarrow> bool" where
  "queued_earlier p e \<longleftrightarrow>
     fe_timestamp (qe_event p) < fe_timestamp (qe_event e) \<or>
     fe_timestamp (qe_event p) = fe_timestamp (qe_event e) \<and> qe_seq p < qe_seq e"

text \<open>The scan from the back stops at the first entry that is earlier.\<close>

definition insertOperationalOrdered :: "PsdQueuedEvent \<Rightarrow> PsdQueuedEvent list \<Rightarrow> PsdQueuedEvent list" where
  "insertOperationalOrdered e q =
     rev (dropWhile (\<lambda>p. \<not> queued_earlier p e) (rev q)) @ e #
     rev (takeWhile (\<lambda>p. \<not> queued_earlier p e) (rev q))"

definition drop_superseded :: "FusedSafetyEvent \<Rightarrow> PsdQueuedEvent list \<Rightarrow> PsdQueuedEvent list" where
  "drop_superseded newer pending = NvPSSPsdDropSupersededRefused qe_event newer pending"

text \<open>Admission to the operational lane: whether it was queued, and the state.\<close>

definition enqueue_operational :: "PssStagingCfg \<Rightarrow> PsdQueuedEvent \<Rightarrow> PssStaging \<Rightarrow> bool \<times> PssStaging" where
  "enqueue_operational cfg entry s =
     (if length (sg_operational s) < unat (sc_operationalDepth cfg)
      then (True, s\<lparr>sg_operational := insertOperationalOrdered (entry\<lparr>qe_seq := sg_enqueueSeq s\<rparr>) (sg_operational s),
                    sg_enqueueSeq := sg_enqueueSeq s + 1\<rparr>)
      else (False, s))"

text \<open>Admission to the critical lane: append, evict, or refuse and keep.\<close>

definition critical_append :: "PsdQueuedEvent \<Rightarrow> PssStaging \<Rightarrow> PssStaging" where
  "critical_append entry s =
     s\<lparr>sg_critical := sg_critical s @ [entry\<lparr>qe_seq := sg_enqueueSeq s\<rparr>],
       sg_enqueueSeq := sg_enqueueSeq s + 1,
       sg_refusedPending := drop_superseded (qe_event entry) (sg_refusedPending s)\<rparr>"

definition critical_refuse :: "PsdQueuedEvent \<Rightarrow> PssStaging \<Rightarrow> PssStaging" where
  "critical_refuse entry s =
     (let (_, ov) = overflow_raise (sg_overflow s);
          (retained, pending) =
            NvPSSPsdRetainRefused qe_event entry NVPSS_PSD_REFUSED_PENDING_MAX (sg_refusedPending s)
      in s\<lparr>sg_overflow := ov, sg_refusedPending := pending,
           sg_refusedLost := sg_refusedLost s + (if retained then 0 else 1)\<rparr>)"

definition enqueue_critical :: "PssStagingCfg \<Rightarrow> PsdQueuedEvent \<Rightarrow> PssStaging \<Rightarrow> bool \<times> PssStaging" where
  "enqueue_critical cfg entry s =
     (if length (sg_critical s) < unat (sc_criticalDepth cfg) then (True, critical_append entry s)
      else if NvPSSPsdIsMustDeliverReport (fe_type (qe_event entry)) then
        (case NvPSSPsdCriticalLaneVictim qe_evictable (sg_critical s) MAX_SENSORS_DATA_SUMMARY_SIZE of
           Some victim \<Rightarrow>
             (True, critical_append entry
                (s\<lparr>sg_critical := take victim (sg_critical s) @ drop (Suc victim) (sg_critical s),
                   sg_evictedCount := sg_evictedCount s + 1\<rparr>))
         | None \<Rightarrow> (False, critical_refuse entry s))
      else (False, s))"

definition enqueuePsdFusedEvent ::
  "PssStagingCfg \<Rightarrow> NvPSSPsdSendPriority \<Rightarrow> int \<Rightarrow> FusedSafetyEvent \<Rightarrow> bool \<Rightarrow> TrustState \<Rightarrow>
   PssStaging \<Rightarrow> bool \<times> PssStaging" where
  "enqueuePsdFusedEvent cfg priority clientId event evictable queuedTrust s =
     (let operational = (priority = PRIO_OPERATIONAL);
          entry = \<lparr>qe_clientId = clientId, qe_seq = 0, qe_event = event, qe_queuedTrust = queuedTrust,
                   qe_evictable = (\<not> operational \<and> evictable)\<rparr>;
          (queued, s) = (if operational then enqueue_operational cfg entry s else enqueue_critical cfg entry s)
      in if \<not> queued then (False, s\<lparr>sg_droppedCount := sg_droppedCount s + 1\<rparr>)
         else
           (let s = s\<lparr>sg_acceptedCount := sg_acceptedCount s + 1\<rparr>
            in (True,
                if operational
                then s\<lparr>sg_operationalHighWater :=
                         max (sg_operationalHighWater s) (of_nat (length (sg_operational s)))\<rparr>
                else s\<lparr>sg_criticalHighWater :=
                         max (sg_criticalHighWater s) (of_nat (length (sg_critical s)))\<rparr>)))"

definition no_distrust :: TrustState where
  "no_distrust = \<lparr>ts_sensorInvalid = False, ts_aiPipelineInvalid = False\<rparr>"

definition enqueueStatusNoopEvent :: "PssStagingCfg \<Rightarrow> u64 \<Rightarrow> PssStaging \<Rightarrow> bool \<times> PssStaging" where
  "enqueueStatusNoopEvent cfg timestampNs s =
     enqueue_operational cfg
       \<lparr>qe_clientId = 0, qe_seq = 0, qe_event = NvPSSBuildStatusNoopFusedEvent 0 timestampNs 0 0,
        qe_queuedTrust = no_distrust, qe_evictable = False\<rparr> s"

section \<open>Removal\<close>

fun remove_seq :: "nat \<Rightarrow> PsdQueuedEvent list \<Rightarrow> PsdQueuedEvent list" where
  "remove_seq wanted [] = []"
| "remove_seq wanted (e # q) = (if qe_seq e = wanted then q else e # remove_seq wanted q)"

fun readmit :: "nat \<Rightarrow> PsdQueuedEvent list \<Rightarrow> PssStaging \<Rightarrow> PssStaging" where
  "readmit capacity [] s = s\<lparr>sg_refusedPending := []\<rparr>"
| "readmit capacity (e # es) s =
     (if length (sg_critical s) < capacity
      then readmit capacity es
             (s\<lparr>sg_critical := sg_critical s @ [e\<lparr>qe_seq := sg_enqueueSeq s, qe_evictable := False\<rparr>],
                sg_readmittedSeqMax := sg_enqueueSeq s, sg_enqueueSeq := sg_enqueueSeq s + 1\<rparr>)
      else s\<lparr>sg_refusedPending := e # es\<rparr>)"

definition readmittedInLane :: "PssStaging \<Rightarrow> bool" where
  "readmittedInLane s \<longleftrightarrow>
     sg_readmittedSeqMax s \<noteq> 0 \<and> list_ex (\<lambda>e. qe_seq e \<le> sg_readmittedSeqMax s) (sg_critical s)"

definition maybeClearCriticalLaneOverflow :: "PssStagingCfg \<Rightarrow> PssStaging \<Rightarrow> PssStaging" where
  "maybeClearCriticalLaneOverflow cfg s =
     (if \<not> ov_active (sg_overflow s) then s
      else
        (let capacity = unat (sc_criticalDepth cfg);
             s = readmit capacity (sg_refusedPending s) s;
             refusedOutstanding = (sg_refusedPending s \<noteq> [] \<or> readmittedInLane s)
         in s\<lparr>sg_overflow :=
                snd (clearIfDrained (length (sg_critical s)) capacity refusedOutstanding (sg_overflow s))\<rparr>))"

definition commitQueuedEvents :: "PssStagingCfg \<Rightarrow> NvPSSPsdSendPriority \<Rightarrow> nat list \<Rightarrow> PssStaging \<Rightarrow> PssStaging" where
  "commitQueuedEvents cfg priority seqs s =
     (if seqs = [] then s
      else maybeClearCriticalLaneOverflow cfg
             (case priority of
                PRIO_CRITICAL \<Rightarrow> s\<lparr>sg_critical := fold remove_seq seqs (sg_critical s)\<rparr>
              | PRIO_OPERATIONAL \<Rightarrow> s\<lparr>sg_operational := fold remove_seq seqs (sg_operational s)\<rparr>))"

definition dropUndeliverableBatch ::
  "PssStagingCfg \<Rightarrow> NvPSSPsdSendPriority \<Rightarrow> nat list \<Rightarrow> u32 \<Rightarrow> PssStaging \<Rightarrow> PssStaging" where
  "dropUndeliverableBatch cfg priority seqs requestId s =
     (if seqs = [] then s
      else commitQueuedEvents cfg priority seqs
             (s\<lparr>sg_undeliverableCount := sg_undeliverableCount s + of_nat (length seqs),
                sg_ledger := noteAbandoned requestId (length seqs) (sg_ledger s)\<rparr>))"

definition onPsdRequestAcknowledged ::
  "PssStagingCfg \<Rightarrow> NvPSSPsdSendPriority \<Rightarrow> nat list \<Rightarrow> nat \<Rightarrow> u32 \<Rightarrow> PssStaging \<Rightarrow> PssStaging" where
  "onPsdRequestAcknowledged cfg priority seqs stampGen requestId s =
     commitQueuedEvents cfg priority seqs
       (s\<lparr>sg_overflow := noteStampDelivered stampGen (sg_overflow s),
          sg_ledger := snd (takeResumed requestId (sg_ledger s))\<rparr>)"

definition hasQueuedEvents :: "NvPSSPsdSendPriority \<Rightarrow> PssStaging \<Rightarrow> bool" where
  "hasQueuedEvents priority s =
     (case priority of PRIO_CRITICAL \<Rightarrow> sg_critical s \<noteq> [] | PRIO_OPERATIONAL \<Rightarrow> sg_operational s \<noteq> [])"

section \<open>The operational lane\<close>

lemma queued_earlier_trans [trans]: "queued_earlier a b \<Longrightarrow> queued_earlier b c \<Longrightarrow> queued_earlier a c"
  by (auto simp: queued_earlier_def)

lemma queued_earlier_total: "qe_seq a \<noteq> qe_seq b \<Longrightarrow> \<not> queued_earlier a b \<Longrightarrow> queued_earlier b a"
  by (auto simp: queued_earlier_def)

lemma insert_ordered_split:
  "\<exists>xs ys. q = xs @ ys \<and> insertOperationalOrdered e q = xs @ e # ys \<and>
     (\<forall>y\<in>set ys. \<not> queued_earlier y e) \<and> (xs \<noteq> [] \<longrightarrow> queued_earlier (last xs) e)"
proof (intro exI conjI)
  let ?P = "\<lambda>p. \<not> queued_earlier p e"
  let ?xs = "rev (dropWhile ?P (rev q))" and ?ys = "rev (takeWhile ?P (rev q))"
  show "q = ?xs @ ?ys" by (metis rev_append rev_rev_ident takeWhile_dropWhile_id)
  show "insertOperationalOrdered e q = ?xs @ e # ?ys" by (simp add: insertOperationalOrdered_def)
  show "\<forall>y\<in>set ?ys. \<not> queued_earlier y e" by (auto dest: set_takeWhileD)
  show "?xs \<noteq> [] \<longrightarrow> queued_earlier (last ?xs) e"
    using hd_dropWhile [of ?P "rev q"] by (simp add: last_rev)
qed

lemma set_insert_ordered [simp]: "set (insertOperationalOrdered e q) = insert e (set q)"
  using insert_ordered_split [of q e] by auto

lemma length_insert_ordered [simp]: "length (insertOperationalOrdered e q) = Suc (length q)"
  using insert_ordered_split [of q e] by auto

lemma distinct_insert_ordered:
  "distinct (map f (insertOperationalOrdered e q)) \<longleftrightarrow> f e \<notin> f ` set q \<and> distinct (map f q)"
  using insert_ordered_split [of q e] by auto

lemma sorted_wrt_last: "sorted_wrt R xs \<Longrightarrow> x \<in> set xs \<Longrightarrow> x = last xs \<or> R x (last xs)"
  by (induction xs) auto

lemma insert_ordered_sorted:
  assumes "sorted_wrt queued_earlier q" and "qe_seq e \<notin> qe_seq ` set q"
  shows "sorted_wrt queued_earlier (insertOperationalOrdered e q)"
proof -
  obtain xs ys where q: "q = xs @ ys" "insertOperationalOrdered e q = xs @ e # ys"
    and ys: "\<forall>y\<in>set ys. \<not> queued_earlier y e" and xs: "xs \<noteq> [] \<longrightarrow> queued_earlier (last xs) e"
    using insert_ordered_split by blast
  have sorted: "sorted_wrt queued_earlier xs" "sorted_wrt queued_earlier ys"
    using assms(1) q(1) by (auto simp: sorted_wrt_append)
  have "queued_earlier e y" if "y \<in> set ys" for y
  proof (rule queued_earlier_total)
    show "qe_seq y \<noteq> qe_seq e" using that assms(2) q(1) by (metis UnCI imageI set_append)
    show "\<not> queued_earlier y e" using that ys by blast
  qed
  moreover have "queued_earlier x e" if "x \<in> set xs" for x
    using sorted_wrt_last [OF sorted(1) that] xs that queued_earlier_trans by fastforce
  ultimately show ?thesis
    using assms(1) q by (auto simp: sorted_wrt_append)
qed

section \<open>The staging invariant\<close>

definition lane_seqs :: "PssStaging \<Rightarrow> nat list" where
  "lane_seqs s = map qe_seq (sg_critical s) @ map qe_seq (sg_operational s)"

definition must_deliver :: "PsdQueuedEvent \<Rightarrow> bool" where
  "must_deliver e \<longleftrightarrow> NvPSSPsdIsMustDeliverReport (fe_type (qe_event e))"

text \<open>
  Lanes within their depth, the operational lane in order, sequence numbers unique and below the counter, no
  evictable report, the list of refused reports bounded, made of reports only, and empty while
  no overflow stands.
\<close>

definition staging_inv :: "PssStagingCfg \<Rightarrow> PssStaging \<Rightarrow> bool" where
  "staging_inv cfg s \<longleftrightarrow>
     length (sg_critical s) \<le> unat (sc_criticalDepth cfg) \<and>
     length (sg_operational s) \<le> unat (sc_operationalDepth cfg) \<and>
     sorted_wrt queued_earlier (sg_operational s) \<and>
     distinct (lane_seqs s) \<and> (\<forall>n\<in>set (lane_seqs s). n < sg_enqueueSeq s) \<and>
     (\<forall>e\<in>set (sg_critical s). qe_evictable e \<longrightarrow> \<not> must_deliver e) \<and>
     length (sg_refusedPending s) \<le> NVPSS_PSD_REFUSED_PENDING_MAX \<and>
     (\<forall>e\<in>set (sg_refusedPending s). must_deliver e) \<and>
     (\<not> ov_active (sg_overflow s) \<longrightarrow> sg_refusedPending s = []) \<and>
     (ov_active (sg_overflow s) \<and> 0 < unat (sc_criticalDepth cfg) \<longrightarrow> 0 < sg_enqueueSeq s) \<and>
     ov_deliveredGeneration (sg_overflow s) \<le> ov_generation (sg_overflow s)"

lemma staging_initial_inv: "staging_inv cfg staging_initial"
  by (simp add: staging_inv_def staging_initial_def lane_seqs_def overflow_initial_def)

text \<open>Counters play no part in it.\<close>

lemma staging_inv_counters [simp]:
  "staging_inv cfg (s\<lparr>sg_droppedCount := a\<rparr>) = staging_inv cfg s"
  "staging_inv cfg (s\<lparr>sg_acceptedCount := a\<rparr>) = staging_inv cfg s"
  "staging_inv cfg (s\<lparr>sg_operationalHighWater := a\<rparr>) = staging_inv cfg s"
  "staging_inv cfg (s\<lparr>sg_criticalHighWater := a\<rparr>) = staging_inv cfg s"
  "staging_inv cfg (s\<lparr>sg_evictedCount := a\<rparr>) = staging_inv cfg s"
  "staging_inv cfg (s\<lparr>sg_undeliverableCount := a\<rparr>) = staging_inv cfg s"
  "staging_inv cfg (s\<lparr>sg_ledger := l\<rparr>) = staging_inv cfg s"
  by (simp_all add: staging_inv_def lane_seqs_def)

lemma enqueue_operational_inv:
  assumes "staging_inv cfg s"
  shows "staging_inv cfg (snd (enqueue_operational cfg entry s))"
proof -
  have "qe_seq (entry\<lparr>qe_seq := sg_enqueueSeq s\<rparr>) \<notin> qe_seq ` set (sg_operational s)"
    using assms by (auto simp: staging_inv_def lane_seqs_def)
  then show ?thesis
    using assms insert_ordered_sorted [of "sg_operational s" "entry\<lparr>qe_seq := sg_enqueueSeq s\<rparr>"]
    by (auto simp: staging_inv_def enqueue_operational_def lane_seqs_def distinct_insert_ordered
        simp flip: image_image intro: less_SucI)
qed

lemma drop_superseded_subset: "set (drop_superseded ev pending) \<subseteq> set pending"
  "length (drop_superseded ev pending) \<le> length pending"
  by (auto simp: drop_superseded_def NvPSSPsdDropSupersededRefused_def)

lemma critical_append_inv:
  assumes "staging_inv cfg s" and "length (sg_critical s) < unat (sc_criticalDepth cfg)"
    and "qe_evictable entry \<longrightarrow> \<not> must_deliver entry"
  shows "staging_inv cfg (critical_append entry s)"
  using assms drop_superseded_subset [of "qe_event entry" "sg_refusedPending s"]
  by (auto simp: staging_inv_def critical_append_def lane_seqs_def must_deliver_def intro: less_SucI)

lemma critical_evict_inv:
  assumes "staging_inv cfg s" and "sg_critical s = as @ v # bs"
  shows "staging_inv cfg (s\<lparr>sg_critical := as @ bs\<rparr>)"
  using assms by (auto simp: staging_inv_def lane_seqs_def)

lemma critical_refuse_inv:
  assumes "staging_inv cfg s" and "must_deliver entry" and "\<not> length (sg_critical s) < unat (sc_criticalDepth cfg)"
  shows "staging_inv cfg (critical_refuse entry s)"
proof -
  have "0 < sg_enqueueSeq s" if "0 < unat (sc_criticalDepth cfg)"
    using that assms(1,3) by (cases "sg_critical s") (auto simp: staging_inv_def lane_seqs_def)
  moreover
  have "set (snd (NvPSSPsdRetainRefused qe_event entry NVPSS_PSD_REFUSED_PENDING_MAX (sg_refusedPending s)))
      \<subseteq> insert entry (set (sg_refusedPending s))"
    by (auto simp: NvPSSPsdRetainRefused_def NvPSSPsdDropSupersededRefused_def Let_def)
  ultimately show ?thesis
    using assms retain_length [of "sg_refusedPending s" NVPSS_PSD_REFUSED_PENDING_MAX qe_event entry]
    by (auto simp: staging_inv_def critical_refuse_def lane_seqs_def overflow_raise_def case_prod_beta Let_def)
qed

lemma enqueue_critical_inv:
  assumes "staging_inv cfg s" and "qe_evictable entry \<longrightarrow> \<not> must_deliver entry"
  shows "staging_inv cfg (snd (enqueue_critical cfg entry s))"
proof (cases "NvPSSPsdCriticalLaneVictim qe_evictable (sg_critical s) MAX_SENSORS_DATA_SUMMARY_SIZE")
  case None
  then show ?thesis
    using assms critical_append_inv critical_refuse_inv
    by (auto simp: enqueue_critical_def must_deliver_def)
next
  case (Some i)
  let ?q = "take i (sg_critical s) @ drop (Suc i) (sg_critical s)"
  have i: "i < length (sg_critical s)" using Some by (simp add: victim_Some)
  then have "staging_inv cfg (s\<lparr>sg_critical := ?q\<rparr>)"
    using critical_evict_inv [OF assms(1) id_take_nth_drop [OF i]] by simp
  then have "staging_inv cfg (s\<lparr>sg_critical := ?q, sg_evictedCount := sg_evictedCount s + 1\<rparr>)" by simp
  moreover have "length ?q < unat (sc_criticalDepth cfg)"
    using i assms(1) by (auto simp: staging_inv_def)
  ultimately show ?thesis
    using assms Some critical_append_inv by (auto simp: enqueue_critical_def)
qed

theorem enqueue_inv:
  assumes "staging_inv cfg s" and "evictable \<longrightarrow> \<not> NvPSSPsdIsMustDeliverReport (fe_type event)"
  shows "staging_inv cfg (snd (enqueuePsdFusedEvent cfg priority clientId event evictable trust s))"
  using enqueue_operational_inv [OF assms(1)] enqueue_critical_inv [OF assms(1)] assms(2)
  by (auto simp: enqueuePsdFusedEvent_def case_prod_beta Let_def must_deliver_def)

lemma readmit_inv:
  assumes "staging_inv cfg (s\<lparr>sg_refusedPending := pending\<rparr>)" and "ov_active (sg_overflow s)"
  shows "staging_inv cfg (readmit (unat (sc_criticalDepth cfg)) pending s)"
  using assms
proof (induction pending arbitrary: s)
  case (Cons e es)
  show ?case
  proof (cases "length (sg_critical s) < unat (sc_criticalDepth cfg)")
    case True
    have "staging_inv cfg (s\<lparr>sg_critical := sg_critical s @ [e\<lparr>qe_seq := sg_enqueueSeq s, qe_evictable := False\<rparr>],
        sg_readmittedSeqMax := sg_enqueueSeq s, sg_enqueueSeq := sg_enqueueSeq s + 1, sg_refusedPending := es\<rparr>)"
      using Cons.prems True by (auto simp: staging_inv_def lane_seqs_def intro: less_SucI)
    then show ?thesis using True Cons.IH Cons.prems(2) by simp
  qed (use Cons.prems in simp)
qed simp

lemma maybe_clear_inv:
  assumes "staging_inv cfg s"
  shows "staging_inv cfg (maybeClearCriticalLaneOverflow cfg s)"
proof (cases "ov_active (sg_overflow s)")
  case True
  then have "staging_inv cfg (readmit (unat (sc_criticalDepth cfg)) (sg_refusedPending s) s)"
    using readmit_inv [of cfg "sg_refusedPending s" s] assms by simp
  then show ?thesis
    using True by (auto simp: maybeClearCriticalLaneOverflow_def Let_def clearIfDrained_def staging_inv_def lane_seqs_def)
qed (simp add: maybeClearCriticalLaneOverflow_def assms)

text \<open>On lanes without repeated sequence numbers, removal is a filter.\<close>

lemma remove_seq_filter: "distinct (map qe_seq q) \<Longrightarrow> remove_seq n q = filter (\<lambda>e. qe_seq e \<noteq> n) q"
proof (induction q)
  case (Cons e q)
  then have "filter (\<lambda>x. qe_seq x \<noteq> qe_seq e) q = q" by (auto simp: filter_id_conv image_iff)
  then show ?case using Cons by auto
qed simp

lemma distinct_map_filter_seq: "distinct (map qe_seq q) \<Longrightarrow> distinct (map qe_seq (filter P q))"
  by (simp add: distinct_map_filter)

lemma fold_remove_seq:
  "distinct (map qe_seq q) \<Longrightarrow> fold remove_seq ns q = filter (\<lambda>e. qe_seq e \<notin> set ns) q"
  by (induction ns arbitrary: q) (simp_all add: remove_seq_filter distinct_map_filter_seq conj_commute)

lemma staging_inv_filter:
  assumes "staging_inv cfg s"
  shows "staging_inv cfg (s\<lparr>sg_critical := filter P (sg_critical s)\<rparr>)"
    and "staging_inv cfg (s\<lparr>sg_operational := filter P (sg_operational s)\<rparr>)"
  using assms length_filter_le [of P "sg_critical s"] length_filter_le [of P "sg_operational s"]
  by (auto simp: staging_inv_def lane_seqs_def distinct_map_filter_seq sorted_wrt_filter
      simp del: length_filter_le dest: le_trans)

lemma commit_eq:
  assumes "staging_inv cfg s" and "seqs \<noteq> []"
  shows "commitQueuedEvents cfg priority seqs s = maybeClearCriticalLaneOverflow cfg
    (case priority of
       PRIO_CRITICAL \<Rightarrow> s\<lparr>sg_critical := filter (\<lambda>e. qe_seq e \<notin> set seqs) (sg_critical s)\<rparr>
     | PRIO_OPERATIONAL \<Rightarrow> s\<lparr>sg_operational := filter (\<lambda>e. qe_seq e \<notin> set seqs) (sg_operational s)\<rparr>)"
  using assms
  by (auto simp: commitQueuedEvents_def staging_inv_def lane_seqs_def fold_remove_seq split: NvPSSPsdSendPriority.splits)

lemma commit_inv:
  assumes "staging_inv cfg s"
  shows "staging_inv cfg (commitQueuedEvents cfg priority seqs s)"
proof (cases "seqs = []")
  case False
  then show ?thesis
    using assms by (cases priority) (simp_all add: commit_eq maybe_clear_inv staging_inv_filter)
qed (simp add: commitQueuedEvents_def assms)

lemma drop_batch_inv: "staging_inv cfg s \<Longrightarrow> staging_inv cfg (dropUndeliverableBatch cfg priority seqs i s)"
  by (simp add: dropUndeliverableBatch_def commit_inv)

lemma acknowledged_inv:
  assumes "staging_inv cfg s" and "g \<le> ov_generation (sg_overflow s)"
  shows "staging_inv cfg (onPsdRequestAcknowledged cfg priority seqs g i s)"
proof -
  have "staging_inv cfg (s\<lparr>sg_overflow := noteStampDelivered g (sg_overflow s)\<rparr>)"
    using assms by (auto simp: staging_inv_def lane_seqs_def noteStampDelivered_def)
  then show ?thesis by (simp add: onPsdRequestAcknowledged_def commit_inv)
qed

section \<open>Runs of the staging lanes\<close>

text \<open>
  What producers and the sender do to the lanes. A producer derives \<open>evictable\<close> from the trust it routed the event by;
  the sender acknowledges or abandons a batch named by its sequence numbers.
\<close>

datatype StagingEvent =
    Enqueue NvPSSPsdSendPriority FusedSafetyEvent bool TrustState
  | StatusNoop u64
  | Acknowledged NvPSSPsdSendPriority "nat list" nat u32
  | Abandoned NvPSSPsdSendPriority "nat list" u32

definition staging_step :: "PssStagingCfg \<Rightarrow> StagingEvent \<Rightarrow> PssStaging \<Rightarrow> PssStaging" where
  "staging_step cfg ev s =
     (case ev of
        Enqueue priority event distrusted trust \<Rightarrow>
          snd (enqueuePsdFusedEvent cfg priority (uint (fm_clientID (fe_fusionMetadata event))) event
                 (NvPSSPsdEvictable event distrusted) trust s)
      | StatusNoop ts \<Rightarrow> snd (enqueueStatusNoopEvent cfg ts s)
      | Acknowledged priority seqs g i \<Rightarrow> onPsdRequestAcknowledged cfg priority seqs g i s
      | Abandoned priority seqs i \<Rightarrow> dropUndeliverableBatch cfg priority seqs i s)"

text \<open>A stamp that is acknowledged was taken from the latch earlier.\<close>

inductive staging_reachable :: "PssStagingCfg \<Rightarrow> PssStaging \<Rightarrow> bool" for cfg where
  start: "staging_reachable cfg staging_initial"
| step: "staging_reachable cfg s \<Longrightarrow>
    (\<And>priority seqs g i. ev = Acknowledged priority seqs g i \<Longrightarrow> g \<le> ov_generation (sg_overflow s)) \<Longrightarrow>
    staging_reachable cfg (staging_step cfg ev s)"

lemma staging_step_inv:
  assumes "staging_inv cfg s"
    and "\<And>priority seqs g i. ev = Acknowledged priority seqs g i \<Longrightarrow> g \<le> ov_generation (sg_overflow s)"
  shows "staging_inv cfg (staging_step cfg ev s)"
  using assms
  by (cases ev) (auto simp: staging_step_def enqueueStatusNoopEvent_def NvPSSPsdEvictable_def
      intro: enqueue_inv enqueue_operational_inv acknowledged_inv drop_batch_inv)

lemma staging_reachable_inv: "staging_reachable cfg s \<Longrightarrow> staging_inv cfg s"
  by (induction rule: staging_reachable.induct) (auto intro: staging_initial_inv staging_step_inv)

section \<open>The overflow of the critical lane\<close>

lemma readmit_overflow [simp]: "sg_overflow (readmit c pending s) = sg_overflow s"
  by (induction pending arbitrary: s) auto

lemma readmit_critical_mono: "x \<in> set (sg_critical s) \<Longrightarrow> x \<in> set (sg_critical (readmit c es s))"
  by (induction es arbitrary: s) simp_all

lemma readmit_seq_mono:
  "sg_readmittedSeqMax s \<le> sg_enqueueSeq s \<Longrightarrow> sg_readmittedSeqMax s \<le> sg_readmittedSeqMax (readmit c es s)"
proof (induction es arbitrary: s)
  case (Cons e es)
  let ?s = "s\<lparr>sg_critical := sg_critical s @ [e\<lparr>qe_seq := sg_enqueueSeq s, qe_evictable := False\<rparr>],
    sg_readmittedSeqMax := sg_enqueueSeq s, sg_enqueueSeq := sg_enqueueSeq s + 1\<rparr>"
  show ?case using Cons.IH [of ?s] Cons.prems by simp
qed simp

lemma readmit_in_lane:
  assumes "length (sg_critical s) < c" and "0 < sg_enqueueSeq s"
  shows "readmittedInLane (readmit c (e # es) s)"
proof -
  let ?e = "e\<lparr>qe_seq := sg_enqueueSeq s, qe_evictable := False\<rparr>"
  let ?s = "s\<lparr>sg_critical := sg_critical s @ [?e],
    sg_readmittedSeqMax := sg_enqueueSeq s, sg_enqueueSeq := sg_enqueueSeq s + 1\<rparr>"
  have "?e \<in> set (sg_critical (readmit c es ?s))" and "qe_seq ?e \<le> sg_readmittedSeqMax (readmit c es ?s)"
    using readmit_critical_mono [of ?e ?s c es] readmit_seq_mono [of ?s c es] by simp_all
  then have "list_ex (\<lambda>x. qe_seq x \<le> sg_readmittedSeqMax (readmit c es ?s)) (sg_critical (readmit c es ?s))"
    unfolding list_ex_iff by blast
  moreover have "0 < sg_readmittedSeqMax (readmit c es ?s)"
    using assms(2) \<open>qe_seq ?e \<le> sg_readmittedSeqMax (readmit c es ?s)\<close> by simp
  ultimately show ?thesis
    using assms(1) by (simp add: readmittedInLane_def)
qed

lemma half_depth:
  assumes "n \<le> unat (d :: u32)"
  shows "(of_nat n * 2 :: u64) > of_nat (unat d) \<longleftrightarrow> 2 * n > unat d"
proof -
  have d: "unat d < 2 ^ 32" using unsigned_less [of d] by simp
  have unat_small: "unat (of_nat k :: u64) = k" if "k < 2 ^ 64" for k
    using that by (simp only: unat_of_nat len_of_numeral_defs) (simp add: take_bit_nat_eq_self)
  have "(of_nat n * 2 :: u64) = of_nat (2 * n)" by simp
  moreover have "2 * n < 2 ^ 64" "unat d < 2 ^ 64" using assms d by simp_all
  ultimately show ?thesis
    by (simp only: word_less_nat_alt unat_small)
qed

text \<open>What has to hold for a commit to end an overflow.\<close>

lemma overflow_cleared:
  assumes "staging_inv cfg s" and "0 < unat (sc_criticalDepth cfg)" and "ov_active (sg_overflow s)"
    and "\<not> ov_active (sg_overflow (maybeClearCriticalLaneOverflow cfg s))"
  shows "sg_refusedPending s = [] \<and> \<not> readmittedInLane s \<and>
    2 * length (sg_critical s) \<le> unat (sc_criticalDepth cfg) \<and>
    ov_deliveredGeneration (sg_overflow s) = ov_generation (sg_overflow s)"
proof (cases "sg_refusedPending s")
  case Nil
  have "\<not> (of_nat (length (sg_critical s)) * 2 :: u64) > of_nat (unat (sc_criticalDepth cfg))"
    using assms(3,4) Nil by (auto simp: maybeClearCriticalLaneOverflow_def clearIfDrained_def Let_def split: if_splits)
  then have "2 * length (sg_critical s) \<le> unat (sc_criticalDepth cfg)"
    using half_depth assms(1) by (simp add: staging_inv_def)
  with Nil show ?thesis
    using assms by (auto simp: maybeClearCriticalLaneOverflow_def clearIfDrained_def Let_def staging_inv_def
        readmittedInLane_def mult.commute split: if_splits)
next
  case (Cons e es)
  then show ?thesis
    using assms readmit_in_lane [of s "unat (sc_criticalDepth cfg)" e es]
    by (auto simp: maybeClearCriticalLaneOverflow_def clearIfDrained_def Let_def staging_inv_def split: if_splits)
qed



section \<open>Example\<close>

text \<open>Lanes of the smallest depth: eight software failures fill the critical lane, a ninth is refused.\<close>

definition example_staging_cfg :: PssStagingCfg where
  "example_staging_cfg = staging_cfg 8 8"

definition example_report :: StagingEvent where
  "example_report = Enqueue PRIO_CRITICAL (sw_fail_event CAUSE_NONE 0) False no_distrust"

definition example_refused :: PssStaging where
  "example_refused = fold (staging_step example_staging_cfg) (replicate 9 example_report) staging_initial"


lemma example_refused_eq:
  "ov_active (sg_overflow example_refused)" "ov_generation (sg_overflow example_refused) = 1"
  "ov_deliveredGeneration (sg_overflow example_refused) = 0"
  "length (sg_refusedPending example_refused) = 1" "length (sg_critical example_refused) = 8"
  by code_simp+


lemma example_refused_reachable: "staging_reachable example_staging_cfg example_refused"
proof -
  have "staging_reachable example_staging_cfg
      (fold (staging_step example_staging_cfg) (replicate n example_report) s)"
    if "staging_reachable example_staging_cfg s" for n s
    using that
    by (induction n arbitrary: s) (auto simp: example_report_def intro!: staging_reachable.step)
  then show ?thesis by (simp only: example_refused_def staging_reachable.start)
qed

section \<open>Properties\<close>

text \<open>
  C3. A report is never lost in silence. When a must-deliver report (a software failure or a trust report) is
  offered to the critical lane, either it is queued, or the overflow stands at a new generation and the
  report is kept for re-admission or counted as lost; and no report that was in the lane leaves it.
\<close>

theorem report_never_silently_lost:
  assumes "staging_reachable cfg s" and "NvPSSPsdIsMustDeliverReport (fe_type event)"
    and "enqueuePsdFusedEvent cfg PRIO_CRITICAL c event False trust s = (queued, s')"
  shows "(if queued
      then \<exists>e\<in>set (sg_critical s'). qe_event e = event \<and> qe_seq e = sg_enqueueSeq s
      else ov_active (sg_overflow s') \<and> ov_generation (sg_overflow s') = ov_generation (sg_overflow s) + 1 \<and>
        sg_droppedCount s' = sg_droppedCount s + 1 \<and>
        ((\<exists>e\<in>set (sg_refusedPending s'). qe_event e = event) \<or> sg_refusedLost s' = sg_refusedLost s + 1)) \<and>
    (\<forall>e\<in>set (sg_critical s). must_deliver e \<longrightarrow> e \<in> set (sg_critical s'))"
proof -
  let ?entry = "\<lparr>qe_clientId = c, qe_seq = 0, qe_event = event, qe_queuedTrust = trust, qe_evictable = False\<rparr>"
  have inv: "staging_inv cfg s" using staging_reachable_inv [OF assms(1)] .
  show ?thesis
  proof (cases "NvPSSPsdCriticalLaneVictim qe_evictable (sg_critical s) MAX_SENSORS_DATA_SUMMARY_SIZE")
    case None
    then show ?thesis
      using assms(2,3)
      by (auto simp: enqueuePsdFusedEvent_def enqueue_critical_def critical_append_def critical_refuse_def
          overflow_raise_def NvPSSPsdRetainRefused_def case_prod_beta Let_def split: if_splits)
  next
    case (Some i)
    then have i: "i < length (sg_critical s)" "qe_evictable (sg_critical s ! i)" by (auto simp: victim_Some)
    then have "\<not> must_deliver (sg_critical s ! i)" using inv by (auto simp: staging_inv_def)
    then have "\<forall>e\<in>set (sg_critical s). must_deliver e \<longrightarrow>
        e \<in> set (take i (sg_critical s) @ drop (Suc i) (sg_critical s))"
      using id_take_nth_drop [OF i(1)] by (metis UnE UnI1 UnI2 set_ConsD set_append)
    then show ?thesis
      using assms(2,3) Some
      by (auto simp: enqueuePsdFusedEvent_def enqueue_critical_def critical_append_def case_prod_beta Let_def
          split: if_splits)
  qed
qed

text \<open>
  C23. Both lanes stay well formed. In every reachable state the lanes are within their depth, the operational lane
  is strictly ordered by time and then by admission, no sequence number occurs twice, no evictable entry is a
  report, and refused reports are pending only while the overflow stands.
\<close>

theorem staging_lanes_invariant:
  assumes "staging_reachable cfg s"
  shows "length (sg_critical s) \<le> unat (sc_criticalDepth cfg) \<and>
    length (sg_operational s) \<le> unat (sc_operationalDepth cfg) \<and>
    sorted_wrt queued_earlier (sg_operational s) \<and>
    distinct (map qe_seq (sg_critical s) @ map qe_seq (sg_operational s)) \<and>
    (\<forall>e\<in>set (sg_critical s). qe_evictable e \<longrightarrow> \<not> NvPSSPsdIsMustDeliverReport (fe_type (qe_event e))) \<and>
    length (sg_refusedPending s) \<le> 32 \<and> (sg_refusedPending s \<noteq> [] \<longrightarrow> ov_active (sg_overflow s))"
  using staging_reachable_inv [OF assms]
  by (simp add: staging_inv_def lane_seqs_def must_deliver_def NVPSS_PSD_REFUSED_PENDING_MAX_def) blast



theorem report_never_silently_lost_witness:
  "\<exists>e\<in>set (sg_critical (snd (enqueuePsdFusedEvent example_staging_cfg PRIO_CRITICAL 0
        (sw_fail_event CAUSE_NONE 0) False no_distrust staging_initial))). qe_seq e = 0"
proof -
  let ?ev = "sw_fail_event CAUSE_NONE 0"
  obtain queued s' where eq:
    "enqueuePsdFusedEvent example_staging_cfg PRIO_CRITICAL 0 ?ev False no_distrust staging_initial = (queued, s')"
    by fastforce
  have "NvPSSPsdIsMustDeliverReport (fe_type ?ev)" by (simp add: NvPSSPsdIsMustDeliverReport_def sw_fail_event_def)
  from report_never_silently_lost [OF staging_reachable.start this eq]
  have "if queued then \<exists>e\<in>set (sg_critical s'). qe_event e = ?ev \<and> qe_seq e = sg_enqueueSeq staging_initial
      else ov_active (sg_overflow s') \<and> ov_generation (sg_overflow s') = ov_generation (sg_overflow staging_initial) + 1 \<and>
        sg_droppedCount s' = sg_droppedCount staging_initial + 1 \<and>
        ((\<exists>e\<in>set (sg_refusedPending s'). qe_event e = ?ev) \<or> sg_refusedLost s' = sg_refusedLost staging_initial + 1)"
    by blast
  moreover have queued
    using eq [symmetric] by (simp add: enqueuePsdFusedEvent_def enqueue_critical_def staging_initial_def
        example_staging_cfg_def staging_cfg_def clamp_depth_def pss_fs Let_def)
  ultimately show ?thesis using eq by (auto simp: staging_initial_def)
qed

theorem staging_lanes_invariant_witness: "sg_refusedPending example_refused \<noteq> [] \<and> ov_active (sg_overflow example_refused)"
  using staging_lanes_invariant [OF example_refused_reachable] example_refused_eq(4) by auto


end
