(* ===== verification/Pss_Fusion_Health.thy ===== *)
theory Pss_Fusion_Health
  imports Pss_Delivery
begin

text \<open>
  The fusion-health fault of the PSS daemon (\<^verbatim>\<open>NvPSSSafetyEventManager.hpp\<close>): the failure streak that
  amounts to a configured duration, the latch that two threads raise and clear, and the episodes that
  bound the audit records.

  \<open>noteFailure\<close> and \<open>noteSuccess\<close> are the operations run alone. \<open>health_step\<close> is the same code cut at its
  atomic accesses, so that the input loop and the fusion loop interleave as the hardware lets them; run
  without interference its steps give the operations.
\<close>

section \<open>Thresholds\<close>

definition NVPSS_FUSION_FAILURE_ERROR_MS_MIN :: u32 where [pss_fs]: "NVPSS_FUSION_FAILURE_ERROR_MS_MIN = 100"
definition NVPSS_FUSION_FAILURE_ERROR_MS_MAX :: u32 where [pss_fs]: "NVPSS_FUSION_FAILURE_ERROR_MS_MAX = 60000"
definition NVPSS_FUSION_FAILURE_ERROR_MS_DEFAULT :: u32 where
  [pss_fs]: "NVPSS_FUSION_FAILURE_ERROR_MS_DEFAULT = 1000"
definition NVPSS_FUSION_FAILURE_STREAK_MIN :: u32 where [pss_fs]: "NVPSS_FUSION_FAILURE_STREAK_MIN = 2"

definition NvPSSFusionFailureStreakThreshold :: "u32 \<Rightarrow> u64 \<Rightarrow> u32" where
  "NvPSSFusionFailureStreakThreshold errorMs periodUs =
     (if periodUs = 0 then NVPSS_FUSION_FAILURE_STREAK_MIN
      else
        (let iterations = (ucast errorMs * 1000) div periodUs
         in if iterations < ucast NVPSS_FUSION_FAILURE_STREAK_MIN then NVPSS_FUSION_FAILURE_STREAK_MIN
            else if iterations > 0xFFFFFFFF then 0xFFFFFFFF
            else ucast iterations))"

definition NvPSSFusionFailureErrorMsIsValid :: "u32 \<Rightarrow> bool" where
  "NvPSSFusionFailureErrorMsIsValid errorMs \<longleftrightarrow>
     errorMs \<ge> NVPSS_FUSION_FAILURE_ERROR_MS_MIN \<and> errorMs \<le> NVPSS_FUSION_FAILURE_ERROR_MS_MAX"

datatype FusionStage =
    FUSION_STAGE_PROCESS_EVENT
  | FUSION_STAGE_PERFORM_FUSION
  | FUSION_STAGE_PROCESS_UNMATCHED
  | FUSION_STAGE_CLEAN_PROCESSED
  | FUSION_STAGE_HANDLE_FUSED

definition fusion_stages :: "FusionStage list" where
  "fusion_stages = [FUSION_STAGE_PROCESS_EVENT, FUSION_STAGE_PERFORM_FUSION, FUSION_STAGE_PROCESS_UNMATCHED,
     FUSION_STAGE_CLEAN_PROCESSED, FUSION_STAGE_HANDLE_FUSED]"

text \<open>Which loop runs a stage decides the period its threshold is computed from.\<close>

definition fusionStageStreakThreshold :: "u32 \<Rightarrow> u64 \<Rightarrow> u64 \<Rightarrow> FusionStage \<Rightarrow> u32" where
  "fusionStageStreakThreshold fusionFailureErrorMs inputPeriodUs fusionPeriodUs stage =
     NvPSSFusionFailureStreakThreshold fusionFailureErrorMs
       (if stage = FUSION_STAGE_PROCESS_EVENT then inputPeriodUs else fusionPeriodUs)"

section \<open>The latch\<close>

record NvPSSFusionHealthLatch =
  fh_streak :: "FusionStage \<Rightarrow> u32"
  fh_error :: bool

definition fusion_health_initial :: NvPSSFusionHealthLatch where
  "fusion_health_initial = \<lparr>fh_streak = (\<lambda>_. 0), fh_error = False\<rparr>"

text \<open>The result is true on the rising edge.\<close>

definition noteFailure :: "FusionStage \<Rightarrow> u32 \<Rightarrow> NvPSSFusionHealthLatch \<Rightarrow> bool \<times> NvPSSFusionHealthLatch" where
  "noteFailure stage threshold h =
     (let streak = fh_streak h stage + 1;
          h = h\<lparr>fh_streak := (fh_streak h)(stage := streak)\<rparr>
      in if streak < threshold then (False, h) else (\<not> fh_error h, h\<lparr>fh_error := True\<rparr>))"

text \<open>The result is true when this success cleared the fault.\<close>

definition noteSuccess :: "FusionStage \<Rightarrow> NvPSSFusionHealthLatch \<Rightarrow> bool \<times> NvPSSFusionHealthLatch" where
  "noteSuccess stage h =
     (if fh_streak h stage = 0 then (False, h)
      else
        (let h = h\<lparr>fh_streak := (fh_streak h)(stage := 0)\<rparr>
         in if \<not> fh_error h then (False, h)
            else if list_ex (\<lambda>i. fh_streak h i \<noteq> 0) fusion_stages then (False, h)
            else (fh_error h, h\<lparr>fh_error := False\<rparr>)))"

section \<open>Audit episodes\<close>

definition NVPSS_FUSION_STAGE_RECORD_INTERVAL_MS :: u32 where
  [pss_fs]: "NVPSS_FUSION_STAGE_RECORD_INTERVAL_MS = 1000"

datatype NvPSSFusionStageRecord = RECORD_NONE | RECORD_STARTED | RECORD_ONGOING | RECORD_ENDED

record NvPSSFusionStageEpisode =
  ep_open :: bool
  ep_openedMs :: u64
  ep_lastFailureMs :: u64
  ep_lastRecordMs :: u64
  ep_failures :: u32

definition episode_initial :: NvPSSFusionStageEpisode where
  "episode_initial =
     \<lparr>ep_open = False, ep_openedMs = 0, ep_lastFailureMs = 0, ep_lastRecordMs = 0, ep_failures = 0\<rparr>"

definition NvPSSFusionStageNoteFailure ::
  "u64 \<Rightarrow> u32 \<Rightarrow> NvPSSFusionStageEpisode \<Rightarrow> NvPSSFusionStageRecord \<times> NvPSSFusionStageEpisode" where
  "NvPSSFusionStageNoteFailure nowMs intervalMs e =
     (let e = e\<lparr>ep_lastFailureMs := nowMs\<rparr>
      in if \<not> ep_open e
         then (RECORD_STARTED, e\<lparr>ep_open := True, ep_openedMs := nowMs, ep_lastRecordMs := nowMs, ep_failures := 1\<rparr>)
         else
           (let e = (if ep_failures e < 0xFFFFFFFF then e\<lparr>ep_failures := ep_failures e + 1\<rparr> else e)
            in if nowMs - ep_lastRecordMs e \<ge> ucast intervalMs
               then (RECORD_ONGOING, e\<lparr>ep_lastRecordMs := nowMs\<rparr>)
               else (RECORD_NONE, e)))"

definition NvPSSFusionStageNoteSuccess ::
  "u64 \<Rightarrow> u32 \<Rightarrow> NvPSSFusionStageEpisode \<Rightarrow> NvPSSFusionStageRecord \<times> NvPSSFusionStageEpisode" where
  "NvPSSFusionStageNoteSuccess nowMs intervalMs e =
     (if \<not> ep_open e \<or> nowMs - ep_lastFailureMs e < ucast intervalMs then (RECORD_NONE, e)
      else (RECORD_ENDED, e\<lparr>ep_open := False\<rparr>))"

section \<open>The two loops on the latch\<close>

text \<open>
  A stage belongs to one loop. \<open>Raise\<close> is the point after the increment reached the threshold and before
  the exchange under the mutex; \<open>Store\<close>, \<open>Check\<close> and \<open>Enter\<close> are the points of a success before the
  reset, before the test of the fault and before the mutex; \<open>Scan\<close> is inside the mutex with the stages
  still to be looked at.
\<close>

datatype HealthLoop = InputLoop | FusionLoop

definition loop_of :: "FusionStage \<Rightarrow> HealthLoop" where
  "loop_of stage = (if stage = FUSION_STAGE_PROCESS_EVENT then InputLoop else FusionLoop)"

datatype HealthPoint =
    Outside
  | Raise FusionStage
  | Store FusionStage
  | Check FusionStage
  | Enter FusionStage
  | Scan FusionStage "FusionStage list"

record HealthState =
  hs_latch :: NvPSSFusionHealthLatch
  hs_point :: "HealthLoop \<Rightarrow> HealthPoint"
  hs_mutex :: "HealthLoop option"

definition streak_of :: "HealthState \<Rightarrow> FusionStage \<Rightarrow> u32" where
  "streak_of s = fh_streak (hs_latch s)"

definition set_streak :: "FusionStage \<Rightarrow> u32 \<Rightarrow> HealthState \<Rightarrow> HealthState" where
  "set_streak stage n s =
     s\<lparr>hs_latch := (hs_latch s)\<lparr>fh_streak := (fh_streak (hs_latch s))(stage := n)\<rparr>\<rparr>"

definition set_error :: "bool \<Rightarrow> HealthState \<Rightarrow> HealthState" where
  "set_error b s = s\<lparr>hs_latch := (hs_latch s)\<lparr>fh_error := b\<rparr>\<rparr>"

definition goto :: "HealthLoop \<Rightarrow> HealthPoint \<Rightarrow> HealthState \<Rightarrow> HealthState" where
  "goto t p s = s\<lparr>hs_point := (hs_point s)(t := p)\<rparr>"

inductive health_step :: "(FusionStage \<Rightarrow> u32) \<Rightarrow> HealthLoop \<Rightarrow> HealthState \<Rightarrow> HealthState \<Rightarrow> bool"
  for thr :: "FusionStage \<Rightarrow> u32"
where
  fail_below: "\<lbrakk>hs_point s t = Outside; loop_of stage = t; n = streak_of s stage + 1; n < thr stage\<rbrakk>
    \<Longrightarrow> health_step thr t s (set_streak stage n s)"
| fail_reach: "\<lbrakk>hs_point s t = Outside; loop_of stage = t; n = streak_of s stage + 1; \<not> n < thr stage\<rbrakk>
    \<Longrightarrow> health_step thr t s (goto t (Raise stage) (set_streak stage n s))"
| raise: "\<lbrakk>hs_point s t = Raise stage; hs_mutex s = None\<rbrakk>
    \<Longrightarrow> health_step thr t s (goto t Outside (set_error True s))"
| success_healthy: "\<lbrakk>hs_point s t = Outside; loop_of stage = t; streak_of s stage = 0\<rbrakk>
    \<Longrightarrow> health_step thr t s s"
| success_failing: "\<lbrakk>hs_point s t = Outside; loop_of stage = t; streak_of s stage \<noteq> 0\<rbrakk>
    \<Longrightarrow> health_step thr t s (goto t (Store stage) s)"
| store: "hs_point s t = Store stage
    \<Longrightarrow> health_step thr t s (goto t (Check stage) (set_streak stage 0 s))"
| check_quiet: "\<lbrakk>hs_point s t = Check stage; \<not> fh_error (hs_latch s)\<rbrakk>
    \<Longrightarrow> health_step thr t s (goto t Outside s)"
| check_fault: "\<lbrakk>hs_point s t = Check stage; fh_error (hs_latch s)\<rbrakk>
    \<Longrightarrow> health_step thr t s (goto t (Enter stage) s)"
| enter: "\<lbrakk>hs_point s t = Enter stage; hs_mutex s = None\<rbrakk>
    \<Longrightarrow> health_step thr t s (goto t (Scan stage fusion_stages) (s\<lparr>hs_mutex := Some t\<rparr>))"
| scan_failing: "\<lbrakk>hs_point s t = Scan stage (i # is); streak_of s i \<noteq> 0\<rbrakk>
    \<Longrightarrow> health_step thr t s (goto t Outside (s\<lparr>hs_mutex := None\<rparr>))"
| scan_healthy: "\<lbrakk>hs_point s t = Scan stage (i # is); streak_of s i = 0\<rbrakk>
    \<Longrightarrow> health_step thr t s (goto t (Scan stage is) s)"
| clear: "hs_point s t = Scan stage []
    \<Longrightarrow> health_step thr t s (goto t Outside ((set_error False s)\<lparr>hs_mutex := None\<rparr>))"

definition health_initial :: HealthState where
  "health_initial = \<lparr>hs_latch = fusion_health_initial, hs_point = (\<lambda>_. Outside), hs_mutex = None\<rparr>"

inductive health_reachable :: "(FusionStage \<Rightarrow> u32) \<Rightarrow> HealthState \<Rightarrow> bool" for thr :: "FusionStage \<Rightarrow> u32" where
  health_start: "health_reachable thr health_initial"
| health_next: "\<lbrakk>health_reachable thr s; health_step thr t s s'\<rbrakk> \<Longrightarrow> health_reachable thr s'"

inductive health_alone :: "(FusionStage \<Rightarrow> u32) \<Rightarrow> HealthLoop \<Rightarrow> HealthState \<Rightarrow> HealthState \<Rightarrow> bool"
  for thr :: "FusionStage \<Rightarrow> u32" and t :: HealthLoop
where
  alone_stop: "health_alone thr t s s"
| alone_step: "\<lbrakk>health_step thr t s s'; health_alone thr t s' s''\<rbrakk> \<Longrightarrow> health_alone thr t s s''"

inductive_cases health_stepE: "health_step thr t s s'"

lemma health_simps [simp]:
  "hs_point (set_streak i n s) = hs_point s" "hs_mutex (set_streak i n s) = hs_mutex s"
  "hs_point (set_error b s) = hs_point s" "hs_mutex (set_error b s) = hs_mutex s"
  "hs_mutex (goto t p s) = hs_mutex s" "hs_latch (goto t p s) = hs_latch s"
  "hs_point (goto t p s) = (hs_point s)(t := p)"
  "streak_of (set_streak i n s) = (streak_of s)(i := n)" "streak_of (set_error b s) = streak_of s"
  "streak_of (goto t p s) = streak_of s" "streak_of (s\<lparr>hs_mutex := m\<rparr>) = streak_of s"
  "fh_error (hs_latch (set_streak i n s)) = fh_error (hs_latch s)" "fh_error (hs_latch (set_error b s)) = b"
  by (simp_all add: set_streak_def set_error_def goto_def streak_of_def)

section \<open>No fault is lost between the loops\<close>

text \<open>A stage is covered when it is below its threshold or its loop is about to raise the fault.\<close>

definition covered :: "(FusionStage \<Rightarrow> u32) \<Rightarrow> HealthState \<Rightarrow> FusionStage \<Rightarrow> bool" where
  "covered thr s j \<longleftrightarrow> streak_of s j < thr j \<or> hs_point s (loop_of j) = Raise j"

definition scanned :: "HealthPoint \<Rightarrow> FusionStage set" where
  "scanned p = (case p of Scan _ is \<Rightarrow> {j. j \<notin> set is} | _ \<Rightarrow> {})"

lemma scanned_simps [simp]:
  "scanned Outside = {}" "scanned (Raise j) = {}" "scanned (Store j) = {}" "scanned (Check j) = {}"
  "scanned (Enter j) = {}" "scanned (Scan j is) = {i. i \<notin> set is}"
  by (simp_all add: scanned_def)

definition is_scan :: "HealthPoint \<Rightarrow> bool" where
  "is_scan p \<longleftrightarrow> (\<exists>j is. p = Scan j is)"

lemma is_scan_simps [simp]:
  "\<not> is_scan Outside" "\<not> is_scan (Raise j)" "\<not> is_scan (Store j)" "\<not> is_scan (Check j)"
  "\<not> is_scan (Enter j)" "is_scan (Scan j is)"
  by (simp_all add: is_scan_def)

definition health_inv :: "(FusionStage \<Rightarrow> u32) \<Rightarrow> HealthState \<Rightarrow> bool" where
  "health_inv thr s \<longleftrightarrow>
     (\<forall>t. is_scan (hs_point s t) \<longleftrightarrow> hs_mutex s = Some t) \<and>
     (\<forall>t j. hs_point s t = Store j \<longrightarrow> loop_of j = t) \<and>
     (\<forall>t. \<forall>j \<in> scanned (hs_point s t). covered thr s j) \<and>
     (\<forall>j. fh_error (hs_latch s) \<or> covered thr s j)"

lemma set_fusion_stages [simp]: "j \<in> set fusion_stages"
  by (cases j) (simp_all add: fusion_stages_def)

lemma health_initial_inv: "(\<And>j. 0 < thr j) \<Longrightarrow> health_inv thr health_initial"
  by (simp add: health_inv_def health_initial_def covered_def streak_of_def fusion_health_initial_def)

lemma scanned_empty: "\<not> is_scan p \<Longrightarrow> scanned p = {}"
  by (cases p) simp_all

text \<open>A step of one loop that neither starts nor ends outside a scan, and uncovers no stage.\<close>

lemma health_inv_move:
  assumes inv: "health_inv thr s"
    and "\<not> is_scan (hs_point s t)" "\<not> is_scan p" "\<And>j. p = Store j \<Longrightarrow> loop_of j = t"
    and s': "hs_point s' = (hs_point s)(t := p)" "hs_mutex s' = hs_mutex s"
      "fh_error (hs_latch s') = fh_error (hs_latch s)"
    and cov: "\<And>j. covered thr s j \<Longrightarrow> covered thr s' j"
  shows "health_inv thr s'"
proof -
  have "is_scan (hs_point s u) = (hs_mutex s = Some u)" for u
    using inv by (simp add: health_inv_def)
  then have "is_scan (hs_point s' u) = (hs_mutex s' = Some u)" for u
    using assms(2,3) by (auto simp: s')
  moreover have "\<forall>j \<in> scanned (hs_point s' u). covered thr s' j" for u
    using inv assms(3) by (auto simp: s' scanned_empty health_inv_def intro: cov)
  moreover have "fh_error (hs_latch s') \<or> covered thr s' j" for j
    using inv by (auto simp: s' health_inv_def intro: cov)
  moreover have "hs_point s' u = Store j \<longrightarrow> loop_of j = u" for u j
    using inv assms(4) by (auto simp: s' health_inv_def)
  ultimately show ?thesis by (simp add: health_inv_def)
qed

lemma one_scan: "health_inv thr s \<Longrightarrow> hs_point s t = Scan j is \<Longrightarrow> u \<noteq> t \<Longrightarrow> scanned (hs_point s u) = {}"
  by (rule scanned_empty) (auto simp: health_inv_def dest: spec [of _ t] spec [of _ u])

lemma scanned_covered: "health_inv thr s \<Longrightarrow> hs_point s t = Scan k is \<Longrightarrow> j \<notin> set is \<Longrightarrow> covered thr s j"
  by (auto simp: health_inv_def dest: spec [of _ t])

lemma health_step_inv:
  assumes "health_step thr t s s'" "health_inv thr s" "\<And>j. 0 < thr j"
  shows "health_inv thr s'"
  using assms(1)
proof cases
  case (fail_below stage n)
  then show ?thesis
    by (intro health_inv_move [OF assms(2), of t "hs_point s t"]) (auto simp: covered_def)
next
  case (fail_reach stage n)
  then show ?thesis
    by (intro health_inv_move [OF assms(2), of t "Raise stage"]) (auto simp: covered_def)
next
  case (raise stage)
  then have "\<not> is_scan (hs_point s u)" for u
    using assms(2) by (simp add: health_inv_def)
  then show ?thesis
    using assms(2) raise by (simp add: health_inv_def scanned_empty)
next
  case (store stage)
  have "0 < thr stage" by (rule assms(3))
  with store show ?thesis
    by (intro health_inv_move [OF assms(2), of t "Check stage"]) (auto simp: covered_def)
next
  case (success_failing stage)
  then show ?thesis
    by (intro health_inv_move [OF assms(2), of t "Store stage"]) (auto simp: covered_def)
next
  case (check_quiet stage)
  then show ?thesis
    by (intro health_inv_move [OF assms(2), of t Outside]) (auto simp: covered_def)
next
  case (check_fault stage)
  then show ?thesis
    by (intro health_inv_move [OF assms(2), of t "Enter stage"]) (auto simp: covered_def)
next
  case (enter stage)
  then show ?thesis
    using assms(2) by (auto simp: health_inv_def covered_def scanned_empty)
next
  case (scan_failing stage i "is")
  then have "covered thr s' j \<longleftrightarrow> covered thr s j" for j
    by (auto simp: covered_def)
  then show ?thesis
    using assms(2) scan_failing one_scan [OF assms(2) scan_failing(2)] by (auto simp: health_inv_def)
next
  case (scan_healthy stage i "is")
  then have cov: "covered thr s' j \<longleftrightarrow> covered thr s j" for j
    by (auto simp: covered_def)
  have "covered thr s j" if "j \<notin> set is" for j
    using that scan_healthy assms(3) [of i] scanned_covered [OF assms(2) scan_healthy(2), of j]
    by (cases "j = i") (auto simp: covered_def)
  then show ?thesis
    using assms(2) scan_healthy one_scan [OF assms(2) scan_healthy(2)]
    by (auto simp: health_inv_def cov [unfolded scan_healthy(1)])
next
  case (clear stage)
  then have "covered thr s' j \<longleftrightarrow> covered thr s j" for j
    by (auto simp: covered_def)
  moreover have "covered thr s j" for j
    using clear by (auto intro: scanned_covered [OF assms(2)])
  ultimately show ?thesis
    using assms(2) clear by (auto simp: health_inv_def)
qed (use assms(2) in simp)

lemma health_reachable_inv:
  "health_reachable thr s \<Longrightarrow> (\<And>j. 0 < thr j) \<Longrightarrow> health_inv thr s"
  by (induction rule: health_reachable.induct) (auto intro: health_initial_inv health_step_inv)

section \<open>The loops run alone\<close>






section \<open>Escalation\<close>

definition fail_once :: "FusionStage \<Rightarrow> u32 \<Rightarrow> NvPSSFusionHealthLatch \<Rightarrow> NvPSSFusionHealthLatch" where
  "fail_once stage threshold h = snd (noteFailure stage threshold h)"

lemma fail_once_simps:
  "fh_streak (fail_once stage threshold h) = (fh_streak h)(stage := fh_streak h stage + 1)"
  "fh_error (fail_once stage threshold h) \<longleftrightarrow> fh_error h \<or> threshold \<le> fh_streak h stage + 1"
  by (auto simp: fail_once_def noteFailure_def Let_def)

lemma unat_of_nat_u32: "k < 2 ^ 32 \<Longrightarrow> unat (of_nat k :: u32) = k"
  by (simp only: unat_of_nat len_of_numeral_defs) (simp add: take_bit_nat_eq_self)

lemma fail_streak: "fh_streak ((fail_once stage threshold ^^ k) h) stage = fh_streak h stage + of_nat k"
  by (induction k) (simp_all add: fail_once_simps)

lemma fail_escalates:
  assumes "fh_streak h stage = 0" "\<not> fh_error h" "0 < threshold" "k < 2 ^ 32"
  shows "fh_error ((fail_once stage threshold ^^ k) h) \<longleftrightarrow> unat threshold \<le> k"
  using assms(4)
proof (induction k)
  case 0
  then show ?case using assms(2,3) by (simp add: word_less_nat_alt)
next
  case (Suc k)
  have "fh_streak ((fail_once stage threshold ^^ k) h) stage + 1 = of_nat (Suc k)"
    by (simp add: fail_streak assms(1))
  moreover have "threshold \<le> of_nat (Suc k) \<longleftrightarrow> unat threshold \<le> Suc k"
    using Suc.prems by (simp only: word_le_nat_alt unat_of_nat_u32)
  ultimately show ?case
    using Suc by (auto simp: fail_once_simps add.commute)
qed

lemma unat_ms_to_us: "unat ((ucast e :: u64) * 1000) = unat e * 1000" for e :: u32
proof -
  have "unat e < 2 ^ 32" using unsigned_less [of e] by simp
  then have "unat (ucast e :: u64) = unat e" "unat e * 1000 < 2 ^ 64"
    by (simp_all add: unsigned_ucast_eq take_bit_nat_eq_self)
  then show ?thesis
    by (subst unat_mult_lem [THEN iffD1]) simp_all
qed

lemma threshold_eq:
  assumes "period \<noteq> 0"
  shows "unat (NvPSSFusionFailureStreakThreshold errorMs period) =
    min (2 ^ 32 - 1) (max 2 (unat errorMs * 1000 div unat period))"
proof -
  define it :: u64 where "it = ucast errorMs * 1000 div period"
  have it: "unat it = unat errorMs * 1000 div unat period"
    unfolding it_def unat_div unat_ms_to_us ..
  have small: "unat (ucast it :: u32) = unat it" if "unat it < 2 ^ 32"
    using that by (simp add: unsigned_ucast_eq take_bit_nat_eq_self)
  have "NvPSSFusionFailureStreakThreshold errorMs period =
      (if unat it < 2 then 2 else if unat it > 2 ^ 32 - 1 then 0xFFFFFFFF else ucast it)"
    using assms by (simp add: NvPSSFusionFailureStreakThreshold_def Let_def it_def [symmetric] pss_fs
        word_less_nat_alt)
  then show ?thesis
    unfolding it [symmetric] using small by (auto simp: min_def max_def)
qed

lemma success_clears:
  "fh_error h \<Longrightarrow> \<not> fh_error (snd (noteSuccess stage h)) \<Longrightarrow> fh_streak (snd (noteSuccess stage h)) j = 0"
  by (auto simp: noteSuccess_def Let_def list_ex_iff split: if_splits)

section \<open>Rate of the audit records\<close>

text \<open>
  The failures and successes of a stage as pairs of whether it failed and when, and the times at which a
  failure is recorded.
\<close>

fun failure_records :: "u32 \<Rightarrow> (bool \<times> u64) list \<Rightarrow> NvPSSFusionStageEpisode \<Rightarrow> u64 list" where
  "failure_records iv [] e = []"
| "failure_records iv ((failed, now) # ns) e =
     (let (r, e') = (if failed then NvPSSFusionStageNoteFailure now iv e else NvPSSFusionStageNoteSuccess now iv e)
      in (if r = RECORD_STARTED \<or> r = RECORD_ONGOING then [now] else []) @ failure_records iv ns e')"

text \<open>What an episode says about the last recorded failure.\<close>

definition episode_ok :: "u32 \<Rightarrow> u64 \<Rightarrow> u64 option \<Rightarrow> NvPSSFusionStageEpisode \<Rightarrow> bool" where
  "episode_ok iv now prev e \<longleftrightarrow>
     (if ep_open e
      then prev = Some (ep_lastRecordMs e) \<and> ep_lastRecordMs e \<le> ep_lastFailureMs e \<and> ep_lastFailureMs e \<le> now
      else (\<forall>l. prev = Some l \<longrightarrow> l \<le> now \<and> ucast iv \<le> now - l))"

lemma word_diff_mono_left: "a \<le> b \<Longrightarrow> b \<le> c \<Longrightarrow> b - a \<le> c - a" for a b c :: u64
  by (simp add: word_le_nat_alt unat_sub)

lemma word_diff_mono_right: "a \<le> b \<Longrightarrow> b \<le> c \<Longrightarrow> c - b \<le> c - a" for a b c :: u64
  by (simp add: word_le_nat_alt unat_sub)

lemma episode_ok_later: "episode_ok iv now prev e \<Longrightarrow> now \<le> now' \<Longrightarrow> episode_ok iv now' prev e"
  by (auto simp: episode_ok_def split: if_splits intro: order_trans word_diff_mono_left)

lemma episode_ok_prev: "episode_ok iv now prev e \<Longrightarrow> prev = Some l \<Longrightarrow> l \<le> now"
  by (auto simp: episode_ok_def split: if_splits)

lemma episode_failure:
  assumes "episode_ok iv now prev e" "(r, e') = NvPSSFusionStageNoteFailure now iv e"
  shows "if r = RECORD_STARTED \<or> r = RECORD_ONGOING
         then episode_ok iv now (Some now) e' \<and> (\<forall>l. prev = Some l \<longrightarrow> ucast iv \<le> now - l)
         else episode_ok iv now prev e'"
  using assms
  by (auto simp: episode_ok_def NvPSSFusionStageNoteFailure_def Let_def split: if_splits)

lemma episode_success:
  assumes "episode_ok iv now prev e" "(r, e') = NvPSSFusionStageNoteSuccess now iv e"
  shows "r \<noteq> RECORD_STARTED \<and> r \<noteq> RECORD_ONGOING \<and> episode_ok iv now prev e'"
proof (cases "ep_open e \<and> \<not> now - ep_lastFailureMs e < ucast iv")
  case True
  then have "ucast iv \<le> now - ep_lastRecordMs e"
    using assms(1) word_diff_mono_right [of "ep_lastRecordMs e" "ep_lastFailureMs e" now]
    by (auto simp: episode_ok_def)
  with True show ?thesis
    using assms by (auto simp: episode_ok_def NvPSSFusionStageNoteSuccess_def)
qed (use assms in \<open>auto simp: NvPSSFusionStageNoteSuccess_def\<close>)

lemma failure_records_spaced:
  assumes "episode_ok iv now prev e" "sorted (map snd ns)" "\<And>x. x \<in> set ns \<Longrightarrow> now \<le> snd x"
  shows "sorted_wrt (\<lambda>a b. a \<le> b \<and> ucast iv \<le> b - a) (failure_records iv ns e) \<and>
    (\<forall>b \<in> set (failure_records iv ns e). now \<le> b \<and> (\<forall>a. prev = Some a \<longrightarrow> ucast iv \<le> b - a))"
  using assms
proof (induction ns arbitrary: now prev e)
  case Nil
  then show ?case by simp
next
  case (Cons m ns)
  obtain failed at where m: "m = (failed, at)" by fastforce
  obtain r e' where re: "(r, e') = (if failed then NvPSSFusionStageNoteFailure at iv e
      else NvPSSFusionStageNoteSuccess at iv e)"
    by (metis prod.exhaust)
  define prev' where "prev' = (if r = RECORD_STARTED \<or> r = RECORD_ONGOING then Some at else prev)"
  have now: "now \<le> at" using Cons.prems(3) [of m] by (simp add: m)
  then have ok: "episode_ok iv at prev e" by (rule episode_ok_later [OF Cons.prems(1)])
  have ok': "episode_ok iv at prev' e'"
    using episode_failure [OF ok] episode_success [OF ok] re
    by (cases failed) (auto simp: prev'_def split: if_splits)
  have spaced: "ucast iv \<le> at - l" if "r = RECORD_STARTED \<or> r = RECORD_ONGOING" "prev = Some l" for l
    using episode_failure [OF ok, of r e'] episode_success [OF ok, of r e'] re that
    by (cases failed) (auto simp: prev'_def split: if_splits)
  have IH: "sorted_wrt (\<lambda>a b. a \<le> b \<and> ucast iv \<le> b - a) (failure_records iv ns e')"
    "\<forall>b \<in> set (failure_records iv ns e'). at \<le> b \<and> (\<forall>a. prev' = Some a \<longrightarrow> ucast iv \<le> b - a)"
    using Cons.IH [OF ok'] Cons.prems(2) by (auto simp: m)
  have recs: "failure_records iv (m # ns) e =
      (if r = RECORD_STARTED \<or> r = RECORD_ONGOING then [at] else []) @ failure_records iv ns e'"
    using re [symmetric] by (simp add: m)
  have far: "ucast iv \<le> b - l" if "prev = Some l" "b \<in> set (failure_records iv ns e')" for b l
  proof (cases "r = RECORD_STARTED \<or> r = RECORD_ONGOING")
    case True
    have "at - l \<le> b - l"
      using IH(2) that episode_ok_prev [OF ok] by (intro word_diff_mono_left) auto
    then show ?thesis using spaced [OF True that(1)] by simp
  qed (use IH(2) that in \<open>auto simp: prev'_def\<close>)
  show ?case
    unfolding recs using IH far spaced now by (auto simp: prev'_def)
qed

section \<open>Properties\<close>

text \<open>C11.  The health fault is not lost between the two loops. However the atomic accesses of the input loop
  and of the fusion loop interleave, a stage whose failure streak has reached its threshold has the fault
  raised, or its loop stands right before raising it and the mutex is all it can wait for.\<close>

theorem fusion_fault_not_lost:
  assumes "health_reachable thr s" "\<And>j. 0 < thr j" "thr j \<le> streak_of s j"
  shows "fh_error (hs_latch s) \<or>
    hs_point s (loop_of j) = Raise j \<and>
    (hs_mutex s = None \<longrightarrow> (\<exists>s'. health_step thr (loop_of j) s s' \<and> fh_error (hs_latch s')))"
proof -
  have "fh_error (hs_latch s) \<or> hs_point s (loop_of j) = Raise j"
    using health_reachable_inv [OF assms(1,2)] assms(3) by (auto simp: health_inv_def covered_def not_less dest: spec [of _ j])
  moreover have "\<exists>s'. health_step thr (loop_of j) s s' \<and> fh_error (hs_latch s')"
    if "hs_point s (loop_of j) = Raise j" "hs_mutex s = None"
    using raise [OF that] by fastforce
  ultimately show ?thesis by blast
qed


text \<open>C27.  When a failing stage escalates. From a healthy start, \<open>k\<close> failures of a stage in a row raise the fault
  exactly when \<open>k\<close> reaches the threshold, and the threshold is the configured duration counted in periods
  of the stage's loop, at least 2, without overflow.\<close>

theorem fusion_failure_escalates:
  assumes "fh_streak h stage = 0" "\<not> fh_error h" "k < 2 ^ 32" "period \<noteq> 0"
  shows "fh_error ((fail_once stage (NvPSSFusionFailureStreakThreshold errorMs period) ^^ k) h) \<longleftrightarrow>
    min (2 ^ 32 - 1) (max 2 (unat errorMs * 1000 div unat period)) \<le> k"
proof -
  have "0 < NvPSSFusionFailureStreakThreshold errorMs period"
    by (simp add: word_less_nat_alt threshold_eq [OF assms(4)])
  from fail_escalates [OF assms(1,2) this assms(3)] show ?thesis
    by (simp only: threshold_eq [OF assms(4)])
qed

text \<open>The audit records of a failing stage are rate limited. For failures and successes in any order at
  non-decreasing times, any two records of a failure are at least the interval apart.\<close>

theorem failure_records_rate_limited:
  assumes "sorted (map snd ns)"
  shows "sorted_wrt (\<lambda>a b. a \<le> b \<and> ucast iv \<le> b - a) (failure_records iv ns episode_initial)"
proof -
  have "episode_ok iv 0 None episode_initial" by (simp add: episode_ok_def episode_initial_def)
  from failure_records_spaced [OF this assms] show ?thesis by simp
qed

section \<open>The properties at work\<close>

definition example_health :: HealthState where
  "example_health = goto InputLoop (Raise FUSION_STAGE_PROCESS_EVENT)
     (set_streak FUSION_STAGE_PROCESS_EVENT 2 (set_streak FUSION_STAGE_PROCESS_EVENT 1 health_initial))"

lemma example_health_reachable: "health_reachable (\<lambda>_. 2) example_health"
proof -
  let ?a = "set_streak FUSION_STAGE_PROCESS_EVENT 1 health_initial"
  have start: "hs_point health_initial t = Outside" "streak_of health_initial j = 0" for t j
    by (simp_all add: health_initial_def streak_of_def fusion_health_initial_def)
  have "health_step (\<lambda>_. 2) InputLoop health_initial ?a"
    by (rule fail_below) (simp_all add: start loop_of_def)
  moreover have "health_step (\<lambda>_. 2) InputLoop ?a example_health"
    unfolding example_health_def by (rule fail_reach) (simp_all add: start loop_of_def)
  ultimately show ?thesis
    by (metis health_next health_start)
qed

theorem fusion_fault_not_lost_witness:
  "streak_of example_health FUSION_STAGE_PROCESS_EVENT = 2 \<and>
   (fh_error (hs_latch example_health) \<or>
    hs_point example_health InputLoop = Raise FUSION_STAGE_PROCESS_EVENT \<and>
    (hs_mutex example_health = None \<longrightarrow>
      (\<exists>s'. health_step (\<lambda>_. 2) InputLoop example_health s' \<and> fh_error (hs_latch s'))))"
proof -
  have streak: "streak_of example_health FUSION_STAGE_PROCESS_EVENT = 2"
    by (simp add: example_health_def)
  have loop: "loop_of FUSION_STAGE_PROCESS_EVENT = InputLoop" by (simp add: loop_of_def)
  show ?thesis
    using fusion_fault_not_lost [OF example_health_reachable, of FUSION_STAGE_PROCESS_EVENT]
    unfolding loop streak by simp
qed


theorem fusion_failure_escalates_witness:
  "fh_error ((fail_once FUSION_STAGE_PERFORM_FUSION (NvPSSFusionFailureStreakThreshold 1000 2000) ^^ 500)
     fusion_health_initial) \<and>
   \<not> fh_error ((fail_once FUSION_STAGE_PERFORM_FUSION (NvPSSFusionFailureStreakThreshold 1000 2000) ^^ 499)
     fusion_health_initial)"
proof -
  have start: "fh_streak fusion_health_initial FUSION_STAGE_PERFORM_FUSION = 0" "\<not> fh_error fusion_health_initial"
    by (simp_all add: fusion_health_initial_def)
  show ?thesis
    using fusion_failure_escalates [OF start, of 500 2000 1000]
      fusion_failure_escalates [OF start, of 499 2000 1000] by simp
qed

theorem failure_records_rate_limited_witness:
  "failure_records 1000 [(True, 5), (False, 6), (True, 7), (True, 1005), (False, 2005), (True, 2006)]
     episode_initial = [5, 1005, 2006] \<and>
   sorted_wrt (\<lambda>a b. a \<le> b \<and> 1000 \<le> b - a) [5, 1005, 2006 :: u64]"
proof -
  let ?ns = "[(True, 5), (False, 6), (True, 7), (True, 1005), (False, 2005), (True, 2006)]"
  have "failure_records 1000 ?ns episode_initial = [5, 1005, 2006]"
    by code_simp
  with failure_records_rate_limited [of ?ns 1000] show ?thesis by simp
qed

end
