(* ===== verification/Pss_Trust.thy ===== *)
theory Pss_Trust
  imports Pss_Staging Gateway_Protocol "HOL-Library.AList"
begin

text \<open>
  Which sources the PSS daemon trusts (\<^verbatim>\<open>NvPSSSafetyEventManager.cpp\<close>): trust reports, the derived verdict of
  a sensor group, the daemon's own verdict events and their re-assertion, the freshness rule and the check
  of a producer's identity.

  The two hash tables are association lists: the names are written once at start-up, and the invalid
  sensors are updated by \<open>AList.update\<close> and \<open>AList.delete\<close>, so a key occurs at most once. A call that reads
  the clock takes the time as an argument, one reading per call.
\<close>

section \<open>Configuration and state\<close>

definition CLIENT_SAFETY_MONITOR :: u8 where [pss_fs]: "CLIENT_SAFETY_MONITOR = 2"
definition CLIENT_PERCEPTION_MONITOR :: u8 where [pss_fs]: "CLIENT_PERCEPTION_MONITOR = 4"
definition MAX_SUPPORTED_PIPELINES :: u8 where [pss_fs]: "MAX_SUPPORTED_PIPELINES = 8"

record PssSourceCfg =
  so_groupPipelineId :: u8
  so_groupMembers :: "u8 list"
  so_idToName :: "(u8 \<times> string) list"
  so_loaded :: bool
  so_maxPipelines :: u8
  so_stalenessMs :: u64
  so_streamConfigured :: bool

definition source_cfg_initial :: PssSourceCfg where
  "source_cfg_initial =
     \<lparr>so_groupPipelineId = 0, so_groupMembers = [], so_idToName = [], so_loaded = False, so_maxPipelines = 2,
      so_stalenessMs = 0xFFFFFFFFFFFFFFFF, so_streamConfigured = False\<rparr>"

definition SetSensorGroup :: "u8 \<Rightarrow> u8 list \<Rightarrow> PssSourceCfg \<Rightarrow> PssSourceCfg" where
  "SetSensorGroup groupPipelineId memberPipelineIds cfg =
     cfg\<lparr>so_groupPipelineId := groupPipelineId, so_groupMembers := memberPipelineIds\<rparr>"

definition SetSensorConfig :: "(u8 \<times> string) list \<Rightarrow> PssSourceCfg \<Rightarrow> PssSourceCfg" where
  "SetSensorConfig pipelineIdToName cfg = cfg\<lparr>so_idToName := pipelineIdToName, so_loaded := (pipelineIdToName \<noteq> [])\<rparr>"

text \<open>\<open>timeWindowSize\<close> is a signed count of milliseconds; \<open>None\<close> is \<open>NVPSSD_FAIL\<close>.\<close>

definition ConfigureEventStream :: "int \<Rightarrow> u8 \<Rightarrow> PssSourceCfg \<Rightarrow> PssSourceCfg option" where
  "ConfigureEventStream timeWindowSize maxPipelines cfg =
     (if maxPipelines = 0 \<or> maxPipelines > MAX_SUPPORTED_PIPELINES then None
      else if timeWindowSize < 0 then None
      else Some (cfg\<lparr>so_maxPipelines := maxPipelines, so_stalenessMs := of_int timeWindowSize,
                     so_streamConfigured := True\<rparr>))"

datatype GroupVerdict = Trusted | Untrusted | Pending

record PssTrust =
  tr_invalidSensors :: "(u8 \<times> EventCause) list"
  tr_aiPipelineInvalid :: bool
  tr_lastEmittedGroupVerdict :: GroupVerdict
  tr_lastGroupVerdict :: GroupVerdict
  tr_nextEventId :: u32
  tr_input :: "(int \<times> SafetyEvent) list"

definition trust_initial :: "u32 \<Rightarrow> PssTrust" where
  "trust_initial seed =
     \<lparr>tr_invalidSensors = [], tr_aiPipelineInvalid = False, tr_lastEmittedGroupVerdict = Trusted,
      tr_lastGroupVerdict = Trusted, tr_nextEventId = seed, tr_input = []\<rparr>"

section \<open>Daemon event ids\<close>

text \<open>The id and the counter after it. The loop runs at most three times.\<close>

function nextDaemonEventId :: "u32 \<Rightarrow> u32 \<times> u32" where
  "nextDaemonEventId counter =
     (if counter = 0 \<or> counter = 0xFFFFFFFF then nextDaemonEventId (counter + 1) else (counter, counter + 1))"
  by auto
termination
  by (relation "measure (\<lambda>c. if c = 0xFFFFFFFF then 2 else if c = 0 then 1 else 0 :: nat)") auto

declare nextDaemonEventId.simps [simp del]

section \<open>Groups and trust queries\<close>

definition IsSensorGroupId :: "PssSourceCfg \<Rightarrow> u8 \<Rightarrow> bool" where
  "IsSensorGroupId cfg pipelineId \<longleftrightarrow> so_groupMembers cfg \<noteq> [] \<and> pipelineId = so_groupPipelineId cfg"

definition IsRequiredSourcePipeline :: "PssSourceCfg \<Rightarrow> u8 \<Rightarrow> bool" where
  "IsRequiredSourcePipeline cfg pipelineId =
     (if pipelineId = 0 then False
      else if so_groupMembers cfg \<noteq> [] then pipelineId = so_groupPipelineId cfg
      else if \<not> so_loaded cfg then False
      else map_of (so_idToName cfg) pipelineId \<noteq> None)"

text \<open>The loop leaves at the first healthy member; \<open>anyInit\<close> is carried.\<close>

fun group_scan :: "(u8 \<times> EventCause) list \<Rightarrow> u8 list \<Rightarrow> bool \<Rightarrow> GroupVerdict" where
  "group_scan invalid [] anyInit = (if anyInit then Pending else Untrusted)"
| "group_scan invalid (member # members) anyInit =
     (case map_of invalid member of
        None \<Rightarrow> Trusted
      | Some cause \<Rightarrow> group_scan invalid members (anyInit \<or> cause = CAUSE_SAIM_INIT))"

definition EvaluateGroupVerdictLocked :: "PssSourceCfg \<Rightarrow> PssTrust \<Rightarrow> GroupVerdict" where
  "EvaluateGroupVerdictLocked cfg s = group_scan (tr_invalidSensors s) (so_groupMembers cfg) False"

definition QueryTrustState :: "PssSourceCfg \<Rightarrow> u8 \<Rightarrow> PssTrust \<Rightarrow> TrustState" where
  "QueryTrustState cfg pipelineId s =
     (if IsSensorGroupId cfg pipelineId
      then \<lparr>ts_sensorInvalid = (EvaluateGroupVerdictLocked cfg s = Untrusted),
            ts_aiPipelineInvalid = tr_aiPipelineInvalid s\<rparr>
      else \<lparr>ts_sensorInvalid = (map_of (tr_invalidSensors s) pipelineId \<noteq> None),
            ts_aiPipelineInvalid = tr_aiPipelineInvalid s\<rparr>)"

section \<open>Verdict events of the daemon\<close>

definition make_verdict :: "u32 \<Rightarrow> EventType \<Rightarrow> u64 \<Rightarrow> EventCause \<Rightarrow> u8 \<Rightarrow> string \<Rightarrow> SafetyEvent" where
  "make_verdict i type nowNs cause pipelineId name =
     seal_event
       \<lparr>se_id = i, se_sensorIdentifier = snprintf_identifier name, se_type = type, se_timestamp = nowNs,
        se_confidenceLevel = F32_ONE, se_processed = False,
        se_fusionMetadata = zero_metadata\<lparr>fm_pipelineID := pipelineId, fm_clientID := 0\<rparr>,
        se_cause = cause, se_integrity = \<lparr>mi_schemaVersion = 0, mi_crc32 = 0\<rparr>\<rparr>"

text \<open>Draw an id, make the event, append it to the input queue.\<close>

definition push_verdict :: "EventType \<Rightarrow> u64 \<Rightarrow> EventCause \<Rightarrow> u8 \<Rightarrow> string \<Rightarrow> PssTrust \<Rightarrow> PssTrust" where
  "push_verdict type nowNs cause pipelineId name s =
     (let (i, counter) = nextDaemonEventId (tr_nextEventId s)
      in s\<lparr>tr_nextEventId := counter, tr_input := tr_input s @ [(0, make_verdict i type nowNs cause pipelineId name)]\<rparr>)"

definition EmitGroupTrustEvent :: "EventType \<Rightarrow> u8 \<Rightarrow> string \<Rightarrow> u64 \<Rightarrow> PssTrust \<Rightarrow> PssTrust" where
  "EmitGroupTrustEvent type groupId groupName nowNs s =
     (if groupName = [] then s
      else push_verdict type nowNs
             (if type = SENSOR_INVALID then CAUSE_SAIM_UNKNOWN else CAUSE_SAIM_SENSOR_HEALTHY) groupId groupName s)"

definition nameOf :: "PssSourceCfg \<Rightarrow> u8 \<Rightarrow> string" where
  "nameOf cfg i = (case map_of (so_idToName cfg) i of Some name \<Rightarrow> name | None \<Rightarrow> [])"

section \<open>Trust reports\<close>

definition is_sensor_report :: "EventType \<Rightarrow> bool" where
  "is_sensor_report type \<longleftrightarrow> type = SENSOR_INVALID \<or> type = SENSOR_VALID"

definition is_ai_report :: "EventType \<Rightarrow> bool" where
  "is_ai_report type \<longleftrightarrow> type = AI_PIPELINE_INVALID \<or> type = AI_PIPELINE_VALID"

definition apply_report :: "SafetyEvent \<Rightarrow> PssTrust \<Rightarrow> PssTrust" where
  "apply_report event s =
     (let pid = fm_pipelineID (se_fusionMetadata event)
      in if se_type event = SENSOR_INVALID
         then s\<lparr>tr_invalidSensors := AList.update pid (se_cause event) (tr_invalidSensors s)\<rparr>
         else if se_type event = SENSOR_VALID
         then s\<lparr>tr_invalidSensors := AList.delete pid (tr_invalidSensors s)\<rparr>
         else if se_type event = AI_PIPELINE_INVALID then s\<lparr>tr_aiPipelineInvalid := True\<rparr>
         else if se_type event = AI_PIPELINE_VALID then s\<lparr>tr_aiPipelineInvalid := False\<rparr>
         else s)"

definition group_transition :: "PssSourceCfg \<Rightarrow> u64 \<Rightarrow> PssTrust \<Rightarrow> PssTrust" where
  "group_transition cfg nowNs s =
     (let verdict = EvaluateGroupVerdictLocked cfg s;
          emit = (verdict \<noteq> Pending \<and> verdict \<noteq> tr_lastEmittedGroupVerdict s);
          s = s\<lparr>tr_lastGroupVerdict := verdict,
                tr_lastEmittedGroupVerdict := (if emit then verdict else tr_lastEmittedGroupVerdict s)\<rparr>
      in if emit
         then EmitGroupTrustEvent (if verdict = Untrusted then SENSOR_INVALID else SENSOR_VALID)
                (so_groupPipelineId cfg) (nameOf cfg (so_groupPipelineId cfg)) nowNs s
         else s)"

definition OnTrustReport :: "PssSourceCfg \<Rightarrow> u64 \<Rightarrow> u8 \<Rightarrow> SafetyEvent \<Rightarrow> PssTrust \<Rightarrow> bool \<times> PssTrust" where
  "OnTrustReport cfg nowNs reporterClientType event s =
     (let isSensorTrustReport = is_sensor_report (se_type event);
          isAIPipelineTrustReport = is_ai_report (se_type event)
      in if \<not> isSensorTrustReport \<and> \<not> isAIPipelineTrustReport then (False, s)
         else if isSensorTrustReport \<and> reporterClientType \<noteq> CLIENT_SAFETY_MONITOR \<or>
           isAIPipelineTrustReport \<and> reporterClientType \<noteq> CLIENT_PERCEPTION_MONITOR then (False, s)
         else if isSensorTrustReport \<and> IsSensorGroupId cfg (fm_pipelineID (se_fusionMetadata event)) then (False, s)
         else
           (let s = apply_report event s
            in (True, if isSensorTrustReport \<and> so_groupMembers cfg \<noteq> [] then group_transition cfg nowNs s else s)))"

section \<open>Re-assertion\<close>

text \<open>What is taken under the trust mutex, and what is queued after it was released.\<close>

record ReassertSnapshot =
  ra_aiInvalid :: bool
  ra_groupUntrusted :: bool
  ra_cameras :: "(u8 \<times> EventCause) list"

definition reassert_snapshot :: "PssSourceCfg \<Rightarrow> PssTrust \<Rightarrow> ReassertSnapshot" where
  "reassert_snapshot cfg s =
     (if so_groupMembers cfg \<noteq> []
      then \<lparr>ra_aiInvalid = tr_aiPipelineInvalid s,
            ra_groupUntrusted = (tr_lastEmittedGroupVerdict s = Untrusted), ra_cameras = []\<rparr>
      else \<lparr>ra_aiInvalid = tr_aiPipelineInvalid s, ra_groupUntrusted = False,
            ra_cameras = sort_key fst (tr_invalidSensors s)\<rparr>)"

definition reassert_camera :: "PssSourceCfg \<Rightarrow> u64 \<Rightarrow> u8 \<times> EventCause \<Rightarrow> PssTrust \<Rightarrow> PssTrust" where
  "reassert_camera cfg nowNs cam s =
     (if nameOf cfg (fst cam) = [] then s
      else push_verdict SENSOR_INVALID nowNs (snd cam) (fst cam) (nameOf cfg (fst cam)) s)"

definition reassert_push :: "PssSourceCfg \<Rightarrow> u64 \<Rightarrow> ReassertSnapshot \<Rightarrow> PssTrust \<Rightarrow> PssTrust" where
  "reassert_push cfg nowNs snap s =
     (let s = (if ra_aiInvalid snap then push_verdict AI_PIPELINE_INVALID nowNs CAUSE_NONE 0 [] s else s);
          groupId = so_groupPipelineId cfg;
          s = (if ra_groupUntrusted snap \<and> nameOf cfg groupId \<noteq> []
               then push_verdict SENSOR_INVALID nowNs CAUSE_SAIM_UNKNOWN groupId (nameOf cfg groupId) s else s)
      in fold (reassert_camera cfg nowNs) (ra_cameras snap) s)"

definition ReassertStandingVerdicts :: "PssSourceCfg \<Rightarrow> u64 \<Rightarrow> PssTrust \<Rightarrow> PssTrust" where
  "ReassertStandingVerdicts cfg nowNs s = reassert_push cfg nowNs (reassert_snapshot cfg s) s"

section \<open>Freshness and identity\<close>

definition isEventStale :: "PssSourceCfg \<Rightarrow> u64 \<Rightarrow> u64 \<Rightarrow> bool" where
  "isEventStale cfg eventTimestampNs nowMs =
     (let eventMs = eventTimestampNs div 1000000
      in if eventMs > nowMs \<and> eventMs - nowMs > so_stalenessMs cfg then True
         else nowMs > eventMs \<and> nowMs - eventMs > so_stalenessMs cfg)"

text \<open>\<open>strncpy(dst, src, 63)\<close> and the closing NUL.\<close>

definition strncpy_identifier :: "byte list \<Rightarrow> byte list" where
  "strncpy_identifier src =
     (let cs = takeWhile (\<lambda>b. b \<noteq> 0) (take (MAX_INDENTIFIER_LENGTH - 1) src)
      in cs @ replicate (MAX_INDENTIFIER_LENGTH - length cs) 0)"

definition fused_from :: "PssSourceCfg \<Rightarrow> u64 \<Rightarrow> SeverityLevel \<Rightarrow> SafetyEvent \<Rightarrow> PssTrust \<Rightarrow> FusedSafetyEvent \<times> PssTrust" where
  "fused_from cfg nowMs severity event s =
     (let (i, counter) = nextDaemonEventId (tr_nextEventId s)
      in (\<lparr>fe_id = i, fe_sensorIdentifier = strncpy_identifier (se_sensorIdentifier event), fe_type = se_type event,
           fe_cause = se_cause event, fe_severity = severity, fe_timestamp = se_timestamp event,
           fe_confidenceLevel = se_confidenceLevel event,
           fe_status = (if isEventStale cfg (se_timestamp event) nowMs then STALE else UNKNOWN),
           fe_fusionMetadata = se_fusionMetadata event\<rparr>,
          s\<lparr>tr_nextEventId := counter\<rparr>))"

definition CreateBypassEvent :: "PssSourceCfg \<Rightarrow> u64 \<Rightarrow> SafetyEvent \<Rightarrow> PssTrust \<Rightarrow> FusedSafetyEvent \<times> PssTrust" where
  "CreateBypassEvent cfg nowMs event s = fused_from cfg nowMs OPERATIONAL event s"

definition CreateInvalidSourceEvent :: "PssSourceCfg \<Rightarrow> u64 \<Rightarrow> SafetyEvent \<Rightarrow> PssTrust \<Rightarrow> FusedSafetyEvent \<times> PssTrust" where
  "CreateInvalidSourceEvent cfg nowMs event s = fused_from cfg nowMs CRITICAL event s"

text \<open>The bytes of a name as the comparison of the two strings sees them.\<close>

definition name_bytes :: "string \<Rightarrow> byte list" where
  "name_bytes name = map (\<lambda>c. of_nat (of_char c)) name"

definition ValidateEventSource :: "PssSourceCfg \<Rightarrow> SafetyEvent \<Rightarrow> bool" where
  "ValidateEventSource cfg event =
     (let pipelineId = fm_pipelineID (se_fusionMetadata event)
      in if pipelineId > so_maxPipelines cfg then False
         else if so_loaded cfg \<and> pipelineId \<noteq> 0 then
           (case map_of (so_idToName cfg) pipelineId of
              None \<Rightarrow> False
            | Some name \<Rightarrow>
              (let sensorId = takeWhile (\<lambda>b. b \<noteq> 0) (take MAX_INDENTIFIER_LENGTH (se_sensorIdentifier event))
               in if sensorId = []
                  then \<not> IsSensorGroupId cfg pipelineId \<and> NvPSSPsdIsMustDeliverReport (se_type event)
                  else sensorId = name_bytes name))
         else True)"

section \<open>Drawing event ids\<close>

fun draw_ids :: "nat \<Rightarrow> u32 \<Rightarrow> u32 list" where
  "draw_ids 0 counter = []"
| "draw_ids (Suc n) counter = (let (i, counter) = nextDaemonEventId counter in i # draw_ids n counter)"

lemma next_event_id:
  "nextDaemonEventId c = (let i = (if c = 0 \<or> c = 0xFFFFFFFF then 1 else c) in (i, i + 1))"
proof -
  have one: "nextDaemonEventId 1 = (1, 2)" by (subst nextDaemonEventId.simps) simp
  have zero: "nextDaemonEventId 0 = (1, 2)" by (subst nextDaemonEventId.simps) (simp add: one)
  have ovf: "(0xFFFFFFFF :: u32) + 1 = 0" by simp
  have top: "nextDaemonEventId 0xFFFFFFFF = (1, 2)"
    by (subst nextDaemonEventId.simps) (simp only: ovf zero simp_thms if_True)
  show ?thesis
  proof (cases "c = 0 \<or> c = 0xFFFFFFFF")
    case True
    then show ?thesis by (auto simp: zero top)
  next
    case False
    then show ?thesis by (subst nextDaemonEventId.simps) simp
  qed
qed

lemma next_event_id_valid: "wrap_valid (fst (nextDaemonEventId c))"
proof (cases "c = 0 \<or> c = 0xFFFFFFFF")
  case False
  then have "uint c \<noteq> 0" "uint c \<noteq> 0xFFFFFFFF" by (auto simp: word_uint_eq_iff)
  moreover have "0 \<le> uint c" "uint c < 0x100000000" using unsigned_less [of c] by simp_all
  ultimately have "1 \<le> uint c" "uint c \<le> 0xFFFFFFFE" by linarith+
  then show ?thesis using False by (simp add: next_event_id wrap_valid_uint)
qed (auto simp: next_event_id wrap_valid_def)

lemma next_event_id_next: "fst (nextDaemonEventId (snd (nextDaemonEventId c))) = wrap_next (fst (nextDaemonEventId c))"
proof -
  define i where "i = fst (nextDaemonEventId c)"
  have i: "wrap_valid i" "snd (nextDaemonEventId c) = i + 1"
    unfolding i_def by (rule next_event_id_valid) (simp add: next_event_id Let_def)
  have "i + 1 \<noteq> 0"
  proof
    assume "i + 1 = 0"
    then have "i = - 1" by (simp add: eq_neg_iff_add_eq_0)
    with i(1) have "uint (- 1 :: u32) \<le> 0xFFFFFFFE" by (simp only: wrap_valid_uint)
    then show False by (simp only: uint_word_ariths) simp
  qed
  moreover have "i + 1 = 0xFFFFFFFF \<longleftrightarrow> 0xFFFFFFFE \<le> i"
    using i(1) by (auto simp: wrap_valid_def)
  ultimately show ?thesis
    unfolding i(2) i_def [symmetric] by (auto simp: next_event_id Let_def wrap_next_def)
qed

lemma draw_ids_stream: "draw_ids n c = wrap_stream (fst (nextDaemonEventId c)) n"
proof (induction n arbitrary: c)
  case (Suc n)
  then show ?case
    by (simp add: wrap_stream_Cons case_prod_beta next_event_id_next)
qed (simp add: wrap_stream_def)

lemma wrap_stream_distinct:
  assumes "wrap_valid i" "n \<le> wrap_cycle"
  shows "distinct (wrap_stream i n)"
proof -
  have "(wrap_next ^^ k) i \<noteq> (wrap_next ^^ l) i" if "k < l" "l < n" for k l
  proof -
    have "(wrap_next ^^ (l - k)) ((wrap_next ^^ k) i) \<noteq> (wrap_next ^^ k) i"
      using assms that by (intro wrap_next_no_early_return) auto
    moreover have "(wrap_next ^^ (l - k)) ((wrap_next ^^ k) i) = (wrap_next ^^ l) i"
      using that(1) by (simp flip: funpow_add [THEN fun_cong, simplified comp_def])
    ultimately show ?thesis by metis
  qed
  then have "inj_on (\<lambda>k. (wrap_next ^^ k) i) {0..<n}"
    by (intro linorder_inj_onI) auto
  then show ?thesis by (simp add: wrap_stream_def distinct_map)
qed

section \<open>The verdict of a group\<close>

lemma group_scan_eq:
  "group_scan bad ms init =
     (if \<exists>m \<in> set ms. map_of bad m = None then Trusted
      else if init \<or> (\<exists>m \<in> set ms. map_of bad m = Some CAUSE_SAIM_INIT) then Pending else Untrusted)"
  by (induction ms arbitrary: init) (auto split: option.splits)

lemma group_verdict_eq:
  "EvaluateGroupVerdictLocked cfg s =
     (if \<exists>m \<in> set (so_groupMembers cfg). map_of (tr_invalidSensors s) m = None then Trusted
      else if \<exists>m \<in> set (so_groupMembers cfg). map_of (tr_invalidSensors s) m = Some CAUSE_SAIM_INIT then Pending
      else Untrusted)"
  by (simp add: EvaluateGroupVerdictLocked_def group_scan_eq)

section \<open>What the decision makers are told\<close>

text \<open>
  The verdict a stream of events leaves behind about a sensor, and about the AI pipeline: the last report on
  it, valid when there is none.
\<close>

definition told_sensor :: "u8 \<Rightarrow> SafetyEvent list \<Rightarrow> bool" where
  "told_sensor pid = foldl (\<lambda>told e. if is_sensor_report (se_type e) \<and> fm_pipelineID (se_fusionMetadata e) = pid
     then se_type e = SENSOR_INVALID else told) False"

definition told_ai :: "SafetyEvent list \<Rightarrow> bool" where
  "told_ai = foldl (\<lambda>told e. if is_ai_report (se_type e) then se_type e = AI_PIPELINE_INVALID else told) False"

lemma told_Nil [simp]: "\<not> told_sensor pid []" "\<not> told_ai []"
  by (simp_all add: told_sensor_def told_ai_def)

lemma told_snoc:
  "told_sensor pid (es @ [e]) =
     (if is_sensor_report (se_type e) \<and> fm_pipelineID (se_fusionMetadata e) = pid
      then se_type e = SENSOR_INVALID else told_sensor pid es)"
  "told_ai (es @ [e]) = (if is_ai_report (se_type e) then se_type e = AI_PIPELINE_INVALID else told_ai es)"
  by (simp_all add: told_sensor_def told_ai_def)

definition input_events :: "PssTrust \<Rightarrow> SafetyEvent list" where
  "input_events s = map snd (tr_input s)"

text \<open>
  The RPC thread hands a trust report to \<open>OnTrustReport\<close> and queues the report itself when it was accepted.
\<close>

definition report_trust :: "PssSourceCfg \<Rightarrow> u64 \<Rightarrow> int \<Rightarrow> u8 \<Rightarrow> SafetyEvent \<Rightarrow> PssTrust \<Rightarrow> PssTrust" where
  "report_trust cfg nowNs client reporterClientType event s =
     (let (accept, s) = OnTrustReport cfg nowNs reporterClientType event s
      in if accept then s\<lparr>tr_input := tr_input s @ [(client, event)]\<rparr> else s)"

datatype TrustEvent =
    TrustReport u64 int u8 SafetyEvent
  | Reassert u64

fun trust_step :: "PssSourceCfg \<Rightarrow> TrustEvent \<Rightarrow> PssTrust \<Rightarrow> PssTrust" where
  "trust_step cfg (TrustReport nowNs client type event) s = report_trust cfg nowNs client type event s"
| "trust_step cfg (Reassert nowNs) s = ReassertStandingVerdicts cfg nowNs s"

definition named_group :: "PssSourceCfg \<Rightarrow> bool" where
  "named_group cfg \<longleftrightarrow> so_groupMembers cfg \<noteq> [] \<and> nameOf cfg (so_groupPipelineId cfg) \<noteq> []"

definition sensors_told :: "PssSourceCfg \<Rightarrow> PssTrust \<Rightarrow> bool" where
  "sensors_told cfg s \<longleftrightarrow>
     (\<forall>pid. \<not> IsSensorGroupId cfg pid \<longrightarrow>
        told_sensor pid (input_events s) = (map_of (tr_invalidSensors s) pid \<noteq> None)) \<and>
     (so_groupMembers cfg \<noteq> [] \<longrightarrow>
        tr_lastEmittedGroupVerdict s = (if told_sensor (so_groupPipelineId cfg) (input_events s) then Untrusted else Trusted) \<and>
        (EvaluateGroupVerdictLocked cfg s \<noteq> Pending \<longrightarrow>
           tr_lastEmittedGroupVerdict s = EvaluateGroupVerdictLocked cfg s))"

definition told_inv :: "PssSourceCfg \<Rightarrow> PssTrust \<Rightarrow> bool" where
  "told_inv cfg s \<longleftrightarrow> told_ai (input_events s) = tr_aiPipelineInvalid s \<and> sensors_told cfg s"

lemma sensors_told_cong:
  assumes "tr_invalidSensors s' = tr_invalidSensors s" "tr_lastEmittedGroupVerdict s' = tr_lastEmittedGroupVerdict s"
    "\<And>q. told_sensor q (input_events s') = told_sensor q (input_events s)"
  shows "sensors_told cfg s' = sensors_told cfg s"
  by (simp only: sensors_told_def assms EvaluateGroupVerdictLocked_def)

lemma make_verdict_simps [simp]:
  "se_type (make_verdict i type now cause pid name) = type"
  "fm_pipelineID (se_fusionMetadata (make_verdict i type now cause pid name)) = pid"
  by (simp_all add: make_verdict_def seal_event_def Let_def)

lemma push_verdict_simps [simp]:
  "tr_invalidSensors (push_verdict type now cause pid name s) = tr_invalidSensors s"
  "tr_aiPipelineInvalid (push_verdict type now cause pid name s) = tr_aiPipelineInvalid s"
  "tr_lastEmittedGroupVerdict (push_verdict type now cause pid name s) = tr_lastEmittedGroupVerdict s"
  "input_events (push_verdict type now cause pid name s) =
     input_events s @ [make_verdict (fst (nextDaemonEventId (tr_nextEventId s))) type now cause pid name]"
  by (simp_all add: push_verdict_def case_prod_beta input_events_def)

lemma group_verdict_cong:
  "tr_invalidSensors s' = tr_invalidSensors s \<Longrightarrow> EvaluateGroupVerdictLocked cfg s' = EvaluateGroupVerdictLocked cfg s"
  by (simp add: EvaluateGroupVerdictLocked_def)

lemma report_types:
  "is_sensor_report SENSOR_INVALID" "is_sensor_report SENSOR_VALID" "\<not> is_sensor_report AI_PIPELINE_INVALID"
  "\<not> is_sensor_report AI_PIPELINE_VALID" "is_ai_report AI_PIPELINE_INVALID" "is_ai_report AI_PIPELINE_VALID"
  "\<not> is_ai_report SENSOR_INVALID" "\<not> is_ai_report SENSOR_VALID"
  by (simp_all add: is_sensor_report_def is_ai_report_def pss_enum)

lemma report_distinct:
  "SENSOR_INVALID \<noteq> AI_PIPELINE_INVALID" "AI_PIPELINE_INVALID \<noteq> SENSOR_INVALID" "SENSOR_VALID \<noteq> SENSOR_INVALID"
  "AI_PIPELINE_VALID \<noteq> AI_PIPELINE_INVALID" "AI_PIPELINE_VALID \<noteq> SENSOR_INVALID" "AI_PIPELINE_VALID \<noteq> SENSOR_VALID"
  "AI_PIPELINE_INVALID \<noteq> SENSOR_VALID"
  by (simp_all add: pss_enum)

lemma told_inv_initial: "told_inv cfg (trust_initial seed)"
  by (auto simp: told_inv_def sensors_told_def trust_initial_def input_events_def group_verdict_eq)

text \<open>Saying again what has been told changes nothing.\<close>

lemma told_inv_repeat:
  assumes "told_inv cfg s"
    "type = AI_PIPELINE_INVALID \<and> tr_aiPipelineInvalid s \<or> type = SENSOR_INVALID \<and> told_sensor pid (input_events s)"
  shows "told_inv cfg (push_verdict type now cause pid name s)"
proof -
  have "told_ai (input_events s) = tr_aiPipelineInvalid s"
    using assms(1) by (simp add: told_inv_def)
  then have "told_sensor q (input_events (push_verdict type now cause pid name s)) = told_sensor q (input_events s)"
    "told_ai (input_events (push_verdict type now cause pid name s)) = told_ai (input_events s)" for q
    using assms(2) by (auto simp: told_snoc report_types report_distinct)
  then show ?thesis
    using assms(1) sensors_told_cong [of "push_verdict type now cause pid name s" s cfg] by (simp add: told_inv_def)
qed

lemma told_inv_cameras:
  assumes "told_inv cfg s" "\<And>cam. cam \<in> set cams \<Longrightarrow> told_sensor (fst cam) (input_events s)"
  shows "told_inv cfg (fold (reassert_camera cfg now) cams s)"
  using assms
proof (induction cams arbitrary: s)
  case (Cons cam cams)
  have "told_inv cfg (reassert_camera cfg now cam s)"
    using Cons.prems(1) Cons.prems(2) [of cam] by (auto simp: reassert_camera_def intro!: told_inv_repeat)
  moreover have "told_sensor (fst c) (input_events (reassert_camera cfg now cam s))" if "c \<in> set cams" for c
    using Cons.prems(2) [of c] that by (simp add: reassert_camera_def told_snoc)
  ultimately show ?case by (simp add: Cons.IH)
qed simp

lemma told_inv_reassert:
  assumes "told_inv cfg s"
  shows "told_inv cfg (ReassertStandingVerdicts cfg now s)"
proof -
  let ?snap = "reassert_snapshot cfg s"
  define s1 where "s1 = (if ra_aiInvalid ?snap then push_verdict AI_PIPELINE_INVALID now CAUSE_NONE 0 [] s else s)"
  have s1: "told_inv cfg s1" "told_sensor q (input_events s1) = told_sensor q (input_events s)" for q
    using assms by (auto simp: s1_def reassert_snapshot_def told_snoc report_types intro!: told_inv_repeat)
  define s2 where "s2 = (if ra_groupUntrusted ?snap \<and> nameOf cfg (so_groupPipelineId cfg) \<noteq> []
    then push_verdict SENSOR_INVALID now CAUSE_SAIM_UNKNOWN (so_groupPipelineId cfg)
      (nameOf cfg (so_groupPipelineId cfg)) s1 else s1)"
  have "told_sensor (so_groupPipelineId cfg) (input_events s)" if "ra_groupUntrusted ?snap"
    using that assms by (auto simp: reassert_snapshot_def told_inv_def sensors_told_def split: if_splits)
  then have s2: "told_inv cfg s2" "told_sensor q (input_events s) \<Longrightarrow> told_sensor q (input_events s2)" for q
    using s1 by (auto simp: s2_def told_snoc report_types intro!: told_inv_repeat)
  have cams: "told_sensor (fst cam) (input_events s)" if "cam \<in> set (ra_cameras ?snap)" for cam
  proof -
    have "so_groupMembers cfg = []" "cam \<in> set (tr_invalidSensors s)"
      using that by (auto simp: reassert_snapshot_def split: if_splits)
    then show ?thesis
      using assms by (auto simp: told_inv_def sensors_told_def IsSensorGroupId_def map_of_eq_None_iff)
  qed
  have "ReassertStandingVerdicts cfg now s = fold (reassert_camera cfg now) (ra_cameras ?snap) s2"
    by (simp add: ReassertStandingVerdicts_def reassert_push_def Let_def s1_def s2_def)
  with told_inv_cameras [OF s2(1)] s2(2) cams show ?thesis by simp
qed

definition group_emits :: "PssSourceCfg \<Rightarrow> PssTrust \<Rightarrow> bool" where
  "group_emits cfg s \<longleftrightarrow>
     EvaluateGroupVerdictLocked cfg s \<noteq> Pending \<and> EvaluateGroupVerdictLocked cfg s \<noteq> tr_lastEmittedGroupVerdict s"

lemma group_transition_simps:
  assumes "nameOf cfg (so_groupPipelineId cfg) \<noteq> []"
  shows "tr_invalidSensors (group_transition cfg now s) = tr_invalidSensors s"
    "tr_aiPipelineInvalid (group_transition cfg now s) = tr_aiPipelineInvalid s"
    "tr_lastEmittedGroupVerdict (group_transition cfg now s) =
       (if group_emits cfg s then EvaluateGroupVerdictLocked cfg s else tr_lastEmittedGroupVerdict s)"
    "told_ai (input_events (group_transition cfg now s)) = told_ai (input_events s)"
    "told_sensor q (input_events (group_transition cfg now s)) =
       (if group_emits cfg s \<and> q = so_groupPipelineId cfg then EvaluateGroupVerdictLocked cfg s = Untrusted
        else told_sensor q (input_events s))"
  using assms
  by (auto simp: group_transition_def EmitGroupTrustEvent_def Let_def group_emits_def told_snoc report_types
      report_distinct input_events_def [of "_\<lparr>tr_lastGroupVerdict := _\<rparr>"]
      input_events_def [of "_\<lparr>tr_lastGroupVerdict := _, tr_lastEmittedGroupVerdict := _\<rparr>"] input_events_def [of s])

lemma told_inv_ai_report:
  assumes "told_inv cfg s" "is_ai_report (se_type event)"
  shows "told_inv cfg ((apply_report event s)\<lparr>tr_input := tr_input s @ [(client, event)]\<rparr>)"
proof -
  let ?s = "(apply_report event s)\<lparr>tr_input := tr_input s @ [(client, event)]\<rparr>"
  have "tr_invalidSensors ?s = tr_invalidSensors s" "tr_lastEmittedGroupVerdict ?s = tr_lastEmittedGroupVerdict s"
    "tr_aiPipelineInvalid ?s = (se_type event = AI_PIPELINE_INVALID)" "input_events ?s = input_events s @ [event]"
    using assms(2) by (auto simp: apply_report_def is_ai_report_def report_distinct Let_def input_events_def)
  moreover have "\<not> is_sensor_report (se_type event)"
    using assms(2) by (auto simp: is_ai_report_def report_types)
  ultimately show ?thesis
    using assms sensors_told_cong [of ?s s cfg] by (simp add: told_inv_def told_snoc)
qed

lemma apply_sensor_report:
  assumes "is_sensor_report (se_type event)"
  shows "tr_aiPipelineInvalid (apply_report event s) = tr_aiPipelineInvalid s"
    "tr_lastEmittedGroupVerdict (apply_report event s) = tr_lastEmittedGroupVerdict s"
    "tr_input (apply_report event s) = tr_input s"
    "map_of (tr_invalidSensors (apply_report event s)) q \<noteq> None \<longleftrightarrow>
       (if q = fm_pipelineID (se_fusionMetadata event) then se_type event = SENSOR_INVALID
        else map_of (tr_invalidSensors s) q \<noteq> None)"
  using assms
  by (auto simp: apply_report_def is_sensor_report_def report_distinct Let_def update_conv' delete_conv')

lemma told_inv_sensor_report:
  fixes now :: u64 and client :: int
  assumes inv: "told_inv cfg s" and sens: "is_sensor_report (se_type event)"
    and grp: "\<not> IsSensorGroupId cfg (fm_pipelineID (se_fusionMetadata event))"
    and named: "so_groupMembers cfg \<noteq> [] \<Longrightarrow> nameOf cfg (so_groupPipelineId cfg) \<noteq> []"
  defines "s1 \<equiv> apply_report event s"
  defines "s2 \<equiv> (if so_groupMembers cfg \<noteq> [] then group_transition cfg now s1 else s1)"
  shows "told_inv cfg (s2\<lparr>tr_input := tr_input s2 @ [(client, event)]\<rparr>)"
proof -
  let ?s = "s2\<lparr>tr_input := tr_input s2 @ [(client, event)]\<rparr>"
  note ap = apply_sensor_report [OF sens, of s, folded s1_def]
  have ev1: "input_events s1 = input_events s" by (simp add: input_events_def ap)
  have ev: "input_events ?s = input_events s2 @ [event]" by (simp add: input_events_def)
  have eq: "tr_invalidSensors ?s = tr_invalidSensors s1" "tr_aiPipelineInvalid ?s = tr_aiPipelineInvalid s"
    "told_ai (input_events s2) = told_ai (input_events s)"
    by (auto simp: s2_def group_transition_simps named ap ev1)
  have told2: "told_sensor q (input_events s2) = told_sensor q (input_events s)" if "\<not> IsSensorGroupId cfg q" for q
    using that by (auto simp: s2_def group_transition_simps named ev1 IsSensorGroupId_def)
  have nai: "\<not> is_ai_report (se_type event)" using sens by (auto simp: is_sensor_report_def report_types)
  have "told_sensor q (input_events ?s) = (map_of (tr_invalidSensors ?s) q \<noteq> None)" if "\<not> IsSensorGroupId cfg q" for q
    using that inv told2 [OF that] sens
    by (auto simp only: ev told_snoc eq ap told_inv_def sensors_told_def simp_thms if_True if_False split: if_splits)
  moreover have "told_ai (input_events ?s) = tr_aiPipelineInvalid ?s"
    using inv nai by (simp only: ev told_snoc eq told_inv_def if_False)
  moreover have "tr_lastEmittedGroupVerdict ?s =
      (if told_sensor (so_groupPipelineId cfg) (input_events ?s) then Untrusted else Trusted) \<and>
      (EvaluateGroupVerdictLocked cfg ?s \<noteq> Pending \<longrightarrow>
         tr_lastEmittedGroupVerdict ?s = EvaluateGroupVerdictLocked cfg ?s)" if "so_groupMembers cfg \<noteq> []"
  proof -
    let ?v = "EvaluateGroupVerdictLocked cfg s1" and ?told = "told_sensor (so_groupPipelineId cfg) (input_events s)"
    have "fm_pipelineID (se_fusionMetadata event) \<noteq> so_groupPipelineId cfg"
      using grp that by (simp add: IsSensorGroupId_def)
    then have told: "told_sensor (so_groupPipelineId cfg) (input_events ?s) =
        (if group_emits cfg s1 then ?v = Untrusted else ?told)"
      unfolding ev told_snoc using that by (simp add: s2_def group_transition_simps named ev1)
    have last: "tr_lastEmittedGroupVerdict ?s = (if group_emits cfg s1 then ?v else tr_lastEmittedGroupVerdict s)"
      using that by (simp add: s2_def group_transition_simps named ap)
    have verdict: "EvaluateGroupVerdictLocked cfg ?s = ?v"
      by (rule group_verdict_cong) (rule eq)
    have before: "tr_lastEmittedGroupVerdict s = (if ?told then Untrusted else Trusted)"
      using inv that by (simp add: told_inv_def sensors_told_def)
    have "group_emits cfg s1 \<longleftrightarrow> ?v \<noteq> Pending \<and> ?v \<noteq> tr_lastEmittedGroupVerdict s"
      by (simp add: group_emits_def ap)
    then show ?thesis
      unfolding told last verdict before by (cases ?v; cases ?told) simp_all
  qed
  ultimately show ?thesis by (simp only: told_inv_def sensors_told_def) blast
qed

lemma told_inv_step:
  assumes "told_inv cfg s" "so_groupMembers cfg \<noteq> [] \<Longrightarrow> nameOf cfg (so_groupPipelineId cfg) \<noteq> []"
  shows "told_inv cfg (trust_step cfg ev s)"
proof (cases ev)
  case (TrustReport now client type event)
  have ai: "tr_input (apply_report event s) = tr_input s" if "is_ai_report (se_type event)"
    by (simp add: apply_report_def Let_def)
  show ?thesis
    using told_inv_ai_report [OF assms(1), of event client] told_inv_sensor_report [OF assms(1) _ _ assms(2), of event now client]
      assms(1) ai
    by (auto simp: TrustReport report_trust_def OnTrustReport_def Let_def)
qed (simp add: told_inv_reassert [OF assms(1)])

lemma told_inv_run:
  assumes "so_groupMembers cfg \<noteq> [] \<Longrightarrow> nameOf cfg (so_groupPipelineId cfg) \<noteq> []"
  shows "told_inv cfg s \<Longrightarrow> told_inv cfg (fold (trust_step cfg) evs s)"
  by (induction evs arbitrary: s) (auto intro!: told_inv_step assms)

section \<open>Freshness and identity of events\<close>

lemma stale_iff:
  "isEventStale cfg ts nowMs \<longleftrightarrow> \<bar>uint ts div 1000000 - uint nowMs\<bar> > uint (so_stalenessMs cfg)"
proof -
  define e where "e = ts div 1000000"
  have e: "uint e = uint ts div 1000000" by (simp add: e_def uint_div)
  have diff: "uint (a - b) = uint a - uint b" if "b \<le> a" for a b :: u64
    using that by (simp add: uint_sub_lem word_le_def)
  have nonneg: "0 \<le> uint (so_stalenessMs cfg)" by simp
  show ?thesis
    unfolding isEventStale_def Let_def e_def [symmetric] e [symmetric]
    using diff [of e nowMs] diff [of nowMs e]
    by (auto simp: word_less_def word_le_def) (use nonneg in linarith)
qed

text \<open>A name that fits the identifier field comes back out of it.\<close>

definition name_ok :: "string \<Rightarrow> bool" where
  "name_ok name \<longleftrightarrow> name \<noteq> [] \<and> length name < MAX_INDENTIFIER_LENGTH \<and> (0 :: byte) \<notin> set (name_bytes name)"

lemma identifier_round_trip:
  assumes "name_ok name"
  shows "takeWhile (\<lambda>b. b \<noteq> 0) (snprintf_identifier name) = name_bytes name"
proof -
  have "snprintf_identifier name = name_bytes name @ replicate (MAX_INDENTIFIER_LENGTH - length name) 0"
    using assms by (simp add: snprintf_identifier_def name_ok_def name_bytes_def pss_enum)
  moreover have "takeWhile (\<lambda>b. b \<noteq> 0) (replicate n (0 :: byte)) = []" for n by (cases n) simp_all
  ultimately show ?thesis
    using assms by (simp add: name_ok_def) (subst takeWhile_append2, auto)
qed

section \<open>Properties\<close>

text \<open>C10.  The verdicts the decision makers are told are the trust state. Over any sequence of trust reports by any
  clients and of re-assertions, the last verdict queued about the AI pipeline and about each sensor is the
  current one, and the last one about the sensor group is its derived verdict: invalid when every member is
  down and none of them is only initialising, valid when a member is up, unchanged otherwise.\<close>

theorem verdicts_told:
  assumes "so_groupMembers cfg \<noteq> [] \<longrightarrow> nameOf cfg (so_groupPipelineId cfg) \<noteq> []"
    and "s = fold (trust_step cfg) evs (trust_initial seed)"
  shows "told_ai (input_events s) = tr_aiPipelineInvalid s \<and>
    (\<forall>pid. \<not> IsSensorGroupId cfg pid \<longrightarrow>
       told_sensor pid (input_events s) = (map_of (tr_invalidSensors s) pid \<noteq> None)) \<and>
    (so_groupMembers cfg \<noteq> [] \<longrightarrow>
       (\<forall>m \<in> set (so_groupMembers cfg). \<exists>cause. map_of (tr_invalidSensors s) m = Some cause \<and> cause \<noteq> CAUSE_SAIM_INIT) \<longrightarrow>
       told_sensor (so_groupPipelineId cfg) (input_events s)) \<and>
    (\<forall>m \<in> set (so_groupMembers cfg). map_of (tr_invalidSensors s) m = None \<longrightarrow>
       \<not> told_sensor (so_groupPipelineId cfg) (input_events s))"
proof -
  have "told_inv cfg s"
    unfolding assms(2) using assms(1) by (intro told_inv_run told_inv_initial) blast
  then have ai: "told_ai (input_events s) = tr_aiPipelineInvalid s" and sens: "sensors_told cfg s"
    by (simp_all add: told_inv_def)
  have "told_sensor (so_groupPipelineId cfg) (input_events s)"
    if "EvaluateGroupVerdictLocked cfg s = Untrusted" "so_groupMembers cfg \<noteq> []"
    using sens that by (auto simp: sensors_told_def split: if_splits)
  moreover have "\<not> told_sensor (so_groupPipelineId cfg) (input_events s)"
    if "EvaluateGroupVerdictLocked cfg s = Trusted" "so_groupMembers cfg \<noteq> []"
    using sens that by (auto simp: sensors_told_def split: if_splits)
  moreover have "EvaluateGroupVerdictLocked cfg s = Untrusted"
    if "\<forall>m \<in> set (so_groupMembers cfg). \<exists>cause. map_of (tr_invalidSensors s) m = Some cause \<and> cause \<noteq> CAUSE_SAIM_INIT"
    using that by (auto simp: group_verdict_eq)
  moreover have "EvaluateGroupVerdictLocked cfg s = Trusted \<and> so_groupMembers cfg \<noteq> []"
    if "m \<in> set (so_groupMembers cfg)" "map_of (tr_invalidSensors s) m = None" for m
    using that by (auto simp: group_verdict_eq)
  moreover have "\<forall>pid. \<not> IsSensorGroupId cfg pid \<longrightarrow>
      told_sensor pid (input_events s) = (map_of (tr_invalidSensors s) pid \<noteq> None)"
    using sens unfolding sensors_told_def by blast
  ultimately show ?thesis using ai by blast
qed



text \<open>C37.  Event ids of the daemon. Up to \<open>2 ^ 32 - 2\<close> events in a row get different ids, and none of them is 0 or
  the value the decision makers take for an event they have not seen.\<close>

theorem daemon_event_ids_distinct:
  assumes "n \<le> 0xFFFFFFFE"
  shows "distinct (draw_ids n c) \<and> 0 \<notin> set (draw_ids n c) \<and> 0xFFFFFFFF \<notin> set (draw_ids n c)"
proof -
  have "wrap_valid i" if "i \<in> set (draw_ids n c)" for i
    using that by (auto simp: draw_ids_stream wrap_stream_def next_event_id_valid)
  moreover have "distinct (draw_ids n c)"
    using wrap_stream_distinct [OF next_event_id_valid] assms by (simp add: draw_ids_stream wrap_cycle_def)
  ultimately show ?thesis by (force simp: wrap_valid_uint)
qed

text \<open>The freshness rule is two-sided: an event is stale exactly when its time is more than the window away from
  now, before or after, whatever the two 64-bit values are.\<close>

theorem freshness_two_sided:
  "isEventStale cfg ts nowMs \<longleftrightarrow> \<bar>uint ts div 1000000 - uint nowMs\<bar> > uint (so_stalenessMs cfg)"
  by (rule stale_iff)

text \<open>The daemon's own group verdict passes the daemon's own check of event sources, for every configured group
  whose name fits the identifier field.\<close>

theorem group_verdict_passes_validation:
  assumes "map_of (so_idToName cfg) (so_groupPipelineId cfg) = Some name" "name_ok name"
    "so_groupPipelineId cfg \<le> so_maxPipelines cfg"
  shows "ValidateEventSource cfg (make_verdict i type now cause (so_groupPipelineId cfg) name)"
proof -
  have "se_sensorIdentifier (make_verdict i type now cause (so_groupPipelineId cfg) name) = snprintf_identifier name"
    by (simp add: make_verdict_def seal_event_def Let_def)
  moreover have "name_bytes name \<noteq> []" using assms(2) by (simp add: name_ok_def name_bytes_def)
  ultimately show ?thesis
    using assms by (auto simp: ValidateEventSource_def Let_def identifier_round_trip not_less)
qed

section \<open>The properties at work\<close>

definition example_group_cfg :: PssSourceCfg where
  "example_group_cfg = SetSensorGroup 4 [1, 2]
     (SetSensorConfig [(1, ''cam1''), (2, ''cam2''), (4, ''bev'')] (source_cfg_initial\<lparr>so_maxPipelines := 8\<rparr>))"

definition camera_report :: "EventType \<Rightarrow> EventCause \<Rightarrow> u8 \<Rightarrow> TrustEvent" where
  "camera_report type cause pid = TrustReport 0 2 CLIENT_SAFETY_MONITOR (make_verdict 7 type 0 cause pid ''cam'')"

definition example_group_down :: PssTrust where
  "example_group_down = fold (trust_step example_group_cfg)
     [camera_report SENSOR_INVALID CAUSE_SAIM_FRAME_DROP 1, camera_report SENSOR_INVALID CAUSE_SAIM_FRAME_DROP 2]
     (trust_initial 1)"

lemma example_group_cfg_simps:
  "so_groupMembers example_group_cfg = [1, 2]" "so_groupPipelineId example_group_cfg = 4"
  "nameOf example_group_cfg 4 = ''bev''" "map_of (so_idToName example_group_cfg) 4 = Some ''bev''"
  "so_maxPipelines example_group_cfg = 8"
  by (simp_all add: example_group_cfg_def SetSensorGroup_def SetSensorConfig_def nameOf_def)

lemma example_group_down_eq: "tr_invalidSensors example_group_down = [(1, CAUSE_SAIM_FRAME_DROP), (2, CAUSE_SAIM_FRAME_DROP)]"
  by (simp add: example_group_down_def camera_report_def report_trust_def OnTrustReport_def report_types
      IsSensorGroupId_def example_group_cfg_simps apply_report_def Let_def trust_initial_def group_transition_simps
      make_verdict_def seal_event_def)

theorem verdicts_told_witness: "told_sensor 4 (input_events example_group_down)"
  using verdicts_told [of example_group_cfg example_group_down _ 1, OF _ example_group_down_def]
  by (simp add: example_group_cfg_simps example_group_down_eq pss_enum)

theorem daemon_event_ids_distinct_witness:
  "draw_ids 3 0xFFFFFFFE = [0xFFFFFFFE, 1, 2] \<and> distinct (draw_ids 3 0xFFFFFFFE)"
proof -
  have "draw_ids 3 0xFFFFFFFE = [0xFFFFFFFE, 1, 2]" by (simp add: numeral_3_eq_3 next_event_id)
  with daemon_event_ids_distinct [of 3 "0xFFFFFFFE"] show ?thesis by simp
qed

theorem group_verdict_passes_validation_witness:
  "ValidateEventSource example_group_cfg (make_verdict 9 SENSOR_INVALID 0 CAUSE_SAIM_UNKNOWN 4 ''bev'')"
proof -
  have "name_ok ''bev''" by (simp add: name_ok_def name_bytes_def pss_enum)
  then show ?thesis
    using group_verdict_passes_validation [of example_group_cfg "''bev''" 9 SENSOR_INVALID 0 CAUSE_SAIM_UNKNOWN]
    by (simp add: example_group_cfg_simps)
qed

end
