(* ===== verification/Pss_Events.thy ===== *)
theory Pss_Events
  imports Pss_Staging Pss_Fusion_Health Pss_Trust
begin

text \<open>
  How the PSS daemon turns a queued client event into a staged one
  (\<^verbatim>\<open>NvPSSSafetyEventManager.cpp\<close>): the operational mode it reports, the input loop, the drain of the
  non-fusing mode and the routing of fused events to a lane.

  \<open>PssManager\<close> is the state of the class that these paths and the sender share. What the RPC server reports
  (its operational mode and its presence masks) is an argument, \<open>None\<close> when no server is set. The fusion
  engine is an argument of the paths that call it: whether it registers a pipeline, whether it takes an
  event, and the fused events it has produced. The input loop is modelled with fusion enabled and its
  engine configured; with fusion disabled it does nothing.
\<close>

section \<open>State\<close>

record PssManagerCfg =
  mc_source :: PssSourceCfg
  mc_staging :: PssStagingCfg
  mc_retryBudget :: u32
  mc_responseTimeoutMs :: u32
  mc_statusNoopIntervalMs :: u32
  mc_fusionFailureErrorMs :: u32
  mc_inputPeriodUs :: u64
  mc_fusionPeriodUs :: u64
  mc_bypassEvents :: "EventType list"

text \<open>The constructor replaces an invalid pair of retry values, interval or duration by the default.\<close>

definition manager_cfg ::
  "PssSourceCfg \<Rightarrow> u64 \<Rightarrow> u64 \<Rightarrow> u32 \<Rightarrow> u32 \<Rightarrow> u32 \<Rightarrow> u32 \<Rightarrow> u32 \<Rightarrow> u32 \<Rightarrow> EventType list \<Rightarrow> PssManagerCfg" where
  "manager_cfg source inputPeriod fusionPeriod retryBudget responseTimeoutMs statusNoopIntervalMs
       operationalDepth criticalDepth fusionFailureErrorMs bypassEvents =
     (let retryValid = NvPSSDeliveryRetryWindowMsIsValid retryBudget responseTimeoutMs
      in \<lparr>mc_source = source, mc_staging = staging_cfg operationalDepth criticalDepth,
          mc_retryBudget = (if retryValid then retryBudget else NVPSS_PSS_TO_PSD_RETRY_BUDGET_DEFAULT),
          mc_responseTimeoutMs = (if retryValid then responseTimeoutMs else NVPSD_DECISION_RESPONSE_TIMEOUT_MS_DEFAULT),
          mc_statusNoopIntervalMs =
            (if NvPSSStatusNoopIntervalMsIsValid statusNoopIntervalMs then statusNoopIntervalMs
             else NVPSS_STATUS_NOOP_INTERVAL_MS_DEFAULT),
          mc_fusionFailureErrorMs =
            (if NvPSSFusionFailureErrorMsIsValid fusionFailureErrorMs then fusionFailureErrorMs
             else NVPSS_FUSION_FAILURE_ERROR_MS_DEFAULT),
          mc_inputPeriodUs = inputPeriod, mc_fusionPeriodUs = fusionPeriod, mc_bypassEvents = bypassEvents\<rparr>)"

record PssManager =
  pm_trust :: PssTrust
  pm_staging :: PssStaging
  pm_health :: NvPSSFusionHealthLatch
  pm_registered :: "u8 list"
  pm_deliveryState :: NvPSSDeliveryState
  pm_lastReason :: NvPSSDeliveryFailureReason
  pm_requestId :: u32

definition manager_initial :: "u32 \<Rightarrow> PssManager" where
  "manager_initial seed =
     \<lparr>pm_trust = trust_initial seed, pm_staging = staging_initial, pm_health = fusion_health_initial,
      pm_registered = [], pm_deliveryState = DELIVERY_NORMAL, pm_lastReason = REASON_NONE, pm_requestId = 1\<rparr>"

record RpcView =
  rv_mode :: OperationalMode
  rv_presenceMask :: u32
  rv_expectedMask :: u32
  rv_inputUnusableMask :: u32
  rv_inputConfirmedMask :: u32

section \<open>Mode and status\<close>

definition decisionRequestOperationalMode :: "RpcView option \<Rightarrow> PssManager \<Rightarrow> OperationalMode" where
  "decisionRequestOperationalMode rpc m =
     (if pm_deliveryState m = DELIVERY_ERROR_ACTIVE then ERROR
      else if fh_error (pm_health m) then ERROR
      else case rpc of
          None \<Rightarrow> NvPSSDeliveryOperationalMode (pm_deliveryState m) NORMAL
        | Some r \<Rightarrow> NvPSSDeliveryOperationalMode (pm_deliveryState m) (rv_mode r))"

text \<open>The status and the overflow generation it was stamped with.\<close>

definition makePssStatusForDecisionRequest :: "RpcView option \<Rightarrow> PssManager \<Rightarrow> SystemStatus \<times> nat" where
  "makePssStatusForDecisionRequest rpc m =
     (let generation = stampGeneration (sg_overflow (pm_staging m))
      in (\<lparr>ss_hardwareErrorFlag = False, ss_softwareErrorFlag = False,
           ss_mode = (if generation \<noteq> 0 then ERROR else decisionRequestOperationalMode rpc m)\<rparr>, generation))"

text \<open>The presence words of the two masks, zero without a server.\<close>

definition sourcePresenceSnapshot :: "RpcView option \<Rightarrow> u32 \<times> u32" where
  "sourcePresenceSnapshot rpc =
     (case rpc of None \<Rightarrow> (0, 0)
      | Some r \<Rightarrow> (NvPSSPackPresenceWord (rv_presenceMask r) (rv_inputUnusableMask r),
                   NvPSSPackPresenceWord (rv_expectedMask r) (rv_inputConfirmedMask r)))"

section \<open>Fusion-stage health\<close>

definition stage_threshold :: "PssManagerCfg \<Rightarrow> FusionStage \<Rightarrow> u32" where
  "stage_threshold cfg =
     fusionStageStreakThreshold (mc_fusionFailureErrorMs cfg) (mc_inputPeriodUs cfg) (mc_fusionPeriodUs cfg)"

definition bumpFusionStageFailure :: "PssManagerCfg \<Rightarrow> FusionStage \<Rightarrow> PssManager \<Rightarrow> PssManager" where
  "bumpFusionStageFailure cfg stage m =
     m\<lparr>pm_health := snd (noteFailure stage (stage_threshold cfg stage) (pm_health m))\<rparr>"

definition clearFusionStageFailure :: "FusionStage \<Rightarrow> PssManager \<Rightarrow> PssManager" where
  "clearFusionStageFailure stage m = m\<lparr>pm_health := snd (noteSuccess stage (pm_health m))\<rparr>"

section \<open>Routing\<close>

text \<open>Classify, choose the lane, offer.\<close>

definition route_fused ::
  "PssManagerCfg \<Rightarrow> RpcView option \<Rightarrow> FusedSafetyEvent \<Rightarrow> TrustState \<Rightarrow> bool \<Rightarrow> PssManager \<Rightarrow> PssManager" where
  "route_fused cfg rpc event trust evictable m =
     (let severity = NvPSSClassifyPsdSeverity event (\<not> ts_sensorInvalid trust) (\<not> ts_aiPipelineInvalid trust)
            (decisionRequestOperationalMode rpc m);
          event = event\<lparr>fe_severity := severity\<rparr>
      in m\<lparr>pm_staging :=
             snd (enqueuePsdFusedEvent (mc_staging cfg) (NvPSSPsdSendPriorityFromSeverity severity)
               (uint (fm_clientID (fe_fusionMetadata event))) event evictable trust (pm_staging m))\<rparr>)"

definition distrusted :: "TrustState \<Rightarrow> bool" where
  "distrusted trust \<longleftrightarrow> ts_sensorInvalid trust \<or> ts_aiPipelineInvalid trust"

definition query_event :: "PssManagerCfg \<Rightarrow> SafetyEvent \<Rightarrow> PssManager \<Rightarrow> TrustState" where
  "query_event cfg event m =
     QueryTrustState (mc_source cfg) (fm_pipelineID (se_fusionMetadata event)) (pm_trust m)"

text \<open>An event of a distrusted source is forwarded as critical evidence.\<close>

definition forward_distrusted ::
  "PssManagerCfg \<Rightarrow> RpcView option \<Rightarrow> u64 \<Rightarrow> SafetyEvent \<Rightarrow> TrustState \<Rightarrow> PssManager \<Rightarrow> PssManager" where
  "forward_distrusted cfg rpc nowMs event trust m =
     (let (fused, tr) = CreateInvalidSourceEvent (mc_source cfg) nowMs event (pm_trust m)
      in route_fused cfg rpc fused trust (NvPSSPsdEvictable fused True) (m\<lparr>pm_trust := tr\<rparr>))"

section \<open>Fusion off: the bypass drain\<close>

definition kBypassDrainPerTick :: nat where [pss_fs]: "kBypassDrainPerTick = 64"

definition drain_event :: "PssManagerCfg \<Rightarrow> RpcView option \<Rightarrow> u64 \<Rightarrow> SafetyEvent \<Rightarrow> PssManager \<Rightarrow> PssManager" where
  "drain_event cfg rpc nowMs event m =
     (let trust = query_event cfg event m
      in if distrusted trust then forward_distrusted cfg rpc nowMs event trust m
         else if \<not> ValidateEventSource (mc_source cfg) event then m
         else
           (let (fused, tr) = CreateBypassEvent (mc_source cfg) nowMs event (pm_trust m)
            in route_fused cfg rpc fused trust (NvPSSPsdEvictable fused False) (m\<lparr>pm_trust := tr\<rparr>)))"

definition pop_input :: "PssManager \<Rightarrow> PssManager" where
  "pop_input m = m\<lparr>pm_trust := (pm_trust m)\<lparr>tr_input := tl (tr_input (pm_trust m))\<rparr>\<rparr>"

fun drain_input :: "PssManagerCfg \<Rightarrow> RpcView option \<Rightarrow> u64 \<Rightarrow> nat \<Rightarrow> PssManager \<Rightarrow> PssManager" where
  "drain_input cfg rpc nowMs 0 m = m"
| "drain_input cfg rpc nowMs (Suc n) m =
     (case tr_input (pm_trust m) of
        [] \<Rightarrow> m
      | (_, event) # _ \<Rightarrow> drain_input cfg rpc nowMs n (drain_event cfg rpc nowMs event (pop_input m)))"

section \<open>Fusion on\<close>

definition route_engine_event :: "PssManagerCfg \<Rightarrow> RpcView option \<Rightarrow> FusedSafetyEvent \<Rightarrow> PssManager \<Rightarrow> PssManager" where
  "route_engine_event cfg rpc event m =
     (let trust = QueryTrustState (mc_source cfg) (fm_pipelineID (fe_fusionMetadata event)) (pm_trust m)
      in route_fused cfg rpc event trust (NvPSSPsdEvictable event (distrusted trust)) m)"

text \<open>\<open>fusedEvents = None\<close> is fusion disabled; otherwise the engine's output, staged in time order.\<close>

definition HandleFusedEvents ::
  "PssManagerCfg \<Rightarrow> RpcView option \<Rightarrow> u64 \<Rightarrow> FusedSafetyEvent list option \<Rightarrow> PssManager \<Rightarrow> PssManager" where
  "HandleFusedEvents cfg rpc nowMs fusedEvents m =
     (case fusedEvents of
        None \<Rightarrow> drain_input cfg rpc nowMs kBypassDrainPerTick m
      | Some es \<Rightarrow> fold (route_engine_event cfg rpc) (sort_key fe_timestamp es) m)"

text \<open>
  \<open>registers\<close> and \<open>takes\<close> are the engine's answers to \<open>RegisterPipeline\<close> and \<open>ProcessNewSafetyEvent\<close>; the result is
  whether the stage succeeded.
\<close>

definition auto_register :: "bool \<Rightarrow> u8 \<Rightarrow> PssManager \<Rightarrow> bool \<times> PssManager" where
  "auto_register registers pipelineId m =
     (if pipelineId \<noteq> 0 \<and> pipelineId \<notin> set (pm_registered m)
      then if registers then (True, m\<lparr>pm_registered := pipelineId # pm_registered m\<rparr>) else (False, m)
      else (True, m))"

definition ProcessSafetyEventForFusion ::
  "PssManagerCfg \<Rightarrow> RpcView option \<Rightarrow> u64 \<Rightarrow> bool \<Rightarrow> bool \<Rightarrow> SafetyEvent \<Rightarrow> PssManager \<Rightarrow> bool \<times> PssManager" where
  "ProcessSafetyEventForFusion cfg rpc nowMs registers takes event m =
     (let (ok, m) = auto_register registers (fm_pipelineID (se_fusionMetadata event)) m
      in if \<not> ok then (False, m)
         else
           (let (fused, tr) = CreateBypassEvent (mc_source cfg) nowMs event (pm_trust m);
                m = m\<lparr>pm_trust := tr\<rparr>
            in if se_type event \<in> set (mc_bypassEvents cfg)
               then (True, route_fused cfg rpc fused no_distrust False m)
               else if fe_status fused = STALE
               then (let trust = QueryTrustState (mc_source cfg) (fm_pipelineID (fe_fusionMetadata fused)) (pm_trust m)
                     in (True, route_fused cfg rpc fused trust (NvPSSPsdEvictable fused (distrusted trust)) m))
               else (takes, m)))"

definition input_loop_tick ::
  "PssManagerCfg \<Rightarrow> RpcView option \<Rightarrow> u64 \<Rightarrow> bool \<Rightarrow> bool \<Rightarrow> PssManager \<Rightarrow> PssManager" where
  "input_loop_tick cfg rpc nowMs registers takes m =
     (case tr_input (pm_trust m) of
        [] \<Rightarrow> m
      | (_, event) # _ \<Rightarrow>
        (let m = pop_input m;
             trust = query_event cfg event m
         in if distrusted trust then forward_distrusted cfg rpc nowMs event trust m
            else if \<not> ValidateEventSource (mc_source cfg) event then m
            else
              (let (ok, m) = ProcessSafetyEventForFusion cfg rpc nowMs registers takes event m
               in if ok then clearFusionStageFailure FUSION_STAGE_PROCESS_EVENT m
                  else bumpFusionStageFailure cfg FUSION_STAGE_PROCESS_EVENT m)))"

text \<open>
  One round of the fusion loop. \<open>stages\<close> are the results of the engine's three stages, \<open>None\<close> when fusion is off;
  \<open>HandleFusedEvents\<close> always succeeds.
\<close>

definition note_stage :: "PssManagerCfg \<Rightarrow> FusionStage \<Rightarrow> bool \<Rightarrow> PssManager \<Rightarrow> PssManager" where
  "note_stage cfg stage ok m = (if ok then clearFusionStageFailure stage m else bumpFusionStageFailure cfg stage m)"

definition fusion_loop_tick ::
  "PssManagerCfg \<Rightarrow> RpcView option \<Rightarrow> u64 \<Rightarrow> (bool \<times> bool \<times> bool) option \<Rightarrow> FusedSafetyEvent list \<Rightarrow> PssManager \<Rightarrow> PssManager" where
  "fusion_loop_tick cfg rpc nowMs stages fusedEvents m =
     (let m = (case stages of
            None \<Rightarrow> m
          | Some (performed, unmatched, cleaned) \<Rightarrow>
              note_stage cfg FUSION_STAGE_CLEAN_PROCESSED cleaned
                (note_stage cfg FUSION_STAGE_PROCESS_UNMATCHED unmatched
                  (note_stage cfg FUSION_STAGE_PERFORM_FUSION performed m)));
          m = HandleFusedEvents cfg rpc nowMs (if stages = None then None else Some fusedEvents) m
      in clearFusionStageFailure FUSION_STAGE_HANDLE_FUSED m)"

section \<open>Where a staged entry comes from\<close>

definition staged :: "PssStaging \<Rightarrow> PsdQueuedEvent set" where
  "staged s = set (sg_critical s) \<union> set (sg_operational s) \<union> set (sg_refusedPending s)"

text \<open>The same event with the same recorded trust, perhaps renumbered or no longer evictable.\<close>

definition copy_of :: "PsdQueuedEvent \<Rightarrow> PsdQueuedEvent \<Rightarrow> bool" where
  "copy_of a b \<longleftrightarrow>
     qe_event a = qe_event b \<and> qe_queuedTrust a = qe_queuedTrust b \<and> (qe_evictable a \<longrightarrow> qe_evictable b)"

lemma copy_of_refl [simp]: "copy_of e e" "copy_of (e\<lparr>qe_seq := n\<rparr>) e" "copy_of (e\<lparr>qe_seq := n, qe_evictable := False\<rparr>) e"
  by (simp_all add: copy_of_def)

lemma copy_of_trans: "copy_of a b \<Longrightarrow> copy_of b c \<Longrightarrow> copy_of a c"
  by (auto simp: copy_of_def)

lemma enqueue_staged:
  assumes "e \<in> staged (snd (enqueuePsdFusedEvent cfg priority clientId event evictable trust s))"
  shows "e \<in> staged s \<or> qe_event e = event \<and> qe_queuedTrust e = trust \<and> (qe_evictable e \<longrightarrow> evictable)"
  using assms
  by (auto simp: enqueuePsdFusedEvent_def enqueue_operational_def enqueue_critical_def critical_append_def
      critical_refuse_def NvPSSPsdRetainRefused_def staged_def Let_def case_prod_beta
      split: if_splits option.splits
      dest: in_set_takeD in_set_dropD drop_superseded_subset(1) [THEN subsetD]
        drop_superseded_subset(1) [unfolded drop_superseded_def, THEN subsetD])

lemma noop_staged:
  assumes "e \<in> staged (snd (enqueueStatusNoopEvent cfg nowNs s))"
  shows "e \<in> staged s \<or>
    qe_event e = NvPSSBuildStatusNoopFusedEvent 0 nowNs 0 0 \<and> qe_queuedTrust e = no_distrust \<and> \<not> qe_evictable e"
  using assms
  by (auto simp: enqueueStatusNoopEvent_def enqueue_operational_def staged_def split: if_splits)

lemma readmit_staged:
  "e \<in> staged (readmit c es s) \<Longrightarrow> set es \<subseteq> staged s \<Longrightarrow> \<exists>b \<in> staged s. copy_of e b"
proof (induction c es s rule: readmit.induct)
  case (1 capacity s)
  then show ?case by (auto simp: staged_def intro: copy_of_refl(1))
next
  case (2 capacity x es s)
  show ?case
  proof (cases "length (sg_critical s) < capacity")
    case True
    let ?s = "s\<lparr>sg_critical := sg_critical s @ [x\<lparr>qe_seq := sg_enqueueSeq s, qe_evictable := False\<rparr>],
                sg_readmittedSeqMax := sg_enqueueSeq s, sg_enqueueSeq := sg_enqueueSeq s + 1\<rparr>"
    have sub: "b \<in> staged s \<or> b = x\<lparr>qe_seq := sg_enqueueSeq s, qe_evictable := False\<rparr>" if "b \<in> staged ?s" for b
      using that by (auto simp: staged_def)
    have "set es \<subseteq> staged ?s" using 2(3) by (auto simp: staged_def)
    with 2(1) [OF True] 2(2) True obtain b where b: "b \<in> staged ?s" "copy_of e b" by auto
    then show ?thesis
      using sub [OF b(1)] 2(3) copy_of_trans copy_of_refl(3) by fastforce
  next
    case False
    then show ?thesis using 2(2,3) by (auto simp: staged_def intro: copy_of_refl(1))
  qed
qed

lemma maybe_clear_staged: "e \<in> staged (maybeClearCriticalLaneOverflow cfg s) \<Longrightarrow> \<exists>b \<in> staged s. copy_of e b"
  using readmit_staged [of e "unat (sc_criticalDepth cfg)" "sg_refusedPending s" s]
  by (auto simp: maybeClearCriticalLaneOverflow_def Let_def staged_def intro: copy_of_refl(1) split: if_splits)

lemma remove_seq_subset: "set (fold remove_seq seqs q) \<subseteq> set q"
proof (induction seqs arbitrary: q)
  case (Cons n seqs)
  have "set (remove_seq n q) \<subseteq> set q" by (induction q) auto
  with Cons.IH [of "remove_seq n q"] show ?case by auto
qed simp

lemma commit_staged:
  assumes "e \<in> staged (commitQueuedEvents cfg priority seqs s)"
  shows "\<exists>b \<in> staged s. copy_of e b"
proof (cases "seqs = []")
  case False
  let ?s = "case priority of
      PRIO_CRITICAL \<Rightarrow> s\<lparr>sg_critical := fold remove_seq seqs (sg_critical s)\<rparr>
    | PRIO_OPERATIONAL \<Rightarrow> s\<lparr>sg_operational := fold remove_seq seqs (sg_operational s)\<rparr>"
  have "e \<in> staged (maybeClearCriticalLaneOverflow cfg ?s)"
    using assms False by (simp add: commitQueuedEvents_def)
  then obtain b where "b \<in> staged ?s" "copy_of e b" using maybe_clear_staged by blast
  moreover have "staged ?s \<subseteq> staged s"
    using remove_seq_subset by (fastforce simp: staged_def split: NvPSSPsdSendPriority.splits)
  ultimately show ?thesis by blast
qed (use assms in \<open>auto simp: commitQueuedEvents_def intro: copy_of_refl(1)\<close>)

lemma drop_batch_staged:
  "e \<in> staged (dropUndeliverableBatch cfg priority seqs i s) \<Longrightarrow> \<exists>b \<in> staged s. copy_of e b"
  by (auto simp: dropUndeliverableBatch_def staged_def [of "s\<lparr>sg_undeliverableCount := _, sg_ledger := _\<rparr>"]
      staged_def [of s] intro: copy_of_refl(1) dest!: commit_staged split: if_splits)

lemma acknowledged_staged:
  "e \<in> staged (onPsdRequestAcknowledged cfg priority seqs g i s) \<Longrightarrow> \<exists>b \<in> staged s. copy_of e b"
  by (auto simp: onPsdRequestAcknowledged_def staged_def [of "s\<lparr>sg_overflow := _, sg_ledger := _\<rparr>"]
      staged_def [of s] dest!: commit_staged)

section \<open>What holds of every event on its way\<close>

definition client_event_ok :: "SafetyEvent \<Rightarrow> bool" where
  "client_event_ok e \<longleftrightarrow>
     se_type e \<le> AI_PIPELINE_VALID \<and>
     f32_le 0 (se_confidenceLevel e) \<and> f32_le (se_confidenceLevel e) F32_ONE \<and>
     se_timestamp e \<noteq> 0 \<and> 0 \<in> set (take MAX_INDENTIFIER_LENGTH (se_sensorIdentifier e)) \<and>
     se_cause e < CAUSE_COUNT \<and>
     fst (fm_objectType (se_fusionMetadata e)) \<le> OBJECT \<and> snd (fm_objectType (se_fusionMetadata e)) \<le> OBJECT"

text \<open>The RPC server drops every event the validator refuses.\<close>

lemma validated_event_ok:
  assumes "validateSafetyEvent (Some e) = PSS_VALID"
  shows "client_event_ok e"
proof -
  have cause: "se_cause e \<ge> CAUSE_COUNT \<longleftrightarrow> \<not> se_cause e < CAUSE_COUNT" by auto
  have nul: "list_ex (\<lambda>c. c = 0) bs \<longleftrightarrow> 0 \<in> set bs" for bs :: "byte list" by (auto simp: list_ex_iff)
  have "validateCommonEventFields (se_type e) PSS_CLIENT_EVENTTYPE_MAX (se_confidenceLevel e)
      (se_timestamp e) (se_sensorIdentifier e) (se_cause e) (se_fusionMetadata e) = 0"
    using assms by (simp add: validateSafetyEvent_def Let_def PSS_VALID_def)
  then show ?thesis
    unfolding validateCommonEventFields_def isNulTerminated_def Let_def enumOutOfRange_enum cause nul
    by (simp only: err_accumulation PSS_VALID_def client_event_ok_def) blast
qed

lemma sealed_event_validates:
  assumes "client_event_ok (seal_event e)"
  shows "validateSafetyEvent (Some (seal_event e)) = PSS_VALID"
proof -
  have cause: "se_cause e \<ge> CAUSE_COUNT \<longleftrightarrow> \<not> se_cause e < CAUSE_COUNT" for e by auto
  have nul: "list_ex (\<lambda>c. c = 0) bs \<longleftrightarrow> 0 \<in> set bs" for bs :: "byte list" by (auto simp: list_ex_iff)
  have "validateCommonEventFields (se_type e) PSS_CLIENT_EVENTTYPE_MAX (se_confidenceLevel e)
      (se_timestamp e) (se_sensorIdentifier e) (se_cause e) (se_fusionMetadata e) = 0" if "client_event_ok e" for e
    using that unfolding validateCommonEventFields_def isNulTerminated_def Let_def enumOutOfRange_enum cause nul
    by (simp only: err_accumulation PSS_VALID_def client_event_ok_def) blast
  from this [OF assms] show ?thesis
    by (simp add: validateSafetyEvent_def Let_def PSS_VALID_def se.seal_version se.seal_verifies)
qed

definition event_fields_ok :: "FusedSafetyEvent \<Rightarrow> bool" where
  "event_fields_ok e \<longleftrightarrow> fused_event_ok (e\<lparr>fe_severity := CRITICAL\<rparr>)"

lemma event_fields_ok_severity [simp]: "event_fields_ok (e\<lparr>fe_severity := v\<rparr>) = event_fields_ok e"
  by (simp add: event_fields_ok_def)

lemma strncpy_terminated: "0 \<in> set (take MAX_INDENTIFIER_LENGTH (strncpy_identifier src))"
proof -
  define cs where "cs = takeWhile (\<lambda>b. b \<noteq> 0) (take (MAX_INDENTIFIER_LENGTH - 1) src)"
  have "length cs \<le> length (take (MAX_INDENTIFIER_LENGTH - 1) src)" unfolding cs_def by (rule length_takeWhile_le)
  then have "length cs < MAX_INDENTIFIER_LENGTH" by (simp add: pss_enum)
  then show ?thesis
    unfolding strncpy_identifier_def Let_def cs_def [symmetric] by (cases "MAX_INDENTIFIER_LENGTH - length cs") auto
qed

lemma confidence_one: "f32_le 0 F32_ONE" "f32_le F32_ONE F32_ONE"
  by (simp_all add: f32_le_def f32_is_nan_def f32_key_def pss_enum)

lemma client_type_le: "type \<le> AI_PIPELINE_VALID \<Longrightarrow> type \<le> PSS_STATUS_NOOP"
  by (erule order_trans) (simp add: pss_enum)

lemma fused_from_ok: "client_event_ok event \<Longrightarrow> event_fields_ok (fst (fused_from cfg nowMs v event s))"
  by (auto simp: fused_from_def case_prod_beta event_fields_ok_def fused_event_ok_def client_event_ok_def
      strncpy_terminated client_type_le) (simp_all add: pss_enum)

lemma noop_event_ok: "nowNs \<noteq> 0 \<Longrightarrow> event_fields_ok (NvPSSBuildStatusNoopFusedEvent i nowNs a b)"
  using snprintf_identifier_terminated [of "''PSS_DAEMON''"]
  by (simp add: NvPSSBuildStatusNoopFusedEvent_def NvPSSStampSourcePresence_def event_fields_ok_def
      fused_event_ok_def confidence_one zero_event_def zero_metadata_def) (simp add: pss_enum)

lemma make_verdict_ok:
  "nowNs \<noteq> 0 \<Longrightarrow> cause < CAUSE_COUNT \<Longrightarrow> type \<le> AI_PIPELINE_VALID \<Longrightarrow>
   client_event_ok (make_verdict i type nowNs cause pid name)"
  using snprintf_identifier_terminated [of name]
  by (simp add: client_event_ok_def make_verdict_def seal_event_def Let_def confidence_one zero_metadata_def)

definition entry_ok :: "PsdQueuedEvent \<Rightarrow> bool" where
  "entry_ok e \<longleftrightarrow>
     event_fields_ok (qe_event e) \<and> (qe_evictable e \<longrightarrow> distrusted (qe_queuedTrust e) \<or> fe_status (qe_event e) = STALE)"

lemma entry_ok_copy: "entry_ok b \<Longrightarrow> copy_of a b \<Longrightarrow> entry_ok a"
  by (auto simp: entry_ok_def copy_of_def)

definition trust_ok :: "PssTrust \<Rightarrow> bool" where
  "trust_ok s \<longleftrightarrow>
     (\<forall>x \<in> set (tr_input s). client_event_ok (snd x)) \<and> (\<forall>x \<in> set (tr_invalidSensors s). snd x < CAUSE_COUNT)"

definition manager_ok :: "PssManagerCfg \<Rightarrow> PssManager \<Rightarrow> bool" where
  "manager_ok cfg m \<longleftrightarrow>
     staging_inv (mc_staging cfg) (pm_staging m) \<and> (\<forall>e \<in> staged (pm_staging m). entry_ok e) \<and> trust_ok (pm_trust m)"

lemma manager_initial_ok: "manager_ok cfg (manager_initial seed)"
proof -
  have "staged staging_initial = {}" by (simp add: staged_def staging_initial_def)
  then show ?thesis
    by (simp add: manager_ok_def manager_initial_def staging_initial_inv trust_ok_def trust_initial_def)
qed

lemma manager_ok_frame [simp]:
  "manager_ok cfg (m\<lparr>pm_health := h\<rparr>) = manager_ok cfg m"
  "manager_ok cfg (m\<lparr>pm_registered := r\<rparr>) = manager_ok cfg m"
  "manager_ok cfg (m\<lparr>pm_deliveryState := d\<rparr>) = manager_ok cfg m"
  "manager_ok cfg (m\<lparr>pm_lastReason := l\<rparr>) = manager_ok cfg m"
  "manager_ok cfg (m\<lparr>pm_requestId := i\<rparr>) = manager_ok cfg m"
  by (simp_all add: manager_ok_def)

subsection \<open>Trust\<close>

lemma push_verdict_ok:
  "trust_ok s \<Longrightarrow> nowNs \<noteq> 0 \<Longrightarrow> cause < CAUSE_COUNT \<Longrightarrow> type \<le> AI_PIPELINE_VALID \<Longrightarrow>
   trust_ok (push_verdict type nowNs cause pid name s)"
  by (auto simp: trust_ok_def push_verdict_def case_prod_beta make_verdict_ok)

lemma verdict_constants:
  "SENSOR_INVALID \<le> AI_PIPELINE_VALID" "SENSOR_VALID \<le> AI_PIPELINE_VALID" "AI_PIPELINE_INVALID \<le> AI_PIPELINE_VALID"
  "CAUSE_NONE < CAUSE_COUNT" "CAUSE_SAIM_UNKNOWN < CAUSE_COUNT" "CAUSE_SAIM_SENSOR_HEALTHY < CAUSE_COUNT"
  by (simp_all add: pss_enum)

lemma alist_update_mem: "x \<in> set (AList.update k v al) \<Longrightarrow> x = (k, v) \<or> x \<in> set al"
  by (induction al) (auto split: if_splits)

lemma apply_report_ok: "trust_ok s \<Longrightarrow> client_event_ok event \<Longrightarrow> trust_ok (apply_report event s)"
  by (auto simp: trust_ok_def apply_report_def Let_def client_event_ok_def AList.delete_eq dest!: alist_update_mem)

lemma report_trust_ok:
  assumes "trust_ok s" "client_event_ok event" "nowNs \<noteq> 0"
  shows "trust_ok (report_trust cfg nowNs client type event s)"
proof -
  have "trust_ok (group_transition cfg nowNs (apply_report event s))"
    using apply_report_ok [OF assms(1,2)] assms(3)
    by (auto simp: group_transition_def EmitGroupTrustEvent_def Let_def verdict_constants intro!: push_verdict_ok)
      (simp_all add: trust_ok_def)
  moreover have "trust_ok (r\<lparr>tr_input := tr_input r @ [(client, event)]\<rparr>)" if "trust_ok r" for r
    using that assms(2) by (auto simp: trust_ok_def)
  ultimately show ?thesis
    using assms(1) apply_report_ok [OF assms(1,2)] by (simp add: report_trust_def OnTrustReport_def Let_def)
qed

lemma reassert_ok:
  assumes "trust_ok s" "nowNs \<noteq> 0"
  shows "trust_ok (ReassertStandingVerdicts cfg nowNs s)"
proof -
  have cams: "trust_ok (fold (reassert_camera cfg nowNs) cs r)"
    if "trust_ok r" "\<And>c. c \<in> set cs \<Longrightarrow> snd c < CAUSE_COUNT" for cs r
    using that
  proof (induction cs arbitrary: r)
    case (Cons c cs)
    have "trust_ok (reassert_camera cfg nowNs c r)"
      using Cons.prems(1) Cons.prems(2) [of c]
      by (auto simp: reassert_camera_def verdict_constants assms(2) intro!: push_verdict_ok)
    with Cons show ?case by simp
  qed simp
  have "snd c < CAUSE_COUNT" if "c \<in> set (ra_cameras (reassert_snapshot cfg s))" for c
    using that assms(1) by (auto simp: reassert_snapshot_def trust_ok_def split: if_splits)
  then show ?thesis
    unfolding ReassertStandingVerdicts_def reassert_push_def Let_def
    using assms by (intro cams) (auto simp: verdict_constants intro!: push_verdict_ok)
qed

subsection \<open>Routing\<close>

lemma route_fused_ok:
  assumes "manager_ok cfg m" "event_fields_ok event"
    "evictable \<longrightarrow> \<not> NvPSSPsdIsMustDeliverReport (fe_type event) \<and> (distrusted trust \<or> fe_status event = STALE)"
  shows "manager_ok cfg (route_fused cfg rpc event trust evictable m)"
  using assms enqueue_inv [of "mc_staging cfg" "pm_staging m" evictable]
  by (auto simp: route_fused_def manager_ok_def Let_def entry_ok_def dest!: enqueue_staged)

lemma trust_update_ok: "manager_ok cfg m \<Longrightarrow> trust_ok tr \<Longrightarrow> manager_ok cfg (m\<lparr>pm_trust := tr\<rparr>)"
  by (simp add: manager_ok_def)

lemma fused_from_trust [simp]:
  "tr_input (snd (fused_from cfg nowMs v event s)) = tr_input s"
  "tr_invalidSensors (snd (fused_from cfg nowMs v event s)) = tr_invalidSensors s"
  "fe_type (fst (fused_from cfg nowMs v event s)) = se_type event"
  "fe_fusionMetadata (fst (fused_from cfg nowMs v event s)) = se_fusionMetadata event"
  by (simp_all add: fused_from_def case_prod_beta)

lemma fused_from_manager_ok:
  "manager_ok cfg m \<Longrightarrow> manager_ok cfg (m\<lparr>pm_trust := snd (fused_from c nowMs v event (pm_trust m))\<rparr>)"
  by (simp add: manager_ok_def trust_ok_def)

lemma forward_distrusted_ok:
  "manager_ok cfg m \<Longrightarrow> client_event_ok event \<Longrightarrow> distrusted trust \<Longrightarrow>
   manager_ok cfg (forward_distrusted cfg rpc nowMs event trust m)"
  by (auto simp: forward_distrusted_def CreateInvalidSourceEvent_def case_prod_beta NvPSSPsdEvictable_def
      intro!: route_fused_ok fused_from_manager_ok fused_from_ok)

lemma drain_event_ok:
  "manager_ok cfg m \<Longrightarrow> client_event_ok event \<Longrightarrow> manager_ok cfg (drain_event cfg rpc nowMs event m)"
  by (auto simp: drain_event_def Let_def CreateBypassEvent_def case_prod_beta NvPSSPsdEvictable_def
      intro!: forward_distrusted_ok route_fused_ok fused_from_manager_ok fused_from_ok)

lemma pop_input_ok:
  "manager_ok cfg m \<Longrightarrow> tr_input (pm_trust m) = (c, event) # rest \<Longrightarrow>
   manager_ok cfg (pop_input m) \<and> client_event_ok event"
  by (auto simp: pop_input_def manager_ok_def trust_ok_def)

lemma drain_input_ok: "manager_ok cfg m \<Longrightarrow> manager_ok cfg (drain_input cfg rpc nowMs n m)"
proof (induction n arbitrary: m)
  case (Suc n)
  show ?case
  proof (cases "tr_input (pm_trust m)")
    case (Cons x rest)
    then show ?thesis
      using Suc pop_input_ok [OF Suc.prems, of "fst x" "snd x" rest] by (cases x) (auto intro!: drain_event_ok)
  qed (simp add: Suc.prems)
qed simp

lemma route_engine_ok:
  "manager_ok cfg m \<Longrightarrow> event_fields_ok event \<Longrightarrow> manager_ok cfg (route_engine_event cfg rpc event m)"
  by (auto simp: route_engine_event_def Let_def NvPSSPsdEvictable_def intro!: route_fused_ok)

lemma fold_route_engine_ok:
  "manager_ok cfg m \<Longrightarrow> (\<And>e. e \<in> set es \<Longrightarrow> event_fields_ok e) \<Longrightarrow>
   manager_ok cfg (fold (route_engine_event cfg rpc) es m)"
  by (induction es arbitrary: m) (auto intro: route_engine_ok)

lemma handle_fused_ok:
  "manager_ok cfg m \<Longrightarrow> (\<And>es e. fusedEvents = Some es \<Longrightarrow> e \<in> set es \<Longrightarrow> event_fields_ok e) \<Longrightarrow>
   manager_ok cfg (HandleFusedEvents cfg rpc nowMs fusedEvents m)"
  by (auto simp: HandleFusedEvents_def drain_input_ok intro!: fold_route_engine_ok split: option.splits)

lemma note_stage_ok [simp]: "manager_ok cfg (note_stage c stage ok m) = manager_ok cfg m"
  by (simp add: note_stage_def clearFusionStageFailure_def bumpFusionStageFailure_def)

lemma fusion_tick_ok:
  "manager_ok cfg m \<Longrightarrow> (\<And>e. e \<in> set es \<Longrightarrow> event_fields_ok e) \<Longrightarrow>
   manager_ok cfg (fusion_loop_tick cfg rpc nowMs stages es m)"
  by (auto simp: fusion_loop_tick_def Let_def clearFusionStageFailure_def intro!: handle_fused_ok split: option.splits)

lemma process_for_fusion_ok:
  assumes "manager_ok cfg m" "client_event_ok event"
  shows "manager_ok cfg (snd (ProcessSafetyEventForFusion cfg rpc nowMs registers takes event m))"
proof -
  have "manager_ok cfg (snd (auto_register registers pid m))" for pid
    using assms(1) by (simp add: auto_register_def)
  from fused_from_manager_ok [OF this] show ?thesis
    using assms \<open>\<And>pid. manager_ok cfg (snd (auto_register registers pid m))\<close>
    by (auto simp: ProcessSafetyEventForFusion_def CreateBypassEvent_def case_prod_beta Let_def NvPSSPsdEvictable_def
        intro!: route_fused_ok fused_from_ok)
qed

lemma input_tick_ok:
  assumes "manager_ok cfg m"
  shows "manager_ok cfg (input_loop_tick cfg rpc nowMs registers takes m)"
proof (cases "tr_input (pm_trust m)")
  case (Cons x rest)
  then have "manager_ok cfg (pop_input m)" "client_event_ok (snd x)"
    using pop_input_ok [OF assms, of "fst x" "snd x" rest] by simp_all
  then show ?thesis
    using Cons process_for_fusion_ok [of cfg "pop_input m" "snd x" rpc nowMs registers takes]
    by (auto simp: input_loop_tick_def Let_def case_prod_beta clearFusionStageFailure_def bumpFusionStageFailure_def
        intro!: forward_distrusted_ok)
qed (simp add: input_loop_tick_def assms)

section \<open>Properties\<close>


lemma pop_input_simps [simp]:
  "pm_staging (pop_input m) = pm_staging m" "query_event cfg event (pop_input m) = query_event cfg event m"
  "pm_deliveryState (pop_input m) = pm_deliveryState m" "pm_health (pop_input m) = pm_health m"
  by (simp_all add: pop_input_def query_event_def QueryTrustState_def EvaluateGroupVerdictLocked_def)

lemma forward_distrusted_staging:
  assumes "distrusted trust"
  shows "\<exists>fused. fe_type fused = se_type event \<and> fe_cause fused = se_cause event \<and>
    fe_timestamp fused = se_timestamp event \<and> fe_fusionMetadata fused = se_fusionMetadata event \<and> fe_severity fused = CRITICAL \<and>
    pm_staging (forward_distrusted cfg rpc nowMs event trust m) =
      snd (enqueuePsdFusedEvent (mc_staging cfg) PRIO_CRITICAL (uint (fm_clientID (se_fusionMetadata event))) fused
        (\<not> NvPSSPsdIsMustDeliverReport (se_type event)) trust (pm_staging m))"
proof -
  let ?fused = "fst (fused_from (mc_source cfg) nowMs CRITICAL event (pm_trust m))"
  have "NvPSSClassifyPsdSeverity ?fused (\<not> ts_sensorInvalid trust) (\<not> ts_aiPipelineInvalid trust) mode = CRITICAL" for mode
    using assms by (auto simp: NvPSSClassifyPsdSeverity_def distrusted_def)
  moreover have "?fused\<lparr>fe_severity := CRITICAL\<rparr> = ?fused"
    by (simp add: fused_from_def case_prod_beta)
  ultimately have "pm_staging (forward_distrusted cfg rpc nowMs event trust m) =
      snd (enqueuePsdFusedEvent (mc_staging cfg) PRIO_CRITICAL (uint (fm_clientID (se_fusionMetadata event))) ?fused
        (\<not> NvPSSPsdIsMustDeliverReport (se_type event)) trust (pm_staging m))"
    by (simp add: forward_distrusted_def CreateInvalidSourceEvent_def case_prod_beta route_fused_def Let_def
        NvPSSPsdSendPriorityFromSeverity_def NvPSSPsdEvictable_def)
  then show ?thesis
    by (intro exI [of _ ?fused]) (simp add: fused_from_def case_prod_beta)
qed

text \<open>C24.  A distrusted source still reports. With fusion on and with fusion off, the next event of the input queue,
  when its source is distrusted, is offered to the critical lane as critical evidence that carries the
  distrust, whatever its identity; it is evictable exactly when it is not itself a report.\<close>

theorem distrusted_event_is_evidence:
  assumes "tr_input (pm_trust m) = (c, event) # rest" "distrusted (query_event cfg event m)"
  shows "\<exists>fused. fe_type fused = se_type event \<and> fe_cause fused = se_cause event \<and>
    fe_timestamp fused = se_timestamp event \<and> fe_fusionMetadata fused = se_fusionMetadata event \<and> fe_severity fused = CRITICAL \<and>
    pm_staging (drain_input cfg rpc nowMs 1 m) = pm_staging (input_loop_tick cfg rpc nowMs registers takes m) \<and>
    pm_staging (drain_input cfg rpc nowMs 1 m) =
      snd (enqueuePsdFusedEvent (mc_staging cfg) PRIO_CRITICAL (uint (fm_clientID (se_fusionMetadata event))) fused
        (\<not> NvPSSPsdIsMustDeliverReport (se_type event)) (query_event cfg event m) (pm_staging m))"
  using forward_distrusted_staging [OF assms(2), of event cfg rpc nowMs "pop_input m"] assms
  by (simp add: drain_event_def input_loop_tick_def)


section \<open>The properties at work\<close>

definition example_manager_cfg :: PssManagerCfg where
  "example_manager_cfg = manager_cfg (example_group_cfg\<lparr>so_stalenessMs := 500\<rparr>) 100 2000 3 2000 5000 32 32 1000 []"

definition example_client_event :: SafetyEvent where
  "example_client_event = make_verdict 3 SW_FAIL 1000000 CAUSE_NONE 1 ''cam1''"

definition example_distrust :: PssManager where
  "example_distrust = (manager_initial 1)\<lparr>pm_trust := (trust_initial 1)\<lparr>tr_aiPipelineInvalid := True,
     tr_input := [(1, example_client_event)]\<rparr>\<rparr>"


lemma example_client_event_simps:
  "se_type example_client_event = SW_FAIL" "se_timestamp example_client_event = 1000000"
  "fm_pipelineID (se_fusionMetadata example_client_event) = 1" "fm_clientID (se_fusionMetadata example_client_event) = 0"
  by (simp_all add: example_client_event_def make_verdict_def seal_event_def Let_def)

theorem distrusted_event_is_evidence_witness:
  "\<exists>e. sg_critical (pm_staging (drain_input example_manager_cfg None 7 1 example_distrust)) = [e] \<and>
     fe_type (qe_event e) = SW_FAIL \<and> distrusted (qe_queuedTrust e) \<and> \<not> qe_evictable e"
proof -
  have q: "query_event example_manager_cfg example_client_event example_distrust =
      \<lparr>ts_sensorInvalid = False, ts_aiPipelineInvalid = True\<rparr>"
    by (simp add: query_event_def QueryTrustState_def IsSensorGroupId_def example_client_event_simps
        example_manager_cfg_def manager_cfg_def Let_def example_group_cfg_def SetSensorGroup_def SetSensorConfig_def
        example_distrust_def trust_initial_def)
  have depth: "unat (sc_criticalDepth (mc_staging example_manager_cfg)) = 32"
    by (simp add: example_manager_cfg_def manager_cfg_def Let_def staging_cfg_def clamp_depth_def pss_fs)
  have must: "NvPSSPsdIsMustDeliverReport SW_FAIL" by (simp add: NvPSSPsdIsMustDeliverReport_def)
  have d: "tr_input (pm_trust example_distrust) = (1, example_client_event) # []"
    "pm_staging example_distrust = staging_initial"
    by (simp_all add: example_distrust_def manager_initial_def)
  obtain fused where "fe_type fused = SW_FAIL"
    "pm_staging (drain_input example_manager_cfg None 7 1 example_distrust) =
      snd (enqueuePsdFusedEvent (mc_staging example_manager_cfg) PRIO_CRITICAL 0 fused False
        \<lparr>ts_sensorInvalid = False, ts_aiPipelineInvalid = True\<rparr> staging_initial)"
    using distrusted_event_is_evidence [OF d(1), of example_manager_cfg None 7 True True]
    by (auto simp: q distrusted_def example_client_event_simps must d)
  then show ?thesis
    by (simp add: enqueuePsdFusedEvent_def enqueue_critical_def critical_append_def staging_initial_def depth distrusted_def)
qed


end
