(* ===== verification/Pss_Sender.thy ===== *)
theory Pss_Sender
  imports Pss_Events "HOL-Library.Sublist"
begin

text \<open>
  The sender of the PSS daemon (\<^verbatim>\<open>NvPSSSafetyEventManager.cpp\<close>): building a decision request from a lane, sending
  it with retries, the delivery state, and one pass of \<open>managePsdSender\<close>.

  A batch ticket keeps the sequence numbers as a list, so its \<open>count\<close> is a length. The link to the gateway is
  the Unix-domain socket, the only backend \<^verbatim>\<open>NvPSSDaemon.cpp\<close> accepts; the outcome of each attempt is given by
  a function of the attempt, and every request handed to the link is recorded. No queue mutex is held while
  a request is built, stamped and sent: what the other threads do before the pass, between build and send and
  during each attempt, and what the RPC server then reports, are arguments of the pass.
\<close>

section \<open>Severity of a request\<close>

definition NvPSSDecisionRequestSeverity :: "DecisionRequest option \<Rightarrow> SeverityLevel" where
  "NvPSSDecisionRequestSeverity request =
     (case request of None \<Rightarrow> OPERATIONAL
      | Some r \<Rightarrow>
        if list_ex (\<lambda>sd. NvPSSClassifyPsdSeverity (sd_event sd) (sd_isHealthy sd) (sd_isTrustedSource sd)
             (ss_mode (dr_pssStatus r)) = CRITICAL) (populated r)
        then CRITICAL else OPERATIONAL)"

definition NvPSSFinalizeDecisionRequestSeverity :: "DecisionRequest \<Rightarrow> DecisionRequest" where
  "NvPSSFinalizeDecisionRequestSeverity r =
     (let count = min (unat (dr_sensorDataSummarySize r)) MAX_SENSORS_DATA_SUMMARY_SIZE;
          severity = NvPSSDecisionRequestSeverity (Some r)
      in r\<lparr>dr_sensorDataSummary :=
             map (\<lambda>sd. sd\<lparr>sd_event := (sd_event sd)\<lparr>fe_severity := severity\<rparr>\<rparr>) (take count (dr_sensorDataSummary r)) @
             drop count (dr_sensorDataSummary r)\<rparr>)"

section \<open>Batches\<close>

record PsdBatchTicket =
  tk_seq :: "nat list"
  tk_requestId :: u32
  tk_attempts :: u32
  tk_stamped :: bool
  tk_stamp :: SystemStatus
  tk_stampGeneration :: nat

definition empty_ticket :: PsdBatchTicket where
  "empty_ticket =
     \<lparr>tk_seq = [], tk_requestId = 0, tk_attempts = 0, tk_stamped = False, tk_stamp = zero_status, tk_stampGeneration = 0\<rparr>"

definition psdBatchIdentityMatches :: "PsdBatchTicket \<Rightarrow> PsdBatchTicket \<Rightarrow> bool" where
  "psdBatchIdentityMatches a b \<longleftrightarrow> tk_seq a \<noteq> [] \<and> tk_seq a = tk_seq b"

definition lane :: "NvPSSPsdSendPriority \<Rightarrow> PssStaging \<Rightarrow> PsdQueuedEvent list" where
  "lane priority s = (case priority of PRIO_CRITICAL \<Rightarrow> sg_critical s | PRIO_OPERATIONAL \<Rightarrow> sg_operational s)"

text \<open>The wire record of one staged entry.\<close>

definition sensor_data_of :: "PssManagerCfg \<Rightarrow> RpcView option \<Rightarrow> PssManager \<Rightarrow> PsdQueuedEvent \<Rightarrow> SensorData" where
  "sensor_data_of cfg rpc m e =
     (let ev = qe_event e
      in if fe_type ev = PSS_STATUS_NOOP
         then (let (presenceMask, expectedMask) = sourcePresenceSnapshot rpc
               in \<lparr>sd_clientID = 0, sd_isHealthy = True, sd_isTrustedSource = True,
                   sd_event = NvPSSStampSourcePresence presenceMask expectedMask ev\<rparr>)
         else (let ts = QueryTrustState (mc_source cfg) (fm_pipelineID (fe_fusionMetadata ev)) (pm_trust m)
               in \<lparr>sd_clientID = ucast (fm_clientID (fe_fusionMetadata ev)),
                   sd_isHealthy = (\<not> ts_sensorInvalid ts \<and> \<not> ts_sensorInvalid (qe_queuedTrust e)),
                   sd_isTrustedSource = (\<not> ts_aiPipelineInvalid ts \<and> \<not> ts_aiPipelineInvalid (qe_queuedTrust e)),
                   sd_event = ev\<rparr>))"

definition buildDecisionRequestFromQueuedEvents ::
  "PssManagerCfg \<Rightarrow> RpcView option \<Rightarrow> NvPSSPsdSendPriority \<Rightarrow> PssManager \<Rightarrow> (DecisionRequest \<times> PsdBatchTicket) option" where
  "buildDecisionRequestFromQueuedEvents cfg rpc priority m =
     (let entries = take MAX_SENSORS_DATA_SUMMARY_SIZE (lane priority (pm_staging m))
      in if entries = [] then None
         else Some
           (NvPSSFinalizeDecisionRequestSeverity
              (zero_request\<lparr>dr_pssStatus := fst (makePssStatusForDecisionRequest rpc m),
                 dr_sensorDataSummarySize := of_nat (length entries),
                 dr_sensorDataSummary := map (sensor_data_of cfg rpc m) entries @
                   drop (length entries) (dr_sensorDataSummary zero_request)\<rparr>),
            empty_ticket\<lparr>tk_seq := map qe_seq entries\<rparr>))"

section \<open>The other threads\<close>

text \<open>
  A client event or a trust report accepted by the RPC server, a round of the input loop and one of the fusion loop.
\<close>

datatype ProducerOp =
    ClientEvent int SafetyEvent
  | TrustReported u64 int u8 SafetyEvent
  | InputTick "RpcView option" u64 bool bool
  | FusionTick "RpcView option" u64 "(bool \<times> bool \<times> bool) option" "FusedSafetyEvent list"

fun producer_step :: "PssManagerCfg \<Rightarrow> ProducerOp \<Rightarrow> PssManager \<Rightarrow> PssManager" where
  "producer_step cfg (ClientEvent client event) m =
     m\<lparr>pm_trust := (pm_trust m)\<lparr>tr_input := tr_input (pm_trust m) @ [(client, event)]\<rparr>\<rparr>"
| "producer_step cfg (TrustReported nowNs client type event) m =
     m\<lparr>pm_trust := report_trust (mc_source cfg) nowNs client type event (pm_trust m)\<rparr>"
| "producer_step cfg (InputTick rpc nowMs registers takes) m = input_loop_tick cfg rpc nowMs registers takes m"
| "producer_step cfg (FusionTick rpc nowMs stages es) m = fusion_loop_tick cfg rpc nowMs stages es m"

definition producers :: "PssManagerCfg \<Rightarrow> ProducerOp list \<Rightarrow> PssManager \<Rightarrow> PssManager" where
  "producers cfg ops m = fold (producer_step cfg) ops m"

text \<open>
  The environment of one pass. Index 0 of \<open>pe_rpc\<close> and \<open>pe_during\<close> is the build, index \<open>k\<close> the \<open>k\<close>-th attempt.
\<close>

datatype LinkOutcome = Acknowledged_by_PSD | Send_failed NvPSSDeliveryFailureReason

record PassEnv =
  pe_before :: "ProducerOp list"
  pe_nowNs :: u64
  pe_failNs :: u64
  pe_postSendNs :: u64
  pe_rpc :: "nat \<Rightarrow> RpcView option"
  pe_link :: "nat \<Rightarrow> LinkOutcome"
  pe_during :: "nat \<Rightarrow> ProducerOp list"

section \<open>Sending\<close>

definition markDeliveryFailure :: "NvPSSDeliveryFailureReason \<Rightarrow> PssManager \<Rightarrow> PssManager" where
  "markDeliveryFailure reason m = m\<lparr>pm_lastReason := reason, pm_deliveryState := DELIVERY_ERROR_ACTIVE\<rparr>"

definition markDeliveryRecovered :: "DecisionRequest \<Rightarrow> PssManager \<Rightarrow> PssManager" where
  "markDeliveryRecovered request m =
     (if ss_mode (dr_pssStatus request) \<noteq> ERROR \<and> pm_deliveryState m = DELIVERY_ERROR_ACTIVE then m
      else if pm_deliveryState m = DELIVERY_ERROR_ACTIVE
      then m\<lparr>pm_deliveryState := DELIVERY_NORMAL, pm_lastReason := REASON_NONE\<rparr>
      else m\<lparr>pm_deliveryState := DELIVERY_NORMAL\<rparr>)"

record PsdSend =
  ps_request :: DecisionRequest
  ps_ticket :: PsdBatchTicket
  ps_manager :: PssManager
  ps_wire :: "DecisionRequest list"

text \<open>Under the send mutex: the id when there is none yet, the stamp of the first transmission, severity, CRC.\<close>

definition assign_id :: "PsdSend \<Rightarrow> PsdSend" where
  "assign_id st =
     (if dr_requestId (ps_request st) \<noteq> 0 then st
      else
        (let (i, counter) = NvPSSAllocateSerializedDecisionRequestId (pm_requestId (ps_manager st))
         in st\<lparr>ps_request := NvPSSAssignSerializedDecisionRequestId i (ps_request st),
               ps_manager := (ps_manager st)\<lparr>pm_requestId := counter\<rparr>\<rparr>))"

definition stamp_request :: "RpcView option \<Rightarrow> PsdSend \<Rightarrow> PsdSend" where
  "stamp_request rpc st =
     (if tk_stamped (ps_ticket st)
      then st\<lparr>ps_request := (ps_request st)\<lparr>dr_pssStatus := tk_stamp (ps_ticket st)\<rparr>\<rparr>
      else
        (let (status, generation) = makePssStatusForDecisionRequest rpc (ps_manager st)
         in st\<lparr>ps_request := (ps_request st)\<lparr>dr_pssStatus := status\<rparr>,
               ps_ticket := (ps_ticket st)\<lparr>tk_stamped := True, tk_stamp := status, tk_stampGeneration := generation\<rparr>\<rparr>))"

definition seal_and_send :: "PsdSend \<Rightarrow> PsdSend" where
  "seal_and_send st =
     (let r = seal_request (NvPSSFinalizeDecisionRequestSeverity (ps_request st))
      in st\<lparr>ps_request := r, ps_wire := ps_wire st @ [r]\<rparr>)"

definition prepare_attempt :: "RpcView option \<Rightarrow> PsdSend \<Rightarrow> PsdSend" where
  "prepare_attempt rpc st = seal_and_send (stamp_request rpc (assign_id st))"

text \<open>\<open>left\<close> attempts remain; the result is whether one was acknowledged.\<close>

fun send_attempts ::
  "PssManagerCfg \<Rightarrow> PassEnv \<Rightarrow> nat \<Rightarrow> nat \<Rightarrow> NvPSSDeliveryFailureReason \<Rightarrow> PsdSend \<Rightarrow> bool \<times> PsdSend" where
  "send_attempts cfg env attempt 0 lastReason st =
     (False, st\<lparr>ps_manager := markDeliveryFailure lastReason (ps_manager st)\<rparr>)"
| "send_attempts cfg env attempt (Suc left) lastReason st =
     (let st = prepare_attempt (pe_rpc env attempt) st;
          st = st\<lparr>ps_manager := producers cfg (pe_during env attempt) (ps_manager st)\<rparr>
      in case pe_link env attempt of
           Acknowledged_by_PSD \<Rightarrow>
             (True, st\<lparr>ps_manager := markDeliveryRecovered (ps_request st) (ps_manager st)\<rparr>)
         | Send_failed reason \<Rightarrow>
             send_attempts cfg env (Suc attempt) left reason
               (if left > 0 then st\<lparr>ps_manager := (ps_manager st)\<lparr>pm_deliveryState := DELIVERY_RETRYING\<rparr>\<rparr> else st))"

definition sendDecisionRequestWithRetry ::
  "PssManagerCfg \<Rightarrow> PassEnv \<Rightarrow> DecisionRequest \<Rightarrow> PsdBatchTicket \<Rightarrow> PssManager \<Rightarrow> bool \<times> PsdSend" where
  "sendDecisionRequestWithRetry cfg env request ticket m =
     send_attempts cfg env 1 (unat (mc_retryBudget cfg)) REASON_NONE
       \<lparr>ps_request = request, ps_ticket = ticket, ps_manager = m, ps_wire = []\<rparr>"

section \<open>The sender loop\<close>

record PsdSender =
  sx_manager :: PssManager
  sx_nextStatusNoopNs :: u64
  sx_operationalGate :: NvPSSPsdReleaseGate
  sx_sendRetryNotBeforeNs :: u64
  sx_retained :: "NvPSSPsdSendPriority \<Rightarrow> PsdBatchTicket"
  sx_criticalYieldPending :: bool
  sx_wire :: "DecisionRequest list"

definition status_noop_interval_ns :: "PssManagerCfg \<Rightarrow> u64" where
  "status_noop_interval_ns cfg = ucast (mc_statusNoopIntervalMs cfg) * 1000000"

definition sender_initial :: "PssManagerCfg \<Rightarrow> u64 \<Rightarrow> PssManager \<Rightarrow> PsdSender" where
  "sender_initial cfg nowNs m =
     \<lparr>sx_manager = m, sx_nextStatusNoopNs = NvPSSPsdSaturatingAddNs nowNs (status_noop_interval_ns cfg),
      sx_operationalGate = \<lparr>rg_armed = False, rg_deadlineNs = 0\<rparr>, sx_sendRetryNotBeforeNs = 0,
      sx_retained = (\<lambda>_. empty_ticket), sx_criticalYieldPending = False, sx_wire = []\<rparr>"

definition status_noop_due :: "PssManagerCfg \<Rightarrow> u64 \<Rightarrow> PsdSender \<Rightarrow> PsdSender" where
  "status_noop_due cfg nowNs s =
     (if nowNs < sx_nextStatusNoopNs s then s
      else
        (let m = sx_manager s;
             (queued, sg) = enqueueStatusNoopEvent (mc_staging cfg) nowNs (pm_staging m);
             m = m\<lparr>pm_staging := sg\<rparr>;
             m = (if queued then m\<lparr>pm_trust := ReassertStandingVerdicts (mc_source cfg) nowNs (pm_trust m)\<rparr> else m)
         in s\<lparr>sx_manager := m,
              sx_operationalGate := NvPSSPsdForceReleaseGateDue nowNs (sx_operationalGate s),
              sx_nextStatusNoopNs := NvPSSPsdUpdateStatusNoopDeadline queued nowNs (status_noop_interval_ns cfg)\<rparr>))"

text \<open>A batch equal to the lane's retained one is its retry.\<close>

definition resume_ticket :: "PsdBatchTicket \<Rightarrow> PsdBatchTicket \<Rightarrow> PsdBatchTicket" where
  "resume_ticket retained ticket =
     (if psdBatchIdentityMatches retained ticket
      then ticket\<lparr>tk_requestId := tk_requestId retained, tk_attempts := tk_attempts retained + 1,
             tk_stamped := tk_stamped retained, tk_stamp := tk_stamp retained,
             tk_stampGeneration := tk_stampGeneration retained\<rparr>
      else ticket\<lparr>tk_requestId := 0, tk_attempts := 1\<rparr>)"

text \<open>After the send: give up or keep the batch, or commit it.\<close>

definition after_send ::
  "PssManagerCfg \<Rightarrow> NvPSSPsdSendPriority \<Rightarrow> PassEnv \<Rightarrow> bool \<Rightarrow> PsdSend \<Rightarrow> PsdSender \<Rightarrow> PsdSender" where
  "after_send cfg priority env ok st s =
     (let m = ps_manager st;
          ticket = ps_ticket st;
          i = dr_requestId (ps_request st);
          s = s\<lparr>sx_wire := sx_wire s @ ps_wire st\<rparr>
      in if \<not> ok then
           (let s = s\<lparr>sx_sendRetryNotBeforeNs :=
                        NvPSSPsdSaturatingAddNs (pe_failNs env) NVPSS_PSD_SEND_FAILURE_RETRY_BACKOFF_NS\<rparr>;
                ticket = ticket\<lparr>tk_requestId := i\<rparr>
            in if tk_attempts ticket \<ge> NVPSS_PSD_BATCH_MAX_DELIVERY_ATTEMPTS
               then s\<lparr>sx_manager := m\<lparr>pm_staging := dropUndeliverableBatch (mc_staging cfg) priority (tk_seq ticket) i (pm_staging m)\<rparr>,
                      sx_retained := (sx_retained s)(priority := empty_ticket)\<rparr>
               else s\<lparr>sx_manager := m, sx_retained := (sx_retained s)(priority := ticket)\<rparr>)
         else
           s\<lparr>sx_manager := m\<lparr>pm_staging := onPsdRequestAcknowledged (mc_staging cfg) priority (tk_seq ticket)
                 (if tk_stamped ticket then tk_stampGeneration ticket else 0) i (pm_staging m)\<rparr>,
             sx_sendRetryNotBeforeNs := 0, sx_retained := (sx_retained s)(priority := empty_ticket)\<rparr>)"

definition send_batch :: "PssManagerCfg \<Rightarrow> NvPSSPsdSendPriority \<Rightarrow> PassEnv \<Rightarrow> PsdSender \<Rightarrow> PsdSender" where
  "send_batch cfg priority env s =
     (case buildDecisionRequestFromQueuedEvents cfg (pe_rpc env 0) priority (sx_manager s) of
        None \<Rightarrow> s
      | Some (request, ticket) \<Rightarrow>
        (let ticket = resume_ticket (sx_retained s priority) ticket;
             request = (if tk_requestId ticket \<noteq> 0
                        then NvPSSAssignSerializedDecisionRequestId (tk_requestId ticket) request else request);
             (ok, st) = sendDecisionRequestWithRetry cfg env request ticket (producers cfg (pe_during env 0) (sx_manager s));
             s = after_send cfg priority env ok st s
         in case priority of
              PRIO_CRITICAL \<Rightarrow> s\<lparr>sx_criticalYieldPending := (tk_seq (sx_retained s PRIO_CRITICAL) \<noteq> [])\<rparr>
            | PRIO_OPERATIONAL \<Rightarrow>
                s\<lparr>sx_criticalYieldPending := False,
                  sx_operationalGate := NvPSSPsdAdvanceReleaseGateAfterSend
                    (hasQueuedEvents PRIO_OPERATIONAL (pm_staging (sx_manager s))) (pe_postSendNs env)
                    (NvPSSPsdSendPriorityReleasePeriodNs PRIO_OPERATIONAL) (sx_operationalGate s)\<rparr>))"

text \<open>The lane that is due, \<open>None\<close> when nothing may be sent now.\<close>

definition due_priority :: "u64 \<Rightarrow> PsdSender \<Rightarrow> NvPSSPsdSendPriority option" where
  "due_priority nowNs s =
     (if nowNs < sx_sendRetryNotBeforeNs s then None
      else NvPSSPsdSelectDuePriority (Some
        \<lparr>sn_criticalQueued = hasQueuedEvents PRIO_CRITICAL (pm_staging (sx_manager s)),
         sn_operationalQueued = hasQueuedEvents PRIO_OPERATIONAL (pm_staging (sx_manager s)),
         sn_criticalYieldPending = sx_criticalYieldPending s,
         sn_operationalGate = sx_operationalGate s, sn_nowNs = nowNs\<rparr>))"

text \<open>The status report that is due and the release gate, then the send.\<close>

definition before_send :: "PssManagerCfg \<Rightarrow> PassEnv \<Rightarrow> PsdSender \<Rightarrow> PsdSender" where
  "before_send cfg env s =
     (let s = status_noop_due cfg (pe_nowNs env) (s\<lparr>sx_manager := producers cfg (pe_before env) (sx_manager s)\<rparr>)
      in s\<lparr>sx_operationalGate := NvPSSPsdUpdateReleaseGate
             (hasQueuedEvents PRIO_OPERATIONAL (pm_staging (sx_manager s))) (pe_nowNs env)
             (NvPSSPsdSendPriorityReleasePeriodNs PRIO_OPERATIONAL) (sx_operationalGate s)\<rparr>)"

definition managePsdSender_pass :: "PssManagerCfg \<Rightarrow> PassEnv \<Rightarrow> PsdSender \<Rightarrow> PsdSender" where
  "managePsdSender_pass cfg env s =
     (let s = before_send cfg env s
      in case due_priority (pe_nowNs env) s of None \<Rightarrow> s | Some priority \<Rightarrow> send_batch cfg priority env s)"

text \<open>The time the loop waits for when it sends nothing.\<close>

definition next_wake :: "u64 \<Rightarrow> PsdSender \<Rightarrow> u64" where
  "next_wake nowNs s =
     (let backoff = (nowNs < sx_sendRetryNotBeforeNs s);
          gate = sx_operationalGate s;
          wake = min 0xFFFFFFFFFFFFFFFF (sx_nextStatusNoopNs s);
          wake = (if \<not> backoff \<and> hasQueuedEvents PRIO_OPERATIONAL (pm_staging (sx_manager s)) \<and>
                     rg_armed gate \<and> rg_deadlineNs gate < wake
                  then rg_deadlineNs gate else wake)
      in if backoff \<and> sx_sendRetryNotBeforeNs s < wake then sx_sendRetryNotBeforeNs s else wake)"

definition sender_run :: "PssManagerCfg \<Rightarrow> PassEnv list \<Rightarrow> PsdSender \<Rightarrow> PsdSender" where
  "sender_run cfg envs s = fold (managePsdSender_pass cfg) envs s"

section \<open>Requests on their way\<close>

definition batch_ok :: "DecisionRequest \<Rightarrow> bool" where
  "batch_ok r \<longleftrightarrow>
     0 < unat (dr_sensorDataSummarySize r) \<and> unat (dr_sensorDataSummarySize r) \<le> MAX_SENSORS_DATA_SUMMARY_SIZE \<and>
     length (dr_sensorDataSummary r) = MAX_SENSORS_DATA_SUMMARY_SIZE \<and>
     (\<forall>sd \<in> set (populated r). event_fields_ok (sd_event sd))"

definition with_severity :: "SeverityLevel \<Rightarrow> SensorData \<Rightarrow> SensorData" where
  "with_severity v sd = sd\<lparr>sd_event := (sd_event sd)\<lparr>fe_severity := v\<rparr>\<rparr>"

lemma finalize_fields [simp]:
  "dr_sensorDataSummarySize (NvPSSFinalizeDecisionRequestSeverity r) = dr_sensorDataSummarySize r"
  "dr_requestId (NvPSSFinalizeDecisionRequestSeverity r) = dr_requestId r"
  "dr_pssStatus (NvPSSFinalizeDecisionRequestSeverity r) = dr_pssStatus r"
  "length (dr_sensorDataSummary (NvPSSFinalizeDecisionRequestSeverity r)) = length (dr_sensorDataSummary r)"
  by (simp_all add: NvPSSFinalizeDecisionRequestSeverity_def Let_def)

lemma take_map_prefix: "take n (map f (take n xs) @ drop n xs) = map f (take n xs)"
  by (cases "n \<le> length xs") simp_all

lemma populated_finalize:
  "populated (NvPSSFinalizeDecisionRequestSeverity r) =
     map (with_severity (NvPSSDecisionRequestSeverity (Some r))) (populated r)"
  by (simp add: NvPSSFinalizeDecisionRequestSeverity_def Let_def populated_def with_severity_def [abs_def]
      take_map_prefix del: take_append)

lemma assign_fields [simp]:
  "dr_sensorDataSummarySize (NvPSSAssignSerializedDecisionRequestId i r) = dr_sensorDataSummarySize r"
  "dr_requestId (NvPSSAssignSerializedDecisionRequestId i r) = i"
  "dr_pssStatus (NvPSSAssignSerializedDecisionRequestId i r) = dr_pssStatus r"
  "length (dr_sensorDataSummary (NvPSSAssignSerializedDecisionRequestId i r)) = length (dr_sensorDataSummary r)"
  "populated (NvPSSAssignSerializedDecisionRequestId i r) = map (assign_noop_id i) (populated r)"
  by (simp_all add: NvPSSAssignSerializedDecisionRequestId_def Let_def populated_def take_map_prefix
      del: take_append)

lemma batch_ok_simps [simp]:
  "batch_ok (NvPSSFinalizeDecisionRequestSeverity r) = batch_ok r"
  "batch_ok (r\<lparr>dr_pssStatus := st\<rparr>) = batch_ok r"
  "batch_ok (seal_request r) = batch_ok r"
  by (simp_all add: batch_ok_def populated_finalize with_severity_def) (simp add: populated_def)

lemma batch_ok_assign: "batch_ok r \<Longrightarrow> batch_ok (NvPSSAssignSerializedDecisionRequestId i r)"
  by (auto simp: batch_ok_def assign_noop_id_def event_fields_ok_def fused_event_ok_def)

lemma critical_evidence_severity:
  assumes "sd \<in> set (populated r)" "critical_evidence (ss_mode (dr_pssStatus r)) sd"
  shows "NvPSSDecisionRequestSeverity (Some r) = CRITICAL"
  using assms
  by (auto simp: NvPSSDecisionRequestSeverity_def list_ex_iff NvPSSClassifyPsdSeverity_def critical_evidence_def
      NvPSSEventTypeRequiresCriticalDelivery_def NvPSSPsdIsMustDeliverReport_def
      eventTypeRequiresCriticalSeverity_def split: if_splits)

text \<open>A batch of entries in range, finalized under an operational mode in range and sealed, is accepted.\<close>

lemma finalized_validates:
  assumes "batch_ok r" "ss_mode (dr_pssStatus r) \<le> ERROR"
  shows "validateDecisionRequest (Some (seal_request (NvPSSFinalizeDecisionRequestSeverity r))) = PSS_VALID"
proof -
  let ?v = "NvPSSDecisionRequestSeverity (Some r)"
  have v: "?v \<le> CRITICAL" by (simp add: NvPSSDecisionRequestSeverity_def pss_enum)
  have ok: "fused_event_ok ((sd_event sd)\<lparr>fe_severity := ?v\<rparr>)" if "sd \<in> set (populated r)" for sd
    using that assms(1) v by (auto simp: batch_ok_def event_fields_ok_def fused_event_ok_def)
  have ev: "critical_evidence mode (with_severity ?v sd) = critical_evidence mode sd" for mode sd
    by (simp add: critical_evidence_def with_severity_def)
  have crit: "?v = CRITICAL" if "sd \<in> set (populated r)" "critical_evidence (ss_mode (dr_pssStatus r)) sd" for sd
    using that by (rule critical_evidence_severity)
  have size: "dr_sensorDataSummarySize r \<noteq> 0" using assms(1) by (auto simp: batch_ok_def)
  show ?thesis
    unfolding validate_sealed request_fields_ok_def finalize_fields populated_finalize
    using assms size ok crit by (auto simp: batch_ok_def ev) (auto simp: with_severity_def)
qed

section \<open>The sender invariant\<close>

definition overflow_generation :: "PssManager \<Rightarrow> nat" where
  "overflow_generation m = ov_generation (sg_overflow (pm_staging m))"

definition ticket_ok :: "PssManager \<Rightarrow> PsdBatchTicket \<Rightarrow> bool" where
  "ticket_ok m t \<longleftrightarrow>
     (tk_stamped t \<longrightarrow> ss_mode (tk_stamp t) \<le> ERROR \<and> tk_stampGeneration t \<le> overflow_generation m)"

definition accepted :: "DecisionRequest \<Rightarrow> bool" where
  "accepted r \<longleftrightarrow> validateDecisionRequest (Some r) = PSS_VALID"

text \<open>What the environment grants: validated client events, events in range from the engine, a running clock.\<close>

fun producer_ok :: "ProducerOp \<Rightarrow> bool" where
  "producer_ok (ClientEvent client event) \<longleftrightarrow> validateSafetyEvent (Some event) = PSS_VALID"
| "producer_ok (TrustReported nowNs client type event) \<longleftrightarrow>
     nowNs \<noteq> 0 \<and> validateSafetyEvent (Some event) = PSS_VALID"
| "producer_ok (InputTick rpc nowMs registers takes) \<longleftrightarrow> True"
| "producer_ok (FusionTick rpc nowMs stages es) \<longleftrightarrow> (\<forall>e \<in> set es. event_fields_ok e)"

definition env_ok :: "PassEnv \<Rightarrow> bool" where
  "env_ok env \<longleftrightarrow>
     pe_nowNs env \<noteq> 0 \<and> (\<forall>op \<in> set (pe_before env). producer_ok op) \<and>
     (\<forall>k. (\<forall>op \<in> set (pe_during env k). producer_ok op) \<and>
          (case pe_rpc env k of None \<Rightarrow> True | Some r \<Rightarrow> rv_mode r \<le> ERROR))"

text \<open>
  What other threads keep: the front of the critical lane, the absence of an entry that has left it, the id
  counter and the delivery state.
\<close>

definition gone :: "nat \<Rightarrow> PssManager \<Rightarrow> bool" where
  "gone n m \<longleftrightarrow> n < sg_enqueueSeq (pm_staging m) \<and> n \<notin> qe_seq ` set (sg_critical (pm_staging m))"

definition front_kept :: "PssManager \<Rightarrow> PssManager \<Rightarrow> bool" where
  "front_kept m m' \<longleftrightarrow>
     prefix (take MAX_SENSORS_DATA_SUMMARY_SIZE (sg_critical (pm_staging m))) (sg_critical (pm_staging m')) \<and>
     (\<forall>n. gone n m \<longrightarrow> gone n m') \<and> overflow_generation m \<le> overflow_generation m'"

definition advances :: "PssManager \<Rightarrow> PssManager \<Rightarrow> bool" where
  "advances m m' \<longleftrightarrow> front_kept m m' \<and> pm_requestId m' = pm_requestId m \<and> pm_deliveryState m' = pm_deliveryState m"

lemma prefix_take_trans:
  assumes "prefix (take n xs) ys" "prefix (take n ys) zs"
  shows "prefix (take n xs) zs"
proof -
  have "prefix (take n xs) (take n ys)"
    using assms(1) by (auto simp: prefix_def)
  then show ?thesis using assms(2) by (rule prefix_order.trans)
qed

lemma front_kept_trans: "front_kept a b \<Longrightarrow> front_kept b c \<Longrightarrow> front_kept a c"
  by (auto simp: front_kept_def intro: prefix_take_trans)

lemma front_kept_staging: "pm_staging m' = pm_staging m \<Longrightarrow> front_kept m m'"
  by (simp add: front_kept_def overflow_generation_def gone_def take_is_prefix)

lemma advances_front: "advances m m' \<Longrightarrow> front_kept m m'"
  by (simp add: advances_def)

lemma front_generation: "front_kept m m' \<Longrightarrow> overflow_generation m \<le> overflow_generation m'"
  by (simp add: front_kept_def)

lemma advances_refl [simp]: "advances m m"
  by (simp add: advances_def front_kept_staging)

lemma advances_trans: "advances a b \<Longrightarrow> advances b c \<Longrightarrow> advances a c"
  by (auto simp: advances_def intro: front_kept_trans)

lemma advances_frame:
  "pm_staging m' = pm_staging m \<Longrightarrow> pm_requestId m' = pm_requestId m \<Longrightarrow> pm_deliveryState m' = pm_deliveryState m \<Longrightarrow>
   advances m m'"
  by (simp add: advances_def front_kept_staging)

lemma prefix_evict: "n \<le> i \<Longrightarrow> prefix (take n xs) (take i xs @ ys)"
  by (simp add: prefix_def) (metis append_assoc append_take_drop_id take_take min.absorb1)

lemma enqueue_front:
  "front_kept m (m\<lparr>pm_staging := snd (enqueuePsdFusedEvent cfg priority clientId event evictable trust (pm_staging m))\<rparr>)"
proof -
  let ?sg = "snd (enqueuePsdFusedEvent cfg priority clientId event evictable trust (pm_staging m))"
  have "prefix (take MAX_SENSORS_DATA_SUMMARY_SIZE (sg_critical (pm_staging m))) (sg_critical ?sg)"
    by (auto simp: enqueuePsdFusedEvent_def enqueue_operational_def enqueue_critical_def critical_append_def
        critical_refuse_def Let_def case_prod_beta take_is_prefix victim_Some
        intro: prefix_evict prefix_order.trans [OF take_is_prefix] split: option.splits)
  moreover have "gone n (m\<lparr>pm_staging := ?sg\<rparr>)" if "gone n m" for n
    using that
    by (auto simp: enqueuePsdFusedEvent_def enqueue_operational_def enqueue_critical_def critical_append_def gone_def
        critical_refuse_def Let_def case_prod_beta dest: in_set_takeD in_set_dropD split: option.splits)
  moreover have "ov_generation (sg_overflow (pm_staging m)) \<le> ov_generation (sg_overflow ?sg)"
    by (auto simp: enqueuePsdFusedEvent_def enqueue_operational_def enqueue_critical_def critical_append_def
        critical_refuse_def Let_def case_prod_beta overflow_raise_def split: option.splits)
  ultimately show ?thesis by (simp add: front_kept_def overflow_generation_def)
qed

lemma route_advances: "advances m (route_fused cfg rpc event trust evictable m)"
  by (simp add: advances_def route_fused_def Let_def enqueue_front)

lemma route_advances_trust: "advances m (route_fused cfg rpc event trust evictable (m\<lparr>pm_trust := tr\<rparr>))"
  by (rule advances_trans [OF advances_frame route_advances]) simp_all

lemma forward_advances: "advances m (forward_distrusted cfg rpc nowMs event trust m)"
  by (simp add: forward_distrusted_def case_prod_beta route_advances_trust)

lemma pop_advances: "advances m (pop_input m)"
  by (rule advances_frame) (simp_all add: pop_input_def)

lemma drain_event_advances: "advances m (drain_event cfg rpc nowMs event m)"
  by (simp add: drain_event_def Let_def case_prod_beta forward_advances route_advances_trust)

lemma drain_input_advances: "advances m (drain_input cfg rpc nowMs n m)"
proof (induction n arbitrary: m)
  case (Suc n)
  have "advances m (drain_input cfg rpc nowMs n (drain_event cfg rpc nowMs event (pop_input m)))" for event
    by (rule advances_trans [OF advances_trans [OF pop_advances drain_event_advances] Suc])
  then show ?case by (auto split: list.split)
qed simp

lemma fold_engine_advances: "advances m (fold (route_engine_event cfg rpc) es m)"
proof (induction es arbitrary: m)
  case (Cons e es)
  have "advances m (route_engine_event cfg rpc e m)" by (simp add: route_engine_event_def Let_def route_advances)
  from advances_trans [OF this Cons] show ?case by simp
qed simp

lemma stage_advances:
  "advances m (note_stage cfg stage ok m)" "advances m (clearFusionStageFailure stage m)"
  "advances m (bumpFusionStageFailure cfg stage m)"
  by (auto intro!: advances_frame simp: note_stage_def clearFusionStageFailure_def bumpFusionStageFailure_def)

lemma handle_fused_advances: "advances m (HandleFusedEvents cfg rpc nowMs fusedEvents m)"
  by (simp add: HandleFusedEvents_def drain_input_advances fold_engine_advances split: option.split)

lemma trust_advances: "advances m (m\<lparr>pm_trust := tr\<rparr>)"
  by (rule advances_frame) simp_all

lemma register_advances: "advances m (snd (auto_register registers pid m))"
  by (rule advances_frame) (simp_all add: auto_register_def)

lemmas advances_steps = advances_trans [OF _ stage_advances(1)] advances_trans [OF _ stage_advances(2)]
  advances_trans [OF _ stage_advances(3)] advances_trans [OF _ handle_fused_advances]
  advances_trans [OF _ trust_advances] advances_trans [OF _ register_advances] advances_trans [OF _ pop_advances]
  advances_trans [OF _ route_advances] advances_trans [OF _ forward_advances]

lemma fusion_tick_advances: "advances m (fusion_loop_tick cfg rpc nowMs stages es m)"
  by (auto simp: fusion_loop_tick_def Let_def intro!: advances_steps split: option.split)

lemma process_advances:
  "advances a m \<Longrightarrow> advances a (snd (ProcessSafetyEventForFusion cfg rpc nowMs registers takes event m))"
  by (auto simp: ProcessSafetyEventForFusion_def case_prod_beta Let_def intro!: advances_steps)

lemma input_tick_advances: "advances m (input_loop_tick cfg rpc nowMs registers takes m)"
proof (cases "tr_input (pm_trust m)")
  case (Cons x rest)
  then show ?thesis
    by (auto simp: input_loop_tick_def Let_def case_prod_beta intro!: advances_steps process_advances)
qed (simp add: input_loop_tick_def)

lemma producer_step_advances: "advances m (producer_step cfg op m)"
  by (cases op) (auto intro: advances_frame input_tick_advances fusion_tick_advances)

lemma producers_advance: "advances m (producers cfg ops m)"
  unfolding producers_def
proof (induction ops arbitrary: m)
  case (Cons op ops)
  show ?case using advances_trans [OF producer_step_advances Cons] by simp
qed simp

lemma producer_step_ok:
  assumes "manager_ok cfg m" "producer_ok op"
  shows "manager_ok cfg (producer_step cfg op m)"
proof (cases op)
  case (ClientEvent client event)
  then have "client_event_ok event" using assms(2) by (simp add: validated_event_ok)
  then show ?thesis
    using assms(1) ClientEvent by (auto simp: manager_ok_def trust_ok_def)
next
  case (TrustReported nowNs client type event)
  then show ?thesis
    using assms report_trust_ok [of "pm_trust m" event nowNs "mc_source cfg" client type] validated_event_ok
    by (auto intro!: trust_update_ok) (simp add: manager_ok_def)
qed (use assms input_tick_ok fusion_tick_ok in auto)

lemma producers_ok:
  "manager_ok cfg m \<Longrightarrow> (\<And>op. op \<in> set ops \<Longrightarrow> producer_ok op) \<Longrightarrow> manager_ok cfg (producers cfg ops m)"
  unfolding producers_def by (induction ops arbitrary: m) (auto intro: producer_step_ok)

section \<open>One send\<close>

definition send_ok :: "PssManagerCfg \<Rightarrow> PsdSend \<Rightarrow> bool" where
  "send_ok cfg st \<longleftrightarrow>
     batch_ok (ps_request st) \<and> manager_ok cfg (ps_manager st) \<and> ticket_ok (ps_manager st) (ps_ticket st) \<and>
     (\<forall>r \<in> set (ps_wire st). accepted r)"

lemma status_mode_ok:
  "(case rpc of None \<Rightarrow> True | Some r \<Rightarrow> rv_mode r \<le> ERROR) \<Longrightarrow>
   ss_mode (fst (makePssStatusForDecisionRequest rpc m)) \<le> ERROR"
  by (auto simp: makePssStatusForDecisionRequest_def Let_def decisionRequestOperationalMode_def
      NvPSSDeliveryOperationalMode_def pss_enum split: option.splits)

lemma stamp_generation_le: "snd (makePssStatusForDecisionRequest rpc m) \<le> overflow_generation m"
  by (simp add: makePssStatusForDecisionRequest_def Let_def overflow_generation_def stampGeneration_def)

lemma assign_id_simps [simp]:
  "ps_ticket (assign_id st) = ps_ticket st" "ps_wire (assign_id st) = ps_wire st"
  "batch_ok (ps_request st) \<Longrightarrow> batch_ok (ps_request (assign_id st))"
  "manager_ok cfg (ps_manager (assign_id st)) = manager_ok cfg (ps_manager st)"
  "overflow_generation (ps_manager (assign_id st)) = overflow_generation (ps_manager st)"
  "pm_staging (ps_manager (assign_id st)) = pm_staging (ps_manager st)"
  "dr_requestId (ps_request (assign_id st)) \<noteq> 0"
  by (simp_all add: assign_id_def case_prod_beta batch_ok_assign overflow_generation_def)
    (use allocated_valid [of "pm_requestId (ps_manager st)"] in \<open>auto simp: wrap_valid_def\<close>)

lemma prepare_ok:
  assumes "send_ok cfg st" "case rpc of None \<Rightarrow> True | Some r \<Rightarrow> rv_mode r \<le> ERROR"
  shows "send_ok cfg (prepare_attempt rpc st)"
proof -
  let ?st = "stamp_request rpc (assign_id st)"
  have st: "batch_ok (ps_request ?st)" "manager_ok cfg (ps_manager ?st)" "ticket_ok (ps_manager ?st) (ps_ticket ?st)"
    "ps_wire ?st = ps_wire st" "ss_mode (dr_pssStatus (ps_request ?st)) \<le> ERROR"
    using assms stamp_generation_le [of rpc "ps_manager (assign_id st)"]
    by (auto simp: send_ok_def stamp_request_def case_prod_beta ticket_ok_def status_mode_ok)
  have "accepted (seal_request (NvPSSFinalizeDecisionRequestSeverity (ps_request ?st)))"
    unfolding accepted_def using st(1,5) by (rule finalized_validates)
  then show ?thesis
    using st assms(1) by (simp add: prepare_attempt_def seal_and_send_def Let_def send_ok_def)
qed

lemma ticket_ok_advances: "ticket_ok m t \<Longrightarrow> overflow_generation m \<le> overflow_generation m' \<Longrightarrow> ticket_ok m' t"
  by (auto simp: ticket_ok_def)

lemma ticket_ok_state [simp]:
  "ticket_ok (m\<lparr>pm_deliveryState := d\<rparr>) t = ticket_ok m t" "ticket_ok (markDeliveryFailure reason m) t = ticket_ok m t"
  "ticket_ok (markDeliveryRecovered r m) t = ticket_ok m t"
  "manager_ok cfg (markDeliveryFailure reason m) = manager_ok cfg m"
  "manager_ok cfg (markDeliveryRecovered r m) = manager_ok cfg m"
  by (simp_all add: ticket_ok_def overflow_generation_def markDeliveryFailure_def markDeliveryRecovered_def)

lemma env_okD:
  assumes "env_ok env"
  shows "\<And>op. op \<in> set (pe_during env k) \<Longrightarrow> producer_ok op" "\<And>op. op \<in> set (pe_before env) \<Longrightarrow> producer_ok op"
    "case pe_rpc env k of None \<Rightarrow> True | Some r \<Rightarrow> rv_mode r \<le> ERROR" "pe_nowNs env \<noteq> 0"
  using assms by (auto simp: env_ok_def)

definition attempt_once :: "PssManagerCfg \<Rightarrow> PassEnv \<Rightarrow> nat \<Rightarrow> PsdSend \<Rightarrow> PsdSend" where
  "attempt_once cfg env attempt st =
     (prepare_attempt (pe_rpc env attempt) st)
       \<lparr>ps_manager := producers cfg (pe_during env attempt) (ps_manager (prepare_attempt (pe_rpc env attempt) st))\<rparr>"

lemma attempt_once_ok:
  assumes "send_ok cfg st" "env_ok env"
  shows "send_ok cfg (attempt_once cfg env attempt st)"
proof -
  let ?st = "prepare_attempt (pe_rpc env attempt) st"
  have st: "send_ok cfg ?st" by (rule prepare_ok [OF assms(1) env_okD(3) [OF assms(2)]])
  then have "manager_ok cfg (producers cfg (pe_during env attempt) (ps_manager ?st))"
    using env_okD(1) [OF assms(2)] by (auto simp: send_ok_def intro: producers_ok)
  moreover have "overflow_generation (ps_manager ?st) \<le>
      overflow_generation (producers cfg (pe_during env attempt) (ps_manager ?st))"
    using advances_front [OF producers_advance] by (simp add: front_generation)
  ultimately show ?thesis
    using st by (auto simp: attempt_once_def send_ok_def intro: ticket_ok_advances)
qed

text \<open>An invariant of one attempt that ignores the delivery state is one of the whole send.\<close>

lemma send_attempts_invariant:
  assumes step: "\<And>k st. P st \<Longrightarrow> P (attempt_once cfg env k st)"
    and state: "\<And>st f. P st \<Longrightarrow> P (st\<lparr>ps_manager := markDeliveryFailure f (ps_manager st)\<rparr>)"
      "\<And>st. P st \<Longrightarrow> P (st\<lparr>ps_manager := markDeliveryRecovered (ps_request st) (ps_manager st)\<rparr>)"
      "\<And>st. P st \<Longrightarrow> P (st\<lparr>ps_manager := (ps_manager st)\<lparr>pm_deliveryState := DELIVERY_RETRYING\<rparr>\<rparr>)"
    and "P st"
  shows "P (snd (send_attempts cfg env attempt left lastReason st))"
  using \<open>P st\<close>
proof (induction left arbitrary: attempt lastReason st)
  case 0
  then show ?case by (simp add: state(1))
next
  case (Suc left)
  have "P (attempt_once cfg env attempt st)" by (rule step [OF Suc.prems])
  then show ?case
    using Suc.IH state
    by (simp add: Let_def attempt_once_def [symmetric] split: LinkOutcome.split)
qed

lemma send_attempts_ok:
  "send_ok cfg st \<Longrightarrow> env_ok env \<Longrightarrow> send_ok cfg (snd (send_attempts cfg env attempt left lastReason st))"
  by (rule send_attempts_invariant) (auto intro: attempt_once_ok, auto simp: send_ok_def)

lemma prepare_fields [simp]:
  "tk_seq (ps_ticket (prepare_attempt rpc st)) = tk_seq (ps_ticket st)"
  "tk_attempts (ps_ticket (prepare_attempt rpc st)) = tk_attempts (ps_ticket st)"
  "tk_requestId (ps_ticket (prepare_attempt rpc st)) = tk_requestId (ps_ticket st)"
  "pm_staging (ps_manager (prepare_attempt rpc st)) = pm_staging (ps_manager st)"
  by (simp_all add: prepare_attempt_def seal_and_send_def stamp_request_def Let_def case_prod_beta)

lemma mark_staging [simp]:
  "pm_staging (markDeliveryFailure f m) = pm_staging m" "pm_staging (markDeliveryRecovered r m) = pm_staging m"
  by (simp_all add: markDeliveryFailure_def markDeliveryRecovered_def)

lemma attempt_once_front: "front_kept (ps_manager st) (ps_manager (attempt_once cfg env k st))"
  using front_kept_trans [OF front_kept_staging advances_front [OF producers_advance]]
  by (simp add: attempt_once_def)

lemma send_attempts_front:
  "front_kept (ps_manager st) (ps_manager (snd (send_attempts cfg env attempt left lastReason st)))"
  by (rule send_attempts_invariant)
    (auto intro: front_kept_trans [OF _ attempt_once_front] front_kept_trans [OF _ front_kept_staging] front_kept_staging)

lemma send_attempts_ticket:
  defines "st' \<equiv> \<lambda>cfg env attempt left lastReason st. snd (send_attempts cfg env attempt left lastReason st)"
  shows "tk_seq (ps_ticket (st' cfg env attempt left lastReason st)) = tk_seq (ps_ticket st)"
    "tk_attempts (ps_ticket (st' cfg env attempt left lastReason st)) = tk_attempts (ps_ticket st)"
  unfolding st'_def by (rule send_attempts_invariant; simp add: attempt_once_def)+

text \<open>Every request of one send carries one id and one status, those the ticket had when it had any.\<close>

definition one_identity :: "u32 \<Rightarrow> PsdBatchTicket \<Rightarrow> PsdSend \<Rightarrow> bool" where
  "one_identity i t st \<longleftrightarrow>
     (i \<noteq> 0 \<longrightarrow> dr_requestId (ps_request st) = i) \<and>
     (tk_stamped t \<longrightarrow> tk_stamped (ps_ticket st) \<and> tk_stamp (ps_ticket st) = tk_stamp t) \<and>
     (ps_wire st \<noteq> [] \<longrightarrow> tk_stamped (ps_ticket st) \<and> dr_requestId (ps_request st) \<noteq> 0) \<and>
     (\<forall>r \<in> set (ps_wire st).
        dr_requestId r = dr_requestId (ps_request st) \<and> dr_pssStatus r = tk_stamp (ps_ticket st))"

lemma assign_id_nonzero: "dr_requestId (ps_request st) \<noteq> 0 \<Longrightarrow> assign_id st = st"
  by (simp add: assign_id_def)

lemma prepare_identity:
  fixes rpc st
  defines "st' \<equiv> prepare_attempt rpc st"
  shows "dr_requestId (ps_request st') = dr_requestId (ps_request (assign_id st))"
    "tk_stamped (ps_ticket st')"
    "tk_stamped (ps_ticket st) \<Longrightarrow> tk_stamp (ps_ticket st') = tk_stamp (ps_ticket st)"
    "\<exists>r. ps_wire st' = ps_wire st @ [r] \<and> dr_requestId r = dr_requestId (ps_request (assign_id st)) \<and>
       dr_pssStatus r = tk_stamp (ps_ticket st')"
  by (auto simp: st'_def prepare_attempt_def seal_and_send_def stamp_request_def Let_def case_prod_beta)

lemma attempt_once_identity:
  assumes "one_identity i t st"
  shows "one_identity i t (attempt_once cfg env k st)"
proof -
  let ?st = "prepare_attempt (pe_rpc env k) st"
  obtain r where r: "ps_wire ?st = ps_wire st @ [r]" "dr_requestId r = dr_requestId (ps_request (assign_id st))"
    "dr_pssStatus r = tk_stamp (ps_ticket ?st)"
    using prepare_identity(4) by blast
  have "one_identity i t ?st"
    using assms r prepare_identity(1-3) [where rpc = "pe_rpc env k" and st = st]
    by (auto simp: one_identity_def assign_id_nonzero)
  then show ?thesis by (simp add: one_identity_def attempt_once_def)
qed

lemma send_attempts_identity:
  "one_identity i t st \<Longrightarrow> one_identity i t (snd (send_attempts cfg env attempt left lastReason st))"
  by (rule send_attempts_invariant) (auto intro: attempt_once_identity, auto simp: one_identity_def)

section \<open>One pass\<close>

definition sender_ok :: "PssManagerCfg \<Rightarrow> PsdSender \<Rightarrow> bool" where
  "sender_ok cfg s \<longleftrightarrow>
     manager_ok cfg (sx_manager s) \<and>
     (\<forall>p. ticket_ok (sx_manager s) (sx_retained s p) \<and>
          tk_attempts (sx_retained s p) < NVPSS_PSD_BATCH_MAX_DELIVERY_ATTEMPTS) \<and>
     (\<forall>r \<in> set (sx_wire s). accepted r)"

lemma empty_ticket_ok [simp]: "ticket_ok m empty_ticket" "tk_attempts empty_ticket < NVPSS_PSD_BATCH_MAX_DELIVERY_ATTEMPTS"
  by (simp_all add: ticket_ok_def empty_ticket_def pss_fs)

lemma sender_initial_ok: "manager_ok cfg m \<Longrightarrow> sender_ok cfg (sender_initial cfg nowNs m)"
  by (simp add: sender_ok_def sender_initial_def)

lemma sensor_data_ok:
  "entry_ok e \<Longrightarrow> event_fields_ok (sd_event (sensor_data_of cfg rpc m e))"
  by (auto simp: sensor_data_of_def Let_def entry_ok_def NvPSSStampSourcePresence_def event_fields_ok_def
      fused_event_ok_def split: prod.split) (simp_all add: pss_enum)

lemma lane_staged: "set (lane p s) \<subseteq> staged s"
  by (cases p) (auto simp: lane_def staged_def)

lemma unat_batch_length: "unat (of_nat (length (take MAX_SENSORS_DATA_SUMMARY_SIZE xs)) :: u8) =
  length (take MAX_SENSORS_DATA_SUMMARY_SIZE xs)"
proof -
  have "length (take MAX_SENSORS_DATA_SUMMARY_SIZE xs) < 2 ^ LENGTH(8)" by (simp add: pss_enum)
  then show ?thesis by (simp only: unat_of_nat mod_less)
qed

lemma build_ok:
  assumes "manager_ok cfg m" "buildDecisionRequestFromQueuedEvents cfg rpc p m = Some (request, ticket)"
  shows "batch_ok request" "\<not> tk_stamped ticket" "dr_requestId request = 0"
    "tk_seq ticket = map qe_seq (take MAX_SENSORS_DATA_SUMMARY_SIZE (lane p (pm_staging m)))" "tk_seq ticket \<noteq> []"
proof -
  let ?es = "take MAX_SENSORS_DATA_SUMMARY_SIZE (lane p (pm_staging m))"
  have ne: "?es \<noteq> []" and t: "ticket = empty_ticket\<lparr>tk_seq := map qe_seq ?es\<rparr>"
    using assms(2) by (auto simp: buildDecisionRequestFromQueuedEvents_def Let_def split: if_splits)
  then show "\<not> tk_stamped ticket" "tk_seq ticket = map qe_seq ?es" "tk_seq ticket \<noteq> []"
    by (simp_all add: empty_ticket_def)
  obtain r where r: "request = NvPSSFinalizeDecisionRequestSeverity r" "dr_requestId r = 0"
    "unat (dr_sensorDataSummarySize r) = length ?es"
    "dr_sensorDataSummary r = map (sensor_data_of cfg rpc m) ?es @ drop (length ?es) (dr_sensorDataSummary zero_request)"
    using assms(2) unat_batch_length [of "lane p (pm_staging m)"]
    by (auto simp: buildDecisionRequestFromQueuedEvents_def Let_def zero_request_def split: if_splits)
  have "populated r = map (sensor_data_of cfg rpc m) ?es" by (simp add: populated_def r(3,4))
  moreover have "entry_ok e" if "e \<in> set ?es" for e
    using that assms(1) lane_staged by (fastforce simp: manager_ok_def dest: in_set_takeD)
  moreover have "length (dr_sensorDataSummary r) = MAX_SENSORS_DATA_SUMMARY_SIZE"
    by (simp add: r(4) zero_request_def)
  ultimately have "batch_ok r" using ne r(3) by (auto simp: batch_ok_def sensor_data_ok)
  then show "batch_ok request" "dr_requestId request = 0" using r(1,2) by simp_all
qed

lemma resume_fields [simp]: "tk_seq (resume_ticket t ticket) = tk_seq ticket"
  by (simp add: resume_ticket_def)

lemma resume_attempts:
  "tk_attempts t < NVPSS_PSD_BATCH_MAX_DELIVERY_ATTEMPTS \<Longrightarrow>
   1 \<le> tk_attempts (resume_ticket t ticket) \<and>
   tk_attempts (resume_ticket t ticket) \<le> NVPSS_PSD_BATCH_MAX_DELIVERY_ATTEMPTS"
  by (auto simp: resume_ticket_def pss_fs intro: inc_le) (unat_arith, simp)+

lemma overflow_generation_commit [simp]:
  "ov_generation (sg_overflow (commitQueuedEvents cfg p seqs s)) = ov_generation (sg_overflow s)"
  "ov_generation (sg_overflow (dropUndeliverableBatch cfg p seqs i s)) = ov_generation (sg_overflow s)"
  "ov_generation (sg_overflow (onPsdRequestAcknowledged cfg p seqs g i s)) = ov_generation (sg_overflow s)"
proof -
  have c: "ov_generation (sg_overflow (commitQueuedEvents cfg p seqs s)) = ov_generation (sg_overflow s)" for s
    by (auto simp: commitQueuedEvents_def maybeClearCriticalLaneOverflow_def Let_def clearIfDrained_def
        split: NvPSSPsdSendPriority.split)
  then show "ov_generation (sg_overflow (commitQueuedEvents cfg p seqs s)) = ov_generation (sg_overflow s)"
    "ov_generation (sg_overflow (dropUndeliverableBatch cfg p seqs i s)) = ov_generation (sg_overflow s)"
    "ov_generation (sg_overflow (onPsdRequestAcknowledged cfg p seqs g i s)) = ov_generation (sg_overflow s)"
    by (auto simp: dropUndeliverableBatch_def onPsdRequestAcknowledged_def noteStampDelivered_def)
qed

lemma removal_ok:
  assumes "manager_ok cfg m"
  shows "manager_ok cfg (m\<lparr>pm_staging := dropUndeliverableBatch (mc_staging cfg) p seqs i (pm_staging m)\<rparr>)"
    and "g \<le> overflow_generation m \<Longrightarrow>
      manager_ok cfg (m\<lparr>pm_staging := onPsdRequestAcknowledged (mc_staging cfg) p seqs g i (pm_staging m)\<rparr>)"
  using assms
  by (auto simp: manager_ok_def overflow_generation_def drop_batch_inv acknowledged_inv
      dest!: drop_batch_staged acknowledged_staged intro: entry_ok_copy)

lemma sender_ok_frame [simp]:
  "sender_ok cfg (s\<lparr>sx_operationalGate := g\<rparr>) = sender_ok cfg s"
  "sender_ok cfg (s\<lparr>sx_nextStatusNoopNs := n\<rparr>) = sender_ok cfg s"
  "sender_ok cfg (s\<lparr>sx_sendRetryNotBeforeNs := n\<rparr>) = sender_ok cfg s"
  "sender_ok cfg (s\<lparr>sx_criticalYieldPending := y\<rparr>) = sender_ok cfg s"
  by (simp_all add: sender_ok_def)

lemma sender_ok_manager:
  "sender_ok cfg s \<Longrightarrow> manager_ok cfg m \<Longrightarrow> overflow_generation (sx_manager s) \<le> overflow_generation m \<Longrightarrow>
   sender_ok cfg (s\<lparr>sx_manager := m\<rparr>)"
  by (auto simp: sender_ok_def intro: ticket_ok_advances)

lemma sender_ok_parts: "sender_ok cfg s \<Longrightarrow> manager_ok cfg (sx_manager s)"
  by (simp add: sender_ok_def)

definition noop_manager :: "PssManagerCfg \<Rightarrow> u64 \<Rightarrow> PssManager \<Rightarrow> PssManager" where
  "noop_manager cfg nowNs m =
     (let (queued, sg) = enqueueStatusNoopEvent (mc_staging cfg) nowNs (pm_staging m);
          m = m\<lparr>pm_staging := sg\<rparr>
      in if queued then m\<lparr>pm_trust := ReassertStandingVerdicts (mc_source cfg) nowNs (pm_trust m)\<rparr> else m)"

lemma noop_manager_ok:
  assumes "manager_ok cfg m" "nowNs \<noteq> 0"
  shows "manager_ok cfg (noop_manager cfg nowNs m)"
proof -
  let ?sg = "snd (enqueueStatusNoopEvent (mc_staging cfg) nowNs (pm_staging m))"
  have inv: "staging_inv (mc_staging cfg) ?sg"
    using assms(1) by (auto simp: manager_ok_def enqueueStatusNoopEvent_def intro: enqueue_operational_inv)
  have "entry_ok e" if "e \<in> staged ?sg" for e
    using noop_staged [OF that] assms noop_event_ok by (auto simp: manager_ok_def entry_ok_def)
  then have ok: "manager_ok cfg (m\<lparr>pm_staging := ?sg\<rparr>)" using assms(1) inv by (simp add: manager_ok_def)
  have "trust_ok (ReassertStandingVerdicts (mc_source cfg) nowNs (pm_trust m))"
    using assms by (intro reassert_ok) (simp_all add: manager_ok_def)
  with ok trust_update_ok [OF ok] show ?thesis
    by (simp add: noop_manager_def Let_def case_prod_beta)
qed

lemma noop_manager_front: "advances m (noop_manager cfg nowNs m)"
  by (auto simp: advances_def front_kept_def gone_def noop_manager_def Let_def case_prod_beta overflow_generation_def
      enqueueStatusNoopEvent_def enqueue_operational_def take_is_prefix)

lemma status_noop_manager:
  "sx_manager (status_noop_due cfg nowNs s) =
     (if nowNs < sx_nextStatusNoopNs s then sx_manager s else noop_manager cfg nowNs (sx_manager s))"
  "sx_retained (status_noop_due cfg nowNs s) = sx_retained s" "sx_wire (status_noop_due cfg nowNs s) = sx_wire s"
  by (simp_all add: status_noop_due_def noop_manager_def Let_def case_prod_beta)

lemma status_noop_ok:
  assumes "sender_ok cfg s" "nowNs \<noteq> 0"
  shows "sender_ok cfg (status_noop_due cfg nowNs s)"
proof -
  let ?m = "sx_manager (status_noop_due cfg nowNs s)"
  have "sender_ok cfg (s\<lparr>sx_manager := ?m\<rparr>)"
    using assms noop_manager_ok noop_manager_front [of "sx_manager s" cfg nowNs]
    by (intro sender_ok_manager) (auto simp: status_noop_manager sender_ok_parts advances_def front_generation)
  then show ?thesis by (simp add: sender_ok_def status_noop_manager(2,3))
qed

lemma after_send_ok:
  assumes "sender_ok cfg s" "send_ok cfg st" "overflow_generation (sx_manager s) \<le> overflow_generation (ps_manager st)"
  shows "sender_ok cfg (after_send cfg p env ok st s)"
proof -
  let ?m = "ps_manager st"
  have m: "manager_ok cfg ?m" "ticket_ok ?m (ps_ticket st)" using assms(2) by (simp_all add: send_ok_def)
  have tickets: "ticket_ok m (sx_retained s q)" if "overflow_generation ?m = overflow_generation m" for m q
    using assms(1,3) that by (auto simp: sender_ok_def intro: ticket_ok_advances)
  have dropped: "overflow_generation ?m = overflow_generation
      (?m\<lparr>pm_staging := dropUndeliverableBatch (mc_staging cfg) p seqs i (pm_staging ?m)\<rparr>)"
    "overflow_generation ?m = overflow_generation
      (?m\<lparr>pm_staging := onPsdRequestAcknowledged (mc_staging cfg) p seqs g i (pm_staging ?m)\<rparr>)" for seqs g i
    by (simp_all add: overflow_generation_def)
  have own: "ticket_ok ?m ((ps_ticket st)\<lparr>tk_requestId := i\<rparr>)" for i using m(2) by (simp add: ticket_ok_def)
  have gen: "(if tk_stamped (ps_ticket st) then tk_stampGeneration (ps_ticket st) else 0) \<le> overflow_generation ?m"
    using m(2) by (simp add: ticket_ok_def)
  show ?thesis
    using assms(1,2) m removal_ok [OF m(1)] gen own tickets [OF refl] tickets [OF dropped(1)] tickets [OF dropped(2)]
    by (auto simp: after_send_def Let_def sender_ok_def send_ok_def not_le)
qed

text \<open>What the pass hands to \<open>sendDecisionRequestWithRetry\<close>, and its result.\<close>

definition sent ::
  "PssManagerCfg \<Rightarrow> NvPSSPsdSendPriority \<Rightarrow> PassEnv \<Rightarrow> PsdSender \<Rightarrow> DecisionRequest \<Rightarrow> PsdBatchTicket \<Rightarrow> bool \<times> PsdSend" where
  "sent cfg p env s request ticket =
     (let ticket = resume_ticket (sx_retained s p) ticket
      in sendDecisionRequestWithRetry cfg env
           (if tk_requestId ticket \<noteq> 0 then NvPSSAssignSerializedDecisionRequestId (tk_requestId ticket) request else request)
           ticket (producers cfg (pe_during env 0) (sx_manager s)))"

lemma send_batch_None: "buildDecisionRequestFromQueuedEvents cfg (pe_rpc env 0) p (sx_manager s) = None \<Longrightarrow> send_batch cfg p env s = s"
  by (simp add: send_batch_def)

lemma send_batch_Some:
  assumes "buildDecisionRequestFromQueuedEvents cfg (pe_rpc env 0) p (sx_manager s) = Some (request, ticket)"
  defines "s' \<equiv> after_send cfg p env (fst (sent cfg p env s request ticket)) (snd (sent cfg p env s request ticket)) s"
  shows "sx_manager (send_batch cfg p env s) = sx_manager s'" "sx_retained (send_batch cfg p env s) = sx_retained s'"
    "sx_wire (send_batch cfg p env s) = sx_wire s'"
    "sx_sendRetryNotBeforeNs (send_batch cfg p env s) = sx_sendRetryNotBeforeNs s'"
    "sx_criticalYieldPending (send_batch cfg p env s) = (p = PRIO_CRITICAL \<and> tk_seq (sx_retained s' PRIO_CRITICAL) \<noteq> [])"
  unfolding send_batch_def s'_def assms(1) option.case prod.case sent_def [symmetric] Let_def
  by (cases p; simp add: case_prod_beta sent_def Let_def)+

lemma sent_start:
  assumes "sender_ok cfg s" "env_ok env"
    "buildDecisionRequestFromQueuedEvents cfg (pe_rpc env 0) p (sx_manager s) = Some (request, ticket)"
  shows "send_ok cfg \<lparr>ps_request = (if tk_requestId (resume_ticket (sx_retained s p) ticket) \<noteq> 0
        then NvPSSAssignSerializedDecisionRequestId (tk_requestId (resume_ticket (sx_retained s p) ticket)) request else request),
      ps_ticket = resume_ticket (sx_retained s p) ticket,
      ps_manager = producers cfg (pe_during env 0) (sx_manager s), ps_wire = []\<rparr>"
proof -
  have adv: "overflow_generation (sx_manager s) \<le> overflow_generation (producers cfg (pe_during env 0) (sx_manager s))"
    using advances_front [OF producers_advance] by (simp add: front_generation)
  have "ticket_ok (sx_manager s) (sx_retained s p)" using assms(1) by (simp add: sender_ok_def)
  then have "ticket_ok (sx_manager s) (resume_ticket (sx_retained s p) ticket)"
    using build_ok(2) [OF sender_ok_parts [OF assms(1)] assms(3)] by (auto simp: resume_ticket_def ticket_ok_def)
  moreover have "manager_ok cfg (producers cfg (pe_during env 0) (sx_manager s))"
    using env_okD(1) [OF assms(2)] by (intro producers_ok sender_ok_parts [OF assms(1)])
  ultimately show ?thesis
    using build_ok(1) [OF sender_ok_parts [OF assms(1)] assms(3)] adv
    by (auto simp: send_ok_def batch_ok_assign intro: ticket_ok_advances)
qed

lemma sent_ok:
  assumes "sender_ok cfg s" "env_ok env"
    "buildDecisionRequestFromQueuedEvents cfg (pe_rpc env 0) p (sx_manager s) = Some (request, ticket)"
  shows "send_ok cfg (snd (sent cfg p env s request ticket))"
  using send_attempts_ok [OF sent_start [OF assms] assms(2)]
  by (simp add: sent_def Let_def sendDecisionRequestWithRetry_def)

lemma sent_front: "front_kept (sx_manager s) (ps_manager (snd (sent cfg p env s request ticket)))"
  unfolding sent_def Let_def sendDecisionRequestWithRetry_def
  by (rule front_kept_trans [OF advances_front [OF producers_advance]], rule front_kept_trans [OF _ send_attempts_front])
    (rule front_kept_staging, simp)

lemma sent_ticket:
  "tk_seq (ps_ticket (snd (sent cfg p env s request ticket))) = tk_seq ticket"
  "tk_attempts (ps_ticket (snd (sent cfg p env s request ticket))) = tk_attempts (resume_ticket (sx_retained s p) ticket)"
  by (simp_all add: sent_def Let_def sendDecisionRequestWithRetry_def send_attempts_ticket)

lemma send_batch_ok:
  assumes "sender_ok cfg s" "env_ok env"
  shows "sender_ok cfg (send_batch cfg p env s)"
proof (cases "buildDecisionRequestFromQueuedEvents cfg (pe_rpc env 0) p (sx_manager s)")
  case None
  then show ?thesis using assms(1) by (simp add: send_batch_None)
next
  case (Some rt)
  obtain request ticket where rt: "rt = (request, ticket)" by (cases rt)
  have "sender_ok cfg (after_send cfg p env (fst (sent cfg p env s request ticket)) (snd (sent cfg p env s request ticket)) s)"
    using sent_ok [OF assms Some [unfolded rt]] sent_front [of s cfg p env request ticket]
    by (intro after_send_ok assms(1)) (simp_all add: front_generation)
  then show ?thesis
    using send_batch_Some(1-3) [OF Some [unfolded rt]] by (simp add: sender_ok_def)
qed

lemma before_send_fields:
  "sx_retained (before_send cfg env s) = sx_retained s" "sx_wire (before_send cfg env s) = sx_wire s"
  "advances (sx_manager s) (sx_manager (before_send cfg env s))"
  using advances_trans [OF producers_advance noop_manager_front] producers_advance
  by (auto simp: before_send_def Let_def status_noop_manager)

lemma before_send_ok:
  assumes "sender_ok cfg s" "env_ok env"
  shows "sender_ok cfg (before_send cfg env s)"
proof -
  have "sender_ok cfg (s\<lparr>sx_manager := producers cfg (pe_before env) (sx_manager s)\<rparr>)"
    using env_okD(2) [OF assms(2)] producers_advance [of "sx_manager s" cfg "pe_before env"]
    by (intro sender_ok_manager assms(1) producers_ok sender_ok_parts [OF assms(1)]) (simp_all add: advances_def front_generation)
  then show ?thesis
    using status_noop_ok env_okD(4) [OF assms(2)] by (simp add: before_send_def Let_def)
qed

lemma pass_ok: "sender_ok cfg s \<Longrightarrow> env_ok env \<Longrightarrow> sender_ok cfg (managePsdSender_pass cfg env s)"
  by (simp add: managePsdSender_pass_def Let_def before_send_ok send_batch_ok split: option.split)

lemma sender_run_ok:
  "sender_ok cfg s \<Longrightarrow> (\<And>env. env \<in> set envs \<Longrightarrow> env_ok env) \<Longrightarrow> sender_ok cfg (sender_run cfg envs s)"
  unfolding sender_run_def by (induction envs arbitrary: s) (auto intro: pass_ok)

section \<open>The head of the critical lane\<close>

definition critical_front :: "PssManager \<Rightarrow> nat list" where
  "critical_front m = map qe_seq (take MAX_SENSORS_DATA_SUMMARY_SIZE (sg_critical (pm_staging m)))"

definition heads :: "nat \<Rightarrow> PssManager \<Rightarrow> bool" where
  "heads n m \<longleftrightarrow> (case sg_critical (pm_staging m) of [] \<Rightarrow> False | e # _ \<Rightarrow> qe_seq e = n)"

text \<open>
  How many more failing sends the front of the lane can have. A batch that grows counts as a new one, so the
  bound on attempts applies to each of the eight lengths.
\<close>

definition sends_left :: "PsdSender \<Rightarrow> nat" where
  "sends_left s =
     (let t = sx_retained s PRIO_CRITICAL
      in if tk_seq t \<noteq> [] \<and> prefix (tk_seq t) (critical_front (sx_manager s))
         then 3 * (MAX_SENSORS_DATA_SUMMARY_SIZE - length (tk_seq t)) + (3 - unat (tk_attempts t)) else 24)"

fun critical_sends :: "PssManagerCfg \<Rightarrow> PassEnv list \<Rightarrow> PsdSender \<Rightarrow> nat" where
  "critical_sends cfg [] s = 0"
| "critical_sends cfg (env # envs) s =
     (if due_priority (pe_nowNs env) (before_send cfg env s) = Some PRIO_CRITICAL then 1 else 0) +
     critical_sends cfg envs (managePsdSender_pass cfg env s)"

lemma front_kept_heads: "front_kept m m' \<Longrightarrow> heads n m \<Longrightarrow> heads n m'"
  by (auto simp: front_kept_def heads_def prefix_def pss_enum split: list.splits)

lemma front_kept_front:
  assumes "front_kept m m'"
  shows "prefix (critical_front m) (critical_front m')"
proof -
  have "prefix (take MAX_SENSORS_DATA_SUMMARY_SIZE (sg_critical (pm_staging m)))
      (take MAX_SENSORS_DATA_SUMMARY_SIZE (sg_critical (pm_staging m')))"
    using assms by (auto simp: front_kept_def prefix_def)
  then show ?thesis by (simp add: critical_front_def map_mono_prefix)
qed

lemma sends_left_le: "sends_left s \<le> 24"
proof -
  have "3 * (8 - length xs) + (3 - n) \<le> 24" if "xs \<noteq> []" for xs :: "nat list" and n :: nat
    using that by (cases xs) auto
  then show ?thesis by (simp add: sends_left_def Let_def MAX_SENSORS_DATA_SUMMARY_SIZE_def)
qed

lemma sends_left_mono:
  assumes "front_kept (sx_manager s) (sx_manager s')" "sx_retained s' PRIO_CRITICAL = sx_retained s PRIO_CRITICAL"
  shows "sends_left s' \<le> sends_left s"
proof (cases "tk_seq (sx_retained s PRIO_CRITICAL) \<noteq> [] \<and>
    prefix (tk_seq (sx_retained s PRIO_CRITICAL)) (critical_front (sx_manager s))")
  case True
  then show ?thesis
    using prefix_order.trans [OF _ front_kept_front [OF assms(1)]] assms(2) by (simp add: sends_left_def)
next
  case False
  then have "sends_left s = 24" unfolding sends_left_def Let_def by (rule if_not_P)
  then show ?thesis using sends_left_le [of s'] by simp
qed

lemma readmit_kept:
  "prefix (sg_critical s) (sg_critical (readmit c es s)) \<and> sg_enqueueSeq s \<le> sg_enqueueSeq (readmit c es s) \<and>
   (\<forall>n < sg_enqueueSeq s. n \<in> qe_seq ` set (sg_critical (readmit c es s)) \<longrightarrow> n \<in> qe_seq ` set (sg_critical s))"
proof (induction c es s rule: readmit.induct)
  case (2 capacity e es s)
  let ?s = "s\<lparr>sg_critical := sg_critical s @ [e\<lparr>qe_seq := sg_enqueueSeq s, qe_evictable := False\<rparr>],
              sg_readmittedSeqMax := sg_enqueueSeq s, sg_enqueueSeq := sg_enqueueSeq s + 1\<rparr>"
  show ?case
  proof (cases "length (sg_critical s) < capacity")
    case True
    have eq: "readmit capacity (e # es) s = readmit capacity es ?s" using True by simp
    have ih: "prefix (sg_critical ?s) (sg_critical (readmit capacity es ?s))"
      "sg_enqueueSeq ?s \<le> sg_enqueueSeq (readmit capacity es ?s)"
      "\<And>n. n < sg_enqueueSeq ?s \<Longrightarrow> n \<in> qe_seq ` set (sg_critical (readmit capacity es ?s)) \<Longrightarrow>
        n \<in> qe_seq ` set (sg_critical ?s)"
      using 2 [OF True] by blast+
    have "prefix (sg_critical s) (sg_critical ?s)" by simp
    moreover have "n \<in> qe_seq ` set (sg_critical s)"
      if "n < sg_enqueueSeq s" "n \<in> qe_seq ` set (sg_critical (readmit capacity es ?s))" for n
      using ih(3) [OF _ that(2)] that(1) by auto
    ultimately show ?thesis
      unfolding eq using prefix_order.trans [OF _ ih(1)] ih(2) by auto
  qed simp
qed simp

lemma maybe_clear_kept:
  "prefix (sg_critical s) (sg_critical (maybeClearCriticalLaneOverflow cfg s)) \<and>
   sg_enqueueSeq s \<le> sg_enqueueSeq (maybeClearCriticalLaneOverflow cfg s) \<and>
   (\<forall>n < sg_enqueueSeq s. n \<in> qe_seq ` set (sg_critical (maybeClearCriticalLaneOverflow cfg s)) \<longrightarrow>
      n \<in> qe_seq ` set (sg_critical s))"
  using readmit_kept [of s "unat (sc_criticalDepth cfg)" "sg_refusedPending s"]
  by (simp add: maybeClearCriticalLaneOverflow_def Let_def)

lemma commit_operational_kept:
  "front_kept m (m\<lparr>pm_staging := commitQueuedEvents cfg PRIO_OPERATIONAL seqs (pm_staging m)\<rparr>)"
proof (cases "seqs = []")
  case False
  let ?s = "(pm_staging m)\<lparr>sg_operational := fold remove_seq seqs (sg_operational (pm_staging m))\<rparr>"
  have eq: "commitQueuedEvents cfg PRIO_OPERATIONAL seqs (pm_staging m) = maybeClearCriticalLaneOverflow cfg ?s"
    using False by (simp add: commitQueuedEvents_def)
  have k: "prefix (sg_critical ?s) (sg_critical (maybeClearCriticalLaneOverflow cfg ?s))"
    "sg_enqueueSeq ?s \<le> sg_enqueueSeq (maybeClearCriticalLaneOverflow cfg ?s)"
    "\<And>n. n < sg_enqueueSeq ?s \<Longrightarrow> n \<in> qe_seq ` set (sg_critical (maybeClearCriticalLaneOverflow cfg ?s)) \<Longrightarrow>
      n \<in> qe_seq ` set (sg_critical ?s)"
    using maybe_clear_kept [of ?s cfg] by blast+
  have "prefix (take MAX_SENSORS_DATA_SUMMARY_SIZE (sg_critical (pm_staging m)))
      (sg_critical (maybeClearCriticalLaneOverflow cfg ?s))"
    using prefix_order.trans [OF take_is_prefix k(1)] by simp
  moreover have "gone n (m\<lparr>pm_staging := maybeClearCriticalLaneOverflow cfg ?s\<rparr>)" if "gone n m" for n
    unfolding gone_def using that k(2) k(3) [of n] by (auto simp: gone_def)
  moreover have "ov_generation (sg_overflow (maybeClearCriticalLaneOverflow cfg ?s)) = ov_generation (sg_overflow (pm_staging m))"
    unfolding eq [symmetric] by (rule overflow_generation_commit)
  ultimately show ?thesis unfolding eq front_kept_def by (simp add: overflow_generation_def)
qed (simp add: commitQueuedEvents_def front_kept_staging)

lemma commit_gone:
  assumes "staging_inv cfg (pm_staging m)" "n \<in> set seqs" "n < sg_enqueueSeq (pm_staging m)"
  shows "gone n (m\<lparr>pm_staging := commitQueuedEvents cfg PRIO_CRITICAL seqs (pm_staging m)\<rparr>)"
proof -
  let ?s = "(pm_staging m)\<lparr>sg_critical := filter (\<lambda>e. qe_seq e \<notin> set seqs) (sg_critical (pm_staging m))\<rparr>"
  have "commitQueuedEvents cfg PRIO_CRITICAL seqs (pm_staging m) = maybeClearCriticalLaneOverflow cfg ?s"
    using assms(1,2) by (subst commit_eq) auto
  then show ?thesis
    using maybe_clear_kept [of ?s cfg] assms(2,3) by (auto simp: gone_def)
qed

lemma heads_front: "heads n m \<Longrightarrow> n \<in> set (critical_front m) \<and> critical_front m \<noteq> []"
  by (auto simp: heads_def critical_front_def pss_enum split: list.splits)

lemma critical_front_seqs: "set (critical_front m) \<subseteq> qe_seq ` set (sg_critical (pm_staging m))"
  by (auto simp: critical_front_def dest: in_set_takeD)

lemma removed_gone:
  assumes "manager_ok cfg m" "heads n m" "n \<in> set seqs" "g \<le> overflow_generation m"
  shows "gone n (m\<lparr>pm_staging := dropUndeliverableBatch (mc_staging cfg) PRIO_CRITICAL seqs i (pm_staging m)\<rparr>)"
    "gone n (m\<lparr>pm_staging := onPsdRequestAcknowledged (mc_staging cfg) PRIO_CRITICAL seqs g i (pm_staging m)\<rparr>)"
proof -
  have inv: "staging_inv (mc_staging cfg) (pm_staging m)" using assms(1) by (simp add: manager_ok_def)
  have lt: "n < sg_enqueueSeq (pm_staging m)"
    using inv heads_front [OF assms(2)] critical_front_seqs [of m] by (auto simp: staging_inv_def lane_seqs_def)
  have g: "gone n (m\<lparr>pm_staging := commitQueuedEvents (mc_staging cfg) PRIO_CRITICAL seqs sg\<rparr>)"
    if "staging_inv (mc_staging cfg) sg" "sg_enqueueSeq sg = sg_enqueueSeq (pm_staging m)" for sg
    using commit_gone [of "mc_staging cfg" "m\<lparr>pm_staging := sg\<rparr>" n seqs] that assms(3) lt by simp
  have "staging_inv (mc_staging cfg) ((pm_staging m)\<lparr>sg_overflow := noteStampDelivered g (sg_overflow (pm_staging m))\<rparr>)"
    using inv assms(4)
    by (auto simp: staging_inv_def lane_seqs_def noteStampDelivered_def overflow_generation_def)
  then show "gone n (m\<lparr>pm_staging := dropUndeliverableBatch (mc_staging cfg) PRIO_CRITICAL seqs i (pm_staging m)\<rparr>)"
    "gone n (m\<lparr>pm_staging := onPsdRequestAcknowledged (mc_staging cfg) PRIO_CRITICAL seqs g i (pm_staging m)\<rparr>)"
    using assms(3) inv by (auto simp: dropUndeliverableBatch_def onPsdRequestAcknowledged_def intro!: g)
qed

lemma operational_send_keeps:
  fixes cfg env ok
  assumes "front_kept (sx_manager s) (ps_manager st)"
  defines "s' \<equiv> after_send cfg PRIO_OPERATIONAL env ok st s"
  shows "front_kept (sx_manager s) (sx_manager s')" "sx_retained s' PRIO_CRITICAL = sx_retained s PRIO_CRITICAL"
proof -
  let ?m = "ps_manager st"
  have k: "front_kept ?m (?m\<lparr>pm_staging := commitQueuedEvents (mc_staging cfg) PRIO_OPERATIONAL seqs sg\<rparr>)"
    if "sg_critical sg = sg_critical (pm_staging ?m)" "sg_enqueueSeq sg = sg_enqueueSeq (pm_staging ?m)"
      "ov_generation (sg_overflow sg) = ov_generation (sg_overflow (pm_staging ?m))" for seqs sg
    using commit_operational_kept [of "?m\<lparr>pm_staging := sg\<rparr>" "mc_staging cfg" seqs] that
    by (simp add: front_kept_def gone_def overflow_generation_def)
  have "front_kept ?m (sx_manager s')"
    by (auto simp: s'_def after_send_def Let_def dropUndeliverableBatch_def onPsdRequestAcknowledged_def
        noteStampDelivered_def front_kept_staging intro!: k)
  with assms(1) show "front_kept (sx_manager s) (sx_manager s')" by (rule front_kept_trans)
  show "sx_retained s' PRIO_CRITICAL = sx_retained s PRIO_CRITICAL"
    by (simp add: s'_def after_send_def Let_def)
qed

text \<open>A failed critical send that keeps its batch uses up one of the sends left.\<close>

lemma retained_sends_left:
  assumes "tk_seq ticket = critical_front (sx_manager s)" "tk_seq ticket \<noteq> []"
    "tk_attempts (sx_retained s PRIO_CRITICAL) < 3" "tk_attempts (resume_ticket (sx_retained s PRIO_CRITICAL) ticket) < 3"
    "sx_retained s' PRIO_CRITICAL = t" "tk_seq t = tk_seq ticket"
    "tk_attempts t = tk_attempts (resume_ticket (sx_retained s PRIO_CRITICAL) ticket)"
    "front_kept (sx_manager s) (sx_manager s')"
  shows "sends_left s' < sends_left s"
proof -
  let ?r = "sx_retained s PRIO_CRITICAL"
  let ?l = "length (tk_seq ticket)"
  have l: "?l \<le> 8" "0 < ?l" using assms(1,2) by (auto simp: critical_front_def pss_enum)
  have s': "sends_left s' = 3 * (8 - ?l) + (3 - unat (tk_attempts t))"
    using front_kept_front [OF assms(8)] assms(1,2,5,6) by (simp add: sends_left_def Let_def pss_enum)
  have a: "unat (tk_attempts ?r) < 3" using assms(3) by (simp add: word_less_nat_alt)
  consider "tk_seq ?r = tk_seq ticket" | "tk_seq ?r \<noteq> []" "strict_prefix (tk_seq ?r) (tk_seq ticket)"
    | "tk_seq ?r = [] \<or> \<not> prefix (tk_seq ?r) (tk_seq ticket)"
    by (auto simp: strict_prefix_def)
  then show ?thesis
  proof cases
    case 1
    then have "tk_attempts t = tk_attempts ?r + 1" using assms(2,7) by (simp add: resume_ticket_def psdBatchIdentityMatches_def)
    moreover have "unat (tk_attempts ?r + 1) = unat (tk_attempts ?r) + 1"
      using a by (simp add: unat_word_ariths)
    ultimately have "unat (tk_attempts t) = unat (tk_attempts ?r) + 1" by simp
    moreover have "sends_left s = 3 * (8 - ?l) + (3 - unat (tk_attempts ?r))"
      using 1 assms(1,2) by (simp add: sends_left_def Let_def pss_enum)
    ultimately show ?thesis using s' a by simp
  next
    case 2
    then have "length (tk_seq ?r) < ?l" by (simp add: prefix_length_less)
    moreover have "sends_left s = 3 * (8 - length (tk_seq ?r)) + (3 - unat (tk_attempts ?r))"
      using 2 assms(1) by (simp add: sends_left_def Let_def pss_enum strict_prefix_def)
    ultimately show ?thesis using s' a l by linarith
  next
    case 3
    then have "tk_attempts t = 1" using assms(2,7) by (auto simp: resume_ticket_def psdBatchIdentityMatches_def)
    then have "unat (tk_attempts t) = 1" by simp
    moreover have "sends_left s = 24" using 3 assms(1) by (auto simp: sends_left_def Let_def)
    ultimately show ?thesis using s' l by arith
  qed
qed

lemma critical_send_progress:
  assumes "sender_ok cfg s" "env_ok env" "heads n (sx_manager s)"
  defines "s' \<equiv> send_batch cfg PRIO_CRITICAL env s"
  shows "gone n (sx_manager s') \<or> heads n (sx_manager s') \<and> sends_left s' < sends_left s"
proof -
  have front: "n \<in> set (critical_front (sx_manager s))" "critical_front (sx_manager s) \<noteq> []"
    using heads_front [OF assms(3)] by simp_all
  then have "buildDecisionRequestFromQueuedEvents cfg (pe_rpc env 0) PRIO_CRITICAL (sx_manager s) \<noteq> None"
    by (simp add: buildDecisionRequestFromQueuedEvents_def Let_def lane_def critical_front_def)
  then obtain request ticket where
    b: "buildDecisionRequestFromQueuedEvents cfg (pe_rpc env 0) PRIO_CRITICAL (sx_manager s) = Some (request, ticket)"
    by auto
  define ok where "ok = fst (sent cfg PRIO_CRITICAL env s request ticket)"
  define st where "st = snd (sent cfg PRIO_CRITICAL env s request ticket)"
  have seq: "tk_seq ticket = critical_front (sx_manager s)"
    using build_ok(4) [OF sender_ok_parts [OF assms(1)] b] by (simp add: critical_front_def lane_def)
  have st: "send_ok cfg st" "front_kept (sx_manager s) (ps_manager st)" "tk_seq (ps_ticket st) = critical_front (sx_manager s)"
    "tk_attempts (ps_ticket st) = tk_attempts (resume_ticket (sx_retained s PRIO_CRITICAL) ticket)"
    unfolding st_def using sent_ok [OF assms(1,2) b] sent_front sent_ticket seq by auto
  have m: "manager_ok cfg (ps_manager st)" "heads n (ps_manager st)"
    "(if tk_stamped (ps_ticket st) then tk_stampGeneration (ps_ticket st) else 0) \<le> overflow_generation (ps_manager st)"
    using st(1) front_kept_heads [OF st(2) assms(3)] by (auto simp: send_ok_def ticket_ok_def)
  let ?a = "after_send cfg PRIO_CRITICAL env ok st s"
  have eq: "sx_manager s' = sx_manager ?a" "sx_retained s' = sx_retained ?a"
    unfolding s'_def ok_def st_def using send_batch_Some(1,2) [OF b] by simp_all
  show ?thesis
  proof (cases "ok \<or> tk_attempts (ps_ticket st) \<ge> NVPSS_PSD_BATCH_MAX_DELIVERY_ATTEMPTS")
    case True
    have "gone n (sx_manager ?a)"
      using True removed_gone(1) [OF m(1,2) _ m(3)] removed_gone(2) [OF m(1,2) _ m(3)] front(1) st(3)
      by (auto simp: after_send_def Let_def)
    then show ?thesis by (simp add: eq)
  next
    case False
    then have "sx_manager ?a = ps_manager st"
      "sx_retained ?a PRIO_CRITICAL = (ps_ticket st)\<lparr>tk_requestId := dr_requestId (ps_request st)\<rparr>"
      by (simp_all add: after_send_def Let_def)
    then have "sends_left s' < sends_left s"
      using assms(1) False st front seq eq
      by (intro retained_sends_left [of ticket s s' "sx_retained s' PRIO_CRITICAL"]) (auto simp: sender_ok_def NVPSS_PSD_BATCH_MAX_DELIVERY_ATTEMPTS_def)
    then show ?thesis using \<open>sx_manager ?a = ps_manager st\<close> m(2) eq(1) by simp
  qed
qed

lemma operational_send_progress:
  fixes cfg env
  assumes "heads n (sx_manager s)"
  defines "s' \<equiv> send_batch cfg PRIO_OPERATIONAL env s"
  shows "heads n (sx_manager s') \<and> sends_left s' \<le> sends_left s" "front_kept (sx_manager s) (sx_manager s')"
    "sx_retained s' PRIO_CRITICAL = sx_retained s PRIO_CRITICAL"
proof -
  have "front_kept (sx_manager s) (sx_manager s') \<and> sx_retained s' PRIO_CRITICAL = sx_retained s PRIO_CRITICAL"
  proof (cases "buildDecisionRequestFromQueuedEvents cfg (pe_rpc env 0) PRIO_OPERATIONAL (sx_manager s)")
    case (Some rt)
    then show ?thesis
      using operational_send_keeps [OF sent_front] send_batch_Some(1,2) [of cfg env PRIO_OPERATIONAL s "fst rt" "snd rt"]
      by (simp add: s'_def)
  qed (simp add: s'_def send_batch_None front_kept_staging)
  then have k: "front_kept (sx_manager s) (sx_manager s')" "sx_retained s' PRIO_CRITICAL = sx_retained s PRIO_CRITICAL"
    by simp_all
  show "heads n (sx_manager s') \<and> sends_left s' \<le> sends_left s"
    using front_kept_heads [OF k(1) assms(1)] sends_left_mono [OF k] by simp
  show "front_kept (sx_manager s) (sx_manager s')" "sx_retained s' PRIO_CRITICAL = sx_retained s PRIO_CRITICAL"
    by (rule k)+
qed

lemma commit_keeps_gone:
  assumes "gone n (m\<lparr>pm_staging := sg\<rparr>)"
  shows "gone n (m\<lparr>pm_staging := commitQueuedEvents cfg p seqs sg\<rparr>)"
proof (cases "seqs = []")
  case False
  define s where "s = (case p of
      PRIO_CRITICAL \<Rightarrow> sg\<lparr>sg_critical := fold remove_seq seqs (sg_critical sg)\<rparr>
    | PRIO_OPERATIONAL \<Rightarrow> sg\<lparr>sg_operational := fold remove_seq seqs (sg_operational sg)\<rparr>)"
  have sub: "set (sg_critical s) \<subseteq> set (sg_critical sg)" "sg_enqueueSeq s = sg_enqueueSeq sg"
    using remove_seq_subset [of seqs "sg_critical sg"] by (cases p; simp add: s_def)+
  have eq: "commitQueuedEvents cfg p seqs sg = maybeClearCriticalLaneOverflow cfg s"
    using False by (simp add: commitQueuedEvents_def s_def)
  have n: "n < sg_enqueueSeq s" "n \<notin> qe_seq ` set (sg_critical s)"
    using assms sub by (auto simp: gone_def)
  from maybe_clear_kept [of s cfg] have "sg_enqueueSeq s \<le> sg_enqueueSeq (maybeClearCriticalLaneOverflow cfg s)"
    "n \<in> qe_seq ` set (sg_critical (maybeClearCriticalLaneOverflow cfg s)) \<longrightarrow> n \<in> qe_seq ` set (sg_critical s)"
    using n(1) by blast+
  then show ?thesis using n unfolding gone_def eq by auto
qed (use assms in \<open>simp add: commitQueuedEvents_def\<close>)

lemma send_batch_gone:
  assumes "gone n (sx_manager s)"
  shows "gone n (sx_manager (send_batch cfg p env s))"
proof (cases "buildDecisionRequestFromQueuedEvents cfg (pe_rpc env 0) p (sx_manager s)")
  case (Some rt)
  have "gone n (sx_manager (after_send cfg p env ok st s))" if "gone n (ps_manager st)" for ok st
  proof -
    have "gone n ((ps_manager st)\<lparr>pm_staging := sg\<rparr>)"
      if "sg_critical sg = sg_critical (pm_staging (ps_manager st))" "sg_enqueueSeq sg = sg_enqueueSeq (pm_staging (ps_manager st))" for sg
      using that \<open>gone n (ps_manager st)\<close> by (simp add: gone_def)
    then show ?thesis
      using that by (auto simp: after_send_def Let_def dropUndeliverableBatch_def onPsdRequestAcknowledged_def
          intro!: commit_keeps_gone)
  qed
  moreover have "gone n (ps_manager (snd (sent cfg p env s (fst rt) (snd rt))))"
    using sent_front [of s cfg p env "fst rt" "snd rt"] assms by (simp add: front_kept_def)
  ultimately show ?thesis
    using send_batch_Some(1) [of cfg env p s "fst rt" "snd rt"] Some by simp
qed (simp add: send_batch_None assms)

lemma pass_gone: "gone n (sx_manager s) \<Longrightarrow> gone n (sx_manager (managePsdSender_pass cfg env s))"
  using advances_front [OF before_send_fields(3), of s cfg env] send_batch_gone
  by (auto simp: managePsdSender_pass_def Let_def front_kept_def split: option.split)

lemma pass_progress:
  assumes "sender_ok cfg s" "env_ok env" "heads n (sx_manager s)"
  defines "b \<equiv> before_send cfg env s" and "s' \<equiv> managePsdSender_pass cfg env s"
  shows "gone n (sx_manager s') \<or> heads n (sx_manager s') \<and>
    sends_left s' + (if due_priority (pe_nowNs env) b = Some PRIO_CRITICAL then 1 else 0) \<le> sends_left s"
proof -
  have k: "front_kept (sx_manager s) (sx_manager b)" "sx_retained b = sx_retained s"
    unfolding b_def using before_send_fields advances_front by auto
  have h: "heads n (sx_manager b)" by (rule front_kept_heads [OF k(1) assms(3)])
  have le: "sends_left b \<le> sends_left s" using sends_left_mono [OF k(1)] k(2) by simp
  have ok: "sender_ok cfg b" unfolding b_def by (rule before_send_ok [OF assms(1,2)])
  show ?thesis
  proof (cases "due_priority (pe_nowNs env) b")
    case None
    then show ?thesis using h le by (simp add: s'_def managePsdSender_pass_def b_def [symmetric])
  next
    case (Some p)
    then have s': "s' = send_batch cfg p env b" by (simp add: s'_def managePsdSender_pass_def b_def [symmetric])
    show ?thesis
      using critical_send_progress [OF ok assms(2) h] operational_send_progress(1) [OF h, of cfg env] le Some s'
      by (cases p) auto
  qed
qed

lemma run_progress:
  assumes "sender_ok cfg s" "\<And>env. env \<in> set envs \<Longrightarrow> env_ok env" "heads n (sx_manager s)"
  shows "gone n (sx_manager (sender_run cfg envs s)) \<or>
    heads n (sx_manager (sender_run cfg envs s)) \<and>
    sends_left (sender_run cfg envs s) + critical_sends cfg envs s \<le> sends_left s"
  using assms
proof (induction envs arbitrary: s)
  case (Cons env envs)
  let ?s = "managePsdSender_pass cfg env s"
  have run: "sender_run cfg (env # envs) s = sender_run cfg envs ?s" by (simp add: sender_run_def)
  have stays: "gone n (sx_manager (sender_run cfg envs s))" if "gone n (sx_manager s)" for s
    using that unfolding sender_run_def by (induction envs arbitrary: s) (auto intro: pass_gone)
  have ok: "sender_ok cfg ?s" using pass_ok Cons.prems(1,2) by simp
  from pass_progress [OF Cons.prems(1) _ Cons.prems(3), of env] Cons.prems(2)
  consider "gone n (sx_manager ?s)"
    | "heads n (sx_manager ?s)" "sends_left ?s +
        (if due_priority (pe_nowNs env) (before_send cfg env s) = Some PRIO_CRITICAL then 1 else 0) \<le> sends_left s"
    by auto
  then show ?case
  proof cases
    case 1
    then show ?thesis using stays run by simp
  next
    case 2
    then show ?thesis using Cons.IH [OF ok _ 2(1)] Cons.prems(2) run by auto
  qed
qed (simp add: sender_run_def)

end
