(* ===== verification/Pss_Sender_Safety.thy ===== *)
theory Pss_Sender_Safety
  imports Pss_Sender
begin

text \<open>
  What the sender of the PSS daemon guarantees: over any run of its loop, with any activity of the other
  threads and any behaviour of the link, what it transmits is accepted by the gateway's validator, retries
  keep their identity, the head of the critical lane is not blocked for ever, and the loop does not spin.
\<close>

section \<open>Examples\<close>

definition example_env :: "u64 \<Rightarrow> (nat \<Rightarrow> LinkOutcome) \<Rightarrow> PassEnv" where
  "example_env nowNs link =
     \<lparr>pe_before = [], pe_nowNs = nowNs, pe_failNs = nowNs, pe_postSendNs = nowNs, pe_rpc = (\<lambda>_. None),
      pe_link = link, pe_during = (\<lambda>_. [])\<rparr>"

definition link_down :: "nat \<Rightarrow> LinkOutcome" where
  "link_down attempt = Send_failed RESPONSE_TIMEOUT"

text \<open>The link loses one request and answers the next.\<close>

definition link_back :: "nat \<Rightarrow> LinkOutcome" where
  "link_back attempt = (if attempt = 1 then Send_failed RESPONSE_TIMEOUT else Acknowledged_by_PSD)"

definition example_sender :: PsdSender where
  "example_sender = sender_initial example_manager_cfg 1 (manager_initial 1)"

lemma example_env_ok: "nowNs \<noteq> 0 \<Longrightarrow> env_ok (example_env nowNs link)"
  by (simp add: env_ok_def example_env_def)

lemma example_cfg_simps [simp]:
  "unat (mc_retryBudget example_manager_cfg) = 3" "status_noop_interval_ns example_manager_cfg = 5000000000"
  "unat (sc_operationalDepth (mc_staging example_manager_cfg)) = 32"
  by (simp_all add: example_manager_cfg_def manager_cfg_def Let_def NvPSSDeliveryRetryWindowMsIsValid_def
      status_noop_interval_ns_def NvPSSStatusNoopIntervalMsIsValid_def staging_cfg_def clamp_depth_def pss_fs
      NVPSS_PSS_TO_PSD_RETRY_BUDGET_DEFAULT_def)

lemmas pass_defs = managePsdSender_pass_def before_send_def status_noop_due_def due_priority_def producers_def
  example_env_def sender_initial_def manager_initial_def staging_initial_def overflow_initial_def
  hasQueuedEvents_def NvPSSPsdSelectDuePriority_def NvPSSPsdReleaseGateIsDue_def NvPSSPsdUpdateReleaseGate_def
  NvPSSPsdForceReleaseGateDue_def NvPSSPsdSaturatingAddNs_def enqueueStatusNoopEvent_def enqueue_operational_def
  insertOperationalOrdered_def Let_def case_prod_beta

lemmas send_defs = send_batch_def buildDecisionRequestFromQueuedEvents_def lane_def resume_ticket_def
  psdBatchIdentityMatches_def empty_ticket_def sendDecisionRequestWithRetry_def prepare_attempt_def assign_id_def
  stamp_request_def seal_and_send_def makePssStatusForDecisionRequest_def stampGeneration_def
  decisionRequestOperationalMode_def NvPSSDeliveryOperationalMode_def after_send_def markDeliveryFailure_def
  markDeliveryRecovered_def

definition example_status_pass :: "(nat \<Rightarrow> LinkOutcome) \<Rightarrow> PsdSender" where
  "example_status_pass link = managePsdSender_pass example_manager_cfg (example_env 5000000001 link) example_sender"


lemma example_batch:
  "lane PRIO_OPERATIONAL (pm_staging (sx_manager (before_send example_manager_cfg (example_env 5000000001 link) example_sender))) =
     [\<lparr>qe_clientId = 0, qe_seq = 0, qe_event = NvPSSBuildStatusNoopFusedEvent 0 5000000001 0 0,
       qe_queuedTrust = no_distrust, qe_evictable = False\<rparr>]"
  by (simp add: pass_defs example_sender_def lane_def)

section \<open>Runs\<close>

lemma run_from_start_ok:
  "\<forall>env \<in> set envs. env_ok env \<Longrightarrow> sender_ok cfg (sender_run cfg envs (sender_initial cfg nowNs (manager_initial seed)))"
  by (intro sender_run_ok sender_initial_ok manager_initial_ok) blast

lemma sends_left_pos: "sender_ok cfg s \<Longrightarrow> 0 < sends_left s"
  by (auto simp: sends_left_def Let_def sender_ok_def NVPSS_PSD_BATCH_MAX_DELIVERY_ATTEMPTS_def word_less_nat_alt)

lemma prepare_state [simp]: "pm_deliveryState (ps_manager (prepare_attempt rpc st)) = pm_deliveryState (ps_manager st)"
  by (simp add: prepare_attempt_def seal_and_send_def stamp_request_def assign_id_def Let_def case_prod_beta)

lemma producers_state [simp]: "pm_deliveryState (producers cfg ops m) = pm_deliveryState m"
  using producers_advance [of m cfg ops] by (simp add: advances_def)

lemma prepare_mode:
  "tk_stamped (ps_ticket st) \<Longrightarrow> dr_pssStatus (ps_request (prepare_attempt rpc st)) = tk_stamp (ps_ticket st)"
  by (simp add: prepare_attempt_def seal_and_send_def stamp_request_def Let_def)

lemma retry_acknowledged_state:
  assumes "tk_stamped (ps_ticket st)" "ss_mode (tk_stamp (ps_ticket st)) \<noteq> ERROR" "pe_link env k = Acknowledged_by_PSD"
  shows "pm_deliveryState (ps_manager (snd (send_attempts cfg env k (Suc left) reason st))) =
    (if pm_deliveryState (ps_manager st) = DELIVERY_ERROR_ACTIVE then DELIVERY_ERROR_ACTIVE else DELIVERY_NORMAL)"
    "fst (send_attempts cfg env k (Suc left) reason st)"
  using assms by (simp_all add: Let_def markDeliveryRecovered_def prepare_mode)

lemma failed_attempt:
  "pe_link env k = Send_failed f \<Longrightarrow> 0 < left \<Longrightarrow>
   send_attempts cfg env k (Suc left) reason st = send_attempts cfg env (Suc k) left f
     ((attempt_once cfg env k st)\<lparr>ps_manager :=
        (ps_manager (attempt_once cfg env k st))\<lparr>pm_deliveryState := DELIVERY_RETRYING\<rparr>\<rparr>)"
  by (simp add: Let_def attempt_once_def)

lemma some_transmission: "ps_wire (snd (send_attempts cfg env k (Suc left) reason st)) \<noteq> []"
proof -
  let ?a = "attempt_once cfg env k st"
  have step: "ps_wire (attempt_once cfg env j st') \<noteq> []" for j st'
    by (simp add: attempt_once_def prepare_attempt_def seal_and_send_def Let_def)
  have "ps_wire (snd (send_attempts cfg env j n r st')) \<noteq> []" if "ps_wire st' \<noteq> []" for j n r st'
    by (rule send_attempts_invariant) (simp_all add: step that)
  with step [of k st] show ?thesis
    by (simp add: Let_def attempt_once_def [symmetric] split: LinkOutcome.split)
qed

section \<open>Properties\<close>


text \<open>C8. No entry blocks the critical lane. From any reachable state, while the entry that heads the lane is still
  in it, at most 23 critical sends have been made: then it has been acknowledged or given up, although its
  batch may grow and every growth starts a new count of attempts.\<close>

theorem critical_head_leaves:
  assumes "\<forall>env \<in> set (envs @ later). env_ok env"
    and "s = sender_run cfg envs (sender_initial cfg nowNs (manager_initial seed))"
    and "sg_critical (pm_staging (sx_manager s)) = e # rest"
    and "qe_seq e \<in> qe_seq ` set (sg_critical (pm_staging (sx_manager (sender_run cfg later s))))"
  shows "critical_sends cfg later s \<le> 23"
proof -
  have ok: "sender_ok cfg s" unfolding assms(2) using assms(1) by (intro run_from_start_ok) auto
  have later: "\<And>env. env \<in> set later \<Longrightarrow> env_ok env" using assms(1) by auto
  have "heads (qe_seq e) (sx_manager s)" by (simp add: heads_def assms(3))
  from run_progress [OF ok later this] assms(4)
  have "sends_left (sender_run cfg later s) + critical_sends cfg later s \<le> sends_left s" by (auto simp: gone_def)
  moreover have "0 < sends_left (sender_run cfg later s)" by (intro sends_left_pos [of cfg] sender_run_ok ok later)
  ultimately show ?thesis using sends_left_le [of s] by linarith
qed

text \<open>C39. A delivery error can be forgotten before anyone is told. With the error active, the retry of a request that
  first went out with a non-error status keeps the error active when the first attempt is acknowledged, but
  drops it when the first attempt fails and the second is acknowledged: no transmitted request said ERROR.\<close>

theorem delivery_error_forgotten:
  assumes "2 \<le> unat (mc_retryBudget cfg)" "pm_deliveryState m = DELIVERY_ERROR_ACTIVE"
    and "tk_stamped t" "ss_mode (tk_stamp t) \<noteq> ERROR"
    and "pe_link env 1 = link" "pe_link env 2 = Acknowledged_by_PSD"
    and "res = sendDecisionRequestWithRetry cfg env request t m"
  shows "fst res \<and> (\<forall>r \<in> set (ps_wire (snd res)). ss_mode (dr_pssStatus r) \<noteq> ERROR) \<and>
    pm_deliveryState (ps_manager (snd res)) =
      (if link = Acknowledged_by_PSD then DELIVERY_ERROR_ACTIVE else DELIVERY_NORMAL)"
proof -
  obtain left where left: "unat (mc_retryBudget cfg) = Suc (Suc left)"
    using assms(1) by (metis Suc_le_D numeral_2_eq_2 Suc_le_mono)
  let ?st = "\<lparr>ps_request = request, ps_ticket = t, ps_manager = m, ps_wire = []\<rparr>"
  have res: "res = send_attempts cfg env 1 (Suc (Suc left)) REASON_NONE ?st"
    by (simp add: assms(7) sendDecisionRequestWithRetry_def left)
  have "one_identity 0 t ?st" by (simp add: one_identity_def)
  then have "one_identity 0 t (snd res)" unfolding res by (rule send_attempts_identity)
  then have wire: "\<forall>r \<in> set (ps_wire (snd res)). ss_mode (dr_pssStatus r) \<noteq> ERROR"
    using assms(3,4) by (auto simp: one_identity_def)
  show ?thesis
  proof (cases link)
    case Acknowledged_by_PSD
    then show ?thesis
      using retry_acknowledged_state [of ?st env 1] assms(2-5) wire unfolding res by simp
  next
    case (Send_failed reason)
    let ?a = "attempt_once cfg env 1 ?st"
    let ?st' = "?a\<lparr>ps_manager := (ps_manager ?a)\<lparr>pm_deliveryState := DELIVERY_RETRYING\<rparr>\<rparr>"
    have step: "res = send_attempts cfg env 2 (Suc left) reason ?st'"
      unfolding res using failed_attempt [of env 1 reason "Suc left"] Send_failed assms(5)
      by (simp only: numeral_2_eq_2 One_nat_def zero_less_Suc)
    have "one_identity 0 t ?a" by (intro attempt_once_identity) (simp add: one_identity_def)
    then have "tk_stamped (ps_ticket ?st')" "ss_mode (tk_stamp (ps_ticket ?st')) \<noteq> ERROR"
      using assms(3,4) by (auto simp: one_identity_def)
    from retry_acknowledged_state [OF this assms(6)] show ?thesis
      using wire Send_failed unfolding step by simp
  qed
qed

lemma saturating_add_gt:
  assumes "0 < delta" "base < 0xFFFFFFFFFFFFFFFF"
  shows "base < NvPSSPsdSaturatingAddNs base delta"
proof (cases "0xFFFFFFFFFFFFFFFF - base < delta")
  case False
  have "unat (0xFFFFFFFFFFFFFFFF - base) = 0xFFFFFFFFFFFFFFFF - unat base"
    using assms(2) by (subst unat_sub) (simp_all add: order_less_imp_le)
  then have "unat base + unat delta < 2 ^ 64"
    using False assms(2) by (simp add: word_le_nat_alt not_less word_less_nat_alt)
  then have "unat (base + delta) = unat base + unat delta" by (simp add: unat_word_ariths)
  then show ?thesis
    using False assms(1) by (simp add: NvPSSPsdSaturatingAddNs_def word_less_nat_alt)
qed (simp add: NvPSSPsdSaturatingAddNs_def assms(2))

lemma status_deadline_ahead:
  assumes "0 < status_noop_interval_ns cfg" "nowNs < 0xFFFFFFFFFFFFFFFF"
  shows "nowNs < sx_nextStatusNoopNs (status_noop_due cfg nowNs s)"
  using assms
  by (auto simp: status_noop_due_def Let_def case_prod_beta NvPSSPsdUpdateStatusNoopDeadline_def pss_fs
      intro!: saturating_add_gt)

text \<open>C17. The sender loop never spins: in a pass that has nothing to send, the time it then waits for is in the
  future, with the send backoff in effect or not, whatever is queued and whatever the release gate says.\<close>

theorem sender_loop_waits:
  assumes "due_priority (pe_nowNs env) (before_send cfg env s) = None"
    and "0 < status_noop_interval_ns cfg" "pe_nowNs env < 0xFFFFFFFFFFFFFFFF"
  shows "pe_nowNs env < next_wake (pe_nowNs env) (managePsdSender_pass cfg env s)"
proof -
  let ?b = "before_send cfg env s" and ?now = "pe_nowNs env"
  have pass: "managePsdSender_pass cfg env s = ?b" by (simp add: managePsdSender_pass_def Let_def assms(1))
  have noop: "?now < sx_nextStatusNoopNs ?b"
    using status_deadline_ahead [OF assms(2,3)] by (simp add: before_send_def Let_def)
  have gate: "?now < rg_deadlineNs (sx_operationalGate ?b)"
    if "\<not> ?now < sx_sendRetryNotBeforeNs ?b" "hasQueuedEvents PRIO_OPERATIONAL (pm_staging (sx_manager ?b))"
      "rg_armed (sx_operationalGate ?b)"
    using assms(1) that
    by (auto simp: due_priority_def NvPSSPsdSelectDuePriority_def NvPSSPsdReleaseGateIsDue_def split: if_splits)
  show ?thesis
    unfolding pass next_wake_def Let_def using noop gate assms(3) by (auto simp: min_def)
qed

text \<open>C16. A retry keeps its identity. All transmissions of one send carry one request id and one status; when the
  batch is the one that failed before, they are those of its first transmission; and when the send fails and
  the batch is kept, the kept ticket names them for the next retry.\<close>

theorem retry_keeps_identity:
  assumes "0 < unat (mc_retryBudget cfg)" "lane p (pm_staging (sx_manager s)) \<noteq> []"
    and "front = map qe_seq (take MAX_SENSORS_DATA_SUMMARY_SIZE (lane p (pm_staging (sx_manager s))))"
    and "old = sx_retained s p" "s' = send_batch cfg p env s"
  shows "\<exists>i status.
    (\<forall>r \<in> set (drop (length (sx_wire s)) (sx_wire s')). dr_requestId r = i \<and> dr_pssStatus r = status) \<and>
    (tk_seq old = front \<and> tk_stamped old \<and> tk_requestId old \<noteq> 0 \<longrightarrow> i = tk_requestId old \<and> status = tk_stamp old) \<and>
    (tk_seq (sx_retained s' p) \<noteq> [] \<longrightarrow> tk_seq (sx_retained s' p) = front \<and>
       tk_requestId (sx_retained s' p) = i \<and> i \<noteq> 0 \<and> tk_stamped (sx_retained s' p) \<and> tk_stamp (sx_retained s' p) = status)"
proof -
  have front: "front \<noteq> []" using assms(2,3) by (simp add: pss_enum)
  then obtain request ticket where
    b: "buildDecisionRequestFromQueuedEvents cfg (pe_rpc env 0) p (sx_manager s) = Some (request, ticket)"
    and t: "tk_seq ticket = front" "\<not> tk_stamped ticket"
    using assms(3) by (auto simp: buildDecisionRequestFromQueuedEvents_def Let_def empty_ticket_def)
  define ok st where "ok = fst (sent cfg p env s request ticket)" and "st = snd (sent cfg p env s request ticket)"
  let ?t = "resume_ticket old ticket"
  obtain left where left: "unat (mc_retryBudget cfg) = Suc left" using assms(1) gr0_conv_Suc by auto
  let ?request = "if tk_requestId ?t \<noteq> 0 then NvPSSAssignSerializedDecisionRequestId (tk_requestId ?t) request else request"
  have st: "st = snd (send_attempts cfg env 1 (Suc left) REASON_NONE
      \<lparr>ps_request = ?request, ps_ticket = ?t, ps_manager = producers cfg (pe_during env 0) (sx_manager s), ps_wire = []\<rparr>)"
    by (simp add: st_def sent_def Let_def sendDecisionRequestWithRetry_def assms(4) left del: send_attempts.simps)
  have id: "one_identity (tk_requestId ?t) ?t st"
    unfolding st by (rule send_attempts_identity) (simp add: one_identity_def)
  have "ps_wire st \<noteq> []" unfolding st by (rule some_transmission)
  with id have sent_id: "tk_stamped (ps_ticket st)" "dr_requestId (ps_request st) \<noteq> 0"
    "\<And>r. r \<in> set (ps_wire st) \<Longrightarrow> dr_requestId r = dr_requestId (ps_request st) \<and> dr_pssStatus r = tk_stamp (ps_ticket st)"
    by (auto simp: one_identity_def)
  have seq: "tk_seq (ps_ticket st) = front" by (simp add: st_def sent_ticket t(1))
  let ?a = "after_send cfg p env ok st s"
  have s': "sx_wire s' = sx_wire ?a" "sx_retained s' = sx_retained ?a"
    using send_batch_Some(2,3) [OF b] assms(5) by (simp_all add: ok_def st_def)
  have a: "sx_wire ?a = sx_wire s @ ps_wire st"
    "tk_seq (sx_retained ?a p) \<noteq> [] \<longrightarrow> sx_retained ?a p = (ps_ticket st)\<lparr>tk_requestId := dr_requestId (ps_request st)\<rparr>"
    by (auto simp: after_send_def Let_def empty_ticket_def)
  have "i = tk_requestId old \<and> status = tk_stamp old"
    if "tk_seq old = front" "tk_stamped old" "tk_requestId old \<noteq> 0"
      "i = dr_requestId (ps_request st)" "status = tk_stamp (ps_ticket st)" for i status
    using that id t front by (auto simp: one_identity_def resume_ticket_def psdBatchIdentityMatches_def)
  then show ?thesis
    using s' a sent_id seq
    by (intro exI [of _ "dr_requestId (ps_request st)"] exI [of _ "tk_stamp (ps_ticket st)"]) auto
qed

section \<open>The properties at work\<close>



theorem delivery_error_forgotten_witness:
  "pm_deliveryState (ps_manager (snd (sendDecisionRequestWithRetry example_manager_cfg (example_env 1 link_back) zero_request
     (empty_ticket\<lparr>tk_stamped := True\<rparr>) ((manager_initial 1)\<lparr>pm_deliveryState := DELIVERY_ERROR_ACTIVE\<rparr>)))) = DELIVERY_NORMAL"
  using delivery_error_forgotten [of example_manager_cfg "(manager_initial 1)\<lparr>pm_deliveryState := DELIVERY_ERROR_ACTIVE\<rparr>"
      "empty_ticket\<lparr>tk_stamped := True\<rparr>" "example_env 1 link_back" "Send_failed RESPONSE_TIMEOUT", OF _ _ _ _ _ _ refl]
  by (simp add: empty_ticket_def zero_status_def example_env_def link_back_def pss_enum)

theorem sender_loop_waits_witness:
  "2 < next_wake 2 (managePsdSender_pass example_manager_cfg (example_env 2 link_down) example_sender)"
proof -
  have "due_priority (pe_nowNs (example_env 2 link_down))
      (before_send example_manager_cfg (example_env 2 link_down) example_sender) = None"
    by (simp add: pass_defs example_sender_def)
  from sender_loop_waits [OF this] show ?thesis by (simp add: example_env_def)
qed

definition example_staged :: PsdSender where
  "example_staged = before_send example_manager_cfg (example_env 5000000001 link_down) example_sender"

theorem retry_keeps_identity_witness:
  "\<exists>i. \<forall>r \<in> set (drop 0 (sx_wire (send_batch example_manager_cfg PRIO_OPERATIONAL (example_env 1 link_down) example_staged))).
     dr_requestId r = i"
proof -
  have "lane PRIO_OPERATIONAL (pm_staging (sx_manager example_staged)) \<noteq> []" "sx_wire example_staged = []"
    unfolding example_staged_def using example_batch [of link_down]
    by (simp_all add: before_send_fields example_sender_def sender_initial_def)
  from retry_keeps_identity [OF _ this(1) refl refl refl, of example_manager_cfg "example_env 1 link_down"] this(2)
  show ?thesis by auto
qed

definition example_verdict :: SafetyEvent where
  "example_verdict = make_verdict 7 AI_PIPELINE_INVALID 5 CAUSE_NONE 0 []"

definition example_fault_env :: PassEnv where
  "example_fault_env = (example_env 2 link_down)
     \<lparr>pe_before := [TrustReported 1 4 CLIENT_PERCEPTION_MONITOR example_verdict, FusionTick None 7 None []]\<rparr>"

lemma example_fault_env_ok: "env_ok example_fault_env"
proof -
  have "client_event_ok example_verdict"
    unfolding example_verdict_def by (rule make_verdict_ok) (simp_all add: pss_enum)
  then have "validateSafetyEvent (Some example_verdict) = PSS_VALID"
    unfolding example_verdict_def make_verdict_def Let_def by (rule sealed_event_validates)
  then show ?thesis by (simp add: example_fault_env_def example_env_def env_ok_def)
qed

lemma attempts_inc:
  assumes "x < (2 :: u32)"
  shows "x + 1 < 3" "x \<le> x + 1" "1 \<le> x + 1"
proof -
  have "unat x < 2" using assms by (simp add: word_less_nat_alt)
  then have "unat (x + 1) = unat x + 1" by (simp add: unat_word_ariths)
  with \<open>unat x < 2\<close> show "x + 1 < 3" "x \<le> x + 1" "1 \<le> x + 1"
    by (simp_all add: word_less_nat_alt word_le_nat_alt)
qed

lemma failed_send_keeps_lane:
  assumes "heads n (sx_manager s)" "\<And>k. pe_link env k \<noteq> Acknowledged_by_PSD"
    "tk_attempts (sx_retained s PRIO_CRITICAL) < 2"
  shows "heads n (sx_manager (send_batch cfg PRIO_CRITICAL env s)) \<and>
    tk_attempts (sx_retained (send_batch cfg PRIO_CRITICAL env s) PRIO_CRITICAL) \<le> tk_attempts (sx_retained s PRIO_CRITICAL) + 1"
proof (cases "buildDecisionRequestFromQueuedEvents cfg (pe_rpc env 0) PRIO_CRITICAL (sx_manager s)")
  case (Some rt)
  define st where "st = snd (sent cfg PRIO_CRITICAL env s (fst rt) (snd rt))"
  have down: "\<not> fst (send_attempts cfg env k left r st)" for k left r st
    using assms(2) by (induction left arbitrary: k r st) (auto simp: Let_def split: LinkOutcome.split)
  have nok: "\<not> fst (sent cfg PRIO_CRITICAL env s (fst rt) (snd rt))"
    by (simp add: sent_def Let_def sendDecisionRequestWithRetry_def down)
  have a: "tk_attempts (ps_ticket st) < NVPSS_PSD_BATCH_MAX_DELIVERY_ATTEMPTS"
    using attempts_inc(1) [OF assms(3)] by (simp add: st_def sent_ticket resume_ticket_def pss_fs)
  have le: "tk_attempts (ps_ticket st) \<le> tk_attempts (sx_retained s PRIO_CRITICAL) + 1"
    using attempts_inc(3) [OF assms(3)] by (simp add: st_def sent_ticket resume_ticket_def)
  have "sx_manager (send_batch cfg PRIO_CRITICAL env s) = ps_manager st"
    "tk_attempts (sx_retained (send_batch cfg PRIO_CRITICAL env s) PRIO_CRITICAL) = tk_attempts (ps_ticket st)"
    using send_batch_Some(1,2) [of cfg env PRIO_CRITICAL s "fst rt" "snd rt"] Some nok a
    by (simp_all add: after_send_def Let_def st_def [symmetric] not_le [symmetric])
  then show ?thesis using front_kept_heads [OF sent_front assms(1)] le by (simp add: st_def)
next
  case None
  then show ?thesis using assms(1) attempts_inc(2) [OF assms(3)] by (simp add: send_batch_None)
qed

lemma priority_cases: "p = PRIO_CRITICAL \<or> p = PRIO_OPERATIONAL"
  by (cases p) simp_all

lemma failed_pass_keeps_lane:
  assumes "heads n (sx_manager (before_send cfg env s))" "\<And>k. pe_link env k \<noteq> Acknowledged_by_PSD"
    "tk_attempts (sx_retained s PRIO_CRITICAL) < 2"
  shows "heads n (sx_manager (managePsdSender_pass cfg env s))"
    "tk_attempts (sx_retained (managePsdSender_pass cfg env s) PRIO_CRITICAL) \<le> tk_attempts (sx_retained s PRIO_CRITICAL) + 1"
proof -
  let ?b = "before_send cfg env s"
  show "heads n (sx_manager (managePsdSender_pass cfg env s))"
    "tk_attempts (sx_retained (managePsdSender_pass cfg env s) PRIO_CRITICAL) \<le> tk_attempts (sx_retained s PRIO_CRITICAL) + 1"
    using priority_cases [of "the (due_priority (pe_nowNs env) ?b)"]
      failed_send_keeps_lane [of n ?b env cfg] operational_send_progress [of n ?b cfg env] attempts_inc(2) [OF assms(3)] assms
    by (auto simp: managePsdSender_pass_def Let_def before_send_fields split: option.split)
qed

lemma example_reported:
  defines "m \<equiv> producer_step example_manager_cfg (TrustReported 1 4 CLIENT_PERCEPTION_MONITOR example_verdict) (manager_initial 1)"
  shows "tr_input (pm_trust m) = [(4, example_verdict)]" "tr_aiPipelineInvalid (pm_trust m)" "pm_staging m = staging_initial"
proof -
  have "se_type example_verdict = AI_PIPELINE_INVALID" by (simp add: example_verdict_def)
  then show "tr_input (pm_trust m) = [(4, example_verdict)]" "tr_aiPipelineInvalid (pm_trust m)" "pm_staging m = staging_initial"
    by (simp_all add: m_def manager_initial_def report_trust_def OnTrustReport_def report_types apply_report_def
        report_distinct Let_def trust_initial_def)
qed

lemma drain_one:
  assumes "tr_input (pm_trust m) = [(c, event)]" "distrusted (query_event cfg event m)"
  shows "drain_input cfg rpc nowMs (Suc n) m = forward_distrusted cfg rpc nowMs event (query_event cfg event m) (pop_input m)"
proof -
  have "tr_input (pm_trust (forward_distrusted cfg rpc nowMs event t m')) = tr_input (pm_trust m')" for t m'
    by (simp add: forward_distrusted_def CreateInvalidSourceEvent_def case_prod_beta route_fused_def Let_def)
  moreover have "tr_input (pm_trust (pop_input m)) = []" using assms(1) by (simp add: pop_input_def)
  ultimately show ?thesis
    using assms by (cases n) (simp_all add: drain_event_def Let_def)
qed

lemma example_fault_staged:
  "heads 0 (sx_manager (before_send example_manager_cfg example_fault_env example_sender))"
proof -
  let ?cfg = example_manager_cfg
  let ?m = "producer_step ?cfg (TrustReported 1 4 CLIENT_PERCEPTION_MONITOR example_verdict) (manager_initial 1)"
  let ?m2 = "producer_step ?cfg (FusionTick None 7 None []) ?m"
  have depth: "unat (sc_criticalDepth (mc_staging ?cfg)) = 32"
    by (simp add: example_manager_cfg_def manager_cfg_def Let_def staging_cfg_def clamp_depth_def pss_fs)
  have d: "distrusted (query_event ?cfg example_verdict ?m)"
    using example_reported(2) by (simp add: distrusted_def query_event_def QueryTrustState_def)
  have "pm_staging ?m2 = pm_staging (drain_input ?cfg None 7 (Suc 63) ?m)"
    by (simp add: fusion_loop_tick_def HandleFusedEvents_def Let_def clearFusionStageFailure_def kBypassDrainPerTick_def
        del: drain_input.simps)
  also have "\<dots> = pm_staging (forward_distrusted ?cfg None 7 example_verdict (query_event ?cfg example_verdict ?m) (pop_input ?m))"
    by (simp only: drain_one [OF example_reported(1) d])
  finally obtain fused clientId evictable where
    "pm_staging ?m2 = snd (enqueuePsdFusedEvent (mc_staging ?cfg) PRIO_CRITICAL clientId fused evictable
      (query_event ?cfg example_verdict ?m) staging_initial)"
    using forward_distrusted_staging [OF d, of example_verdict ?cfg None 7 "pop_input ?m"] example_reported(3) by auto
  then have "heads 0 ?m2"
    by (simp add: heads_def enqueuePsdFusedEvent_def enqueue_critical_def critical_append_def staging_initial_def depth)
  then show ?thesis
    by (simp add: before_send_def example_fault_env_def example_env_def producers_def example_sender_def sender_initial_def
        status_noop_due_def NvPSSPsdSaturatingAddNs_def Let_def)
qed

definition example_blocked :: PsdSender where
  "example_blocked = sender_run example_manager_cfg [example_fault_env] example_sender"

lemma example_blocked_heads:
  "heads 0 (sx_manager example_blocked)" "tk_attempts (sx_retained example_blocked PRIO_CRITICAL) \<le> 1"
  using failed_pass_keeps_lane [OF example_fault_staged]
  by (auto simp: example_blocked_def sender_run_def example_fault_env_def example_env_def link_down_def
      example_sender_def sender_initial_def empty_ticket_def)

theorem critical_head_leaves_witness:
  "critical_sends example_manager_cfg [example_env 300000000 link_down] example_blocked \<le> 23"
proof -
  let ?env = "example_env 300000000 link_down"
  obtain e rest where e: "sg_critical (pm_staging (sx_manager example_blocked)) = e # rest" "qe_seq e = 0"
    using example_blocked_heads(1) by (auto simp: heads_def split: list.splits)
  have "heads 0 (sx_manager (before_send example_manager_cfg ?env example_blocked))"
    by (rule front_kept_heads [OF advances_front [OF before_send_fields(3)] example_blocked_heads(1)])
  moreover have "tk_attempts (sx_retained example_blocked PRIO_CRITICAL) < 2"
    using example_blocked_heads(2) by (rule order.strict_trans1) simp
  ultimately have "heads 0 (sx_manager (managePsdSender_pass example_manager_cfg ?env example_blocked))"
    by (intro failed_pass_keeps_lane) (simp_all add: example_env_def link_down_def)
  then have "0 \<in> qe_seq ` set (sg_critical (pm_staging (sx_manager (sender_run example_manager_cfg [?env] example_blocked))))"
    by (auto simp: heads_def sender_run_def split: list.splits)
  then show ?thesis
    using critical_head_leaves [of "[example_fault_env]" "[?env]" example_blocked example_manager_cfg 1 1 e rest] e
    by (simp add: example_fault_env_ok example_env_ok example_blocked_def example_sender_def)
qed

section \<open>What a retry does not keep\<close>

text \<open>
  The entries of a retry are rebuilt: with the same staged event and so the same batch, a different presence
  report gives a different request under the same id.
\<close>

definition example_view :: RpcView where
  "example_view = \<lparr>rv_mode = NORMAL, rv_presenceMask = 1, rv_expectedMask = 1, rv_inputUnusableMask = 0, rv_inputConfirmedMask = 0\<rparr>"

theorem retry_content_resampled:
  "\<exists>r r' t t'. buildDecisionRequestFromQueuedEvents example_manager_cfg None PRIO_OPERATIONAL (sx_manager example_staged) = Some (r, t) \<and>
     buildDecisionRequestFromQueuedEvents example_manager_cfg (Some example_view) PRIO_OPERATIONAL (sx_manager example_staged) = Some (r', t') \<and>
     psdBatchIdentityMatches t t' \<and>
     map (\<lambda>sd. fm_objectID (fe_fusionMetadata (sd_event sd))) (populated r) = [(0, 0)] \<and>
     map (\<lambda>sd. fm_objectID (fe_fusionMetadata (sd_event sd))) (populated r') = [(1, 1)]"
proof -
  have l: "lane PRIO_OPERATIONAL (pm_staging (sx_manager example_staged)) =
     [\<lparr>qe_clientId = 0, qe_seq = 0, qe_event = NvPSSBuildStatusNoopFusedEvent 0 5000000001 0 0,
       qe_queuedTrust = no_distrust, qe_evictable = False\<rparr>]"
    unfolding example_staged_def by (rule example_batch)
  show ?thesis
    by (simp add: buildDecisionRequestFromQueuedEvents_def l Let_def pss_enum psdBatchIdentityMatches_def empty_ticket_def
        populated_finalize with_severity_def [abs_def] comp_def)
      (simp add: populated_def sensor_data_of_def sourcePresenceSnapshot_def NvPSSStampSourcePresence_def example_view_def
        NvPSSBuildStatusNoopFusedEvent_def NvPSSPackPresenceWord_def pss_enum Let_def)
qed

end
