(* ===== verification/Pss_Rpc.thy ===== *)
theory Pss_Rpc
  imports Pss_Sender
begin

text \<open>
  The RPC server of the daemon (\<^verbatim>\<open>NvPSSDRPC.cpp\<close>): client slots, registration, heartbeat supervision, the
  published presence and input-state masks, the gate of a reported event, and the SW_FAILs the server queues itself.

  A client id is a slot number. A \<open>std::map\<close> from slots is a partial function, visited in the order of its keys;
  an array indexed by slots is a function. \<open>NVPSF_PEER_INVALID\<close> and a slot of \<open>UINT32_MAX\<close> are \<open>None\<close>. The vectors
  \<open>hbMissCountFast\<close> and \<open>hbFaultLatchedFast\<close> are the mirrors the report path reads. A handler that reads the clock
  takes the reading of the steady clock, in nanoseconds, as an argument. Log lines, and the records deferred until
  a mutex is released, are left out.
\<close>

section \<open>Identities\<close>

definition CLIENT_MDX :: u8 where [pss_fs]: "CLIENT_MDX = 1"
definition CLIENT_PSD_GATEWAY :: u8 where [pss_fs]: "CLIENT_PSD_GATEWAY = 3"
definition PSS_MDX_INSTANCE_MAX :: u8 where [pss_fs]: "PSS_MDX_INSTANCE_MAX = 8"
definition MAX_POSSIBLE_CLIENTS :: nat where [pss_fs]: "MAX_POSSIBLE_CLIENTS = 100"
definition MAX_CLIENTS :: nat where [pss_fs]: "MAX_CLIENTS = 8"
definition HB_MSG :: u8 where [pss_fs]: "HB_MSG = 0x7E"
definition HB_INTERVAL_MS :: int where [pss_fs]: "HB_INTERVAL_MS = 5000"
definition HB_STALE_GRACE_MS :: int where [pss_fs]: "HB_STALE_GRACE_MS = 1500"
definition HB_TIMEOUT_MS :: int where [pss_fs]: "HB_TIMEOUT_MS = HB_INTERVAL_MS + HB_STALE_GRACE_MS"

definition REGISTER_ACCEPTED :: u8 where [pss_fs]: "REGISTER_ACCEPTED = 1"
definition REGISTER_REJECTED_DUPLICATE_TYPE :: u8 where [pss_fs]: "REGISTER_REJECTED_DUPLICATE_TYPE = 2"
definition REGISTER_REJECTED_INVALID_TYPE :: u8 where [pss_fs]: "REGISTER_REJECTED_INVALID_TYPE = 3"
definition REGISTER_REJECTED_INVALID_INSTANCE :: u8 where [pss_fs]: "REGISTER_REJECTED_INVALID_INSTANCE = 4"

definition REPORT_ACCEPTED :: u8 where [pss_fs]: "REPORT_ACCEPTED = 1"
definition REPORT_REJECTED_CLIENTID_MISMATCH :: u8 where [pss_fs]: "REPORT_REJECTED_CLIENTID_MISMATCH = 2"
definition REPORT_REJECTED_UNAUTHORIZED :: u8 where [pss_fs]: "REPORT_REJECTED_UNAUTHORIZED = 3"
definition REPORT_REJECTED_LOW_CONFIDENCE :: u8 where [pss_fs]: "REPORT_REJECTED_LOW_CONFIDENCE = 4"
definition REPORT_REJECTED_VALIDATION_FAILED :: u8 where [pss_fs]: "REPORT_REJECTED_VALIDATION_FAILED = 5"
definition REPORT_REJECTED_UNRESOLVED_SENSOR :: u8 where [pss_fs]: "REPORT_REJECTED_UNRESOLVED_SENSOR = 6"

definition NVPSS_CLIENT_REJECT_ERROR_THRESHOLD_MIN :: u32 where
  [pss_fs]: "NVPSS_CLIENT_REJECT_ERROR_THRESHOLD_MIN = 3"
definition NVPSS_CLIENT_REJECT_ERROR_THRESHOLD_MAX :: u32 where
  [pss_fs]: "NVPSS_CLIENT_REJECT_ERROR_THRESHOLD_MAX = 10000"
definition NVPSS_CLIENT_REJECT_ERROR_THRESHOLD_DEFAULT :: u32 where
  [pss_fs]: "NVPSS_CLIENT_REJECT_ERROR_THRESHOLD_DEFAULT = 50"

text \<open>\<open>sizeof(SafetyEvent)\<close> of the packed struct: the bytes under the CRC and the CRC.\<close>

definition SAFETY_EVENT_SIZE :: u16 where [pss_fs]: "SAFETY_EVENT_SIZE = 194"

definition presenceBitForClient :: "u8 \<Rightarrow> u8 \<Rightarrow> u32" where
  "presenceBitForClient clientType inst =
     (if clientType = CLIENT_SAFETY_MONITOR then PSS_PRESENCE_SAFETY_MONITOR
      else if clientType = CLIENT_PERCEPTION_MONITOR then PSS_PRESENCE_PERCEPTION_MONITOR
      else if clientType = CLIENT_MDX
        then if 1 \<le> inst \<and> inst \<le> PSS_MDX_INSTANCE_MAX then PSS_PRESENCE_MDX_INSTANCE (ucast inst) else 0
      else 0)"

definition monitorLostCause :: "u8 \<Rightarrow> u8 \<Rightarrow> EventCause" where
  "monitorLostCause clientType inst =
     (if presenceBitForClient clientType inst = 0 then CAUSE_NONE
      else if clientType = CLIENT_SAFETY_MONITOR then CAUSE_SAFETY_MONITOR_LOST
      else if clientType = CLIENT_PERCEPTION_MONITOR then CAUSE_PERCEPTION_MONITOR_LOST
      else if clientType = CLIENT_MDX then CAUSE_MDX_CLIENT_LOST
      else CAUSE_NONE)"

text \<open>The type and the instance a presence bit stands for.\<close>

definition clientForPresenceBit :: "u32 \<Rightarrow> (u8 \<times> u8) option" where
  "clientForPresenceBit b =
     (if b = PSS_PRESENCE_SAFETY_MONITOR then Some (CLIENT_SAFETY_MONITOR, 0)
      else if b = PSS_PRESENCE_PERCEPTION_MONITOR then Some (CLIENT_PERCEPTION_MONITOR, 0)
      else map_option (\<lambda>k. (CLIENT_MDX, k))
             (find (\<lambda>k. b = PSS_PRESENCE_MDX_INSTANCE (ucast k)) [1, 2, 3, 4, 5, 6, 7, PSS_MDX_INSTANCE_MAX]))"

section \<open>State\<close>

type_synonym NvPSFPeerId = u32

record RpcCfg =
  rc_maxClients :: nat
  rc_maxFailures :: u32
  rc_warnThreshold :: u32
  rc_thresholdConfidence :: f32
  rc_source :: PssSourceCfg

record RpcState =
  rp_peers :: "nat \<Rightarrow> NvPSFPeerId option"
  rp_generation :: "nat \<Rightarrow> u32"
  rp_lastHeartbeat :: "nat \<rightharpoonup> int"
  rp_heartbeatCount :: "nat \<rightharpoonup> u32"
  rp_type :: "nat \<rightharpoonup> u8"
  rp_instance :: "nat \<rightharpoonup> u8"
  rp_startTime :: int
  rp_requiredMask :: u32
  rp_everRegistered :: u32
  rp_everPresent :: u32
  rp_requiredDue :: bool
  rp_neverRaised :: u32
  rp_neverPending :: u32
  rp_expected :: u32
  rp_missCount :: "nat \<rightharpoonup> u32"
  rp_missFast :: "nat \<Rightarrow> u32"
  rp_faultLatched :: "nat \<rightharpoonup> bool"
  rp_faultFast :: "nat \<Rightarrow> u32"
  rp_cacheMaxMiss :: u32
  rp_cacheAnyFault :: bool
  rp_presence :: u32
  rp_smClient :: "nat option"
  rp_smMiss :: u32
  rp_smFault :: bool
  rp_pending :: "(nat \<times> u32) list"
  rp_pendingSeen :: "nat list"
  rp_streak :: "nat \<rightharpoonup> u32"
  rp_established :: "nat \<rightharpoonup> u8"
  rp_raised :: "nat \<rightharpoonup> bool"
  rp_noted :: "nat \<rightharpoonup> bool"
  rp_inputConfirmed :: u32
  rp_unusablePublished :: u32
  rp_confirmedPublished :: u32
  rp_threshold :: u32

definition rpc_initial :: "int \<Rightarrow> RpcState" where
  "rpc_initial nowNs =
     \<lparr>rp_peers = (\<lambda>_. None), rp_generation = (\<lambda>_. 0), rp_lastHeartbeat = Map.empty, rp_heartbeatCount = Map.empty,
      rp_type = Map.empty, rp_instance = Map.empty, rp_startTime = nowNs, rp_requiredMask = 0,
      rp_everRegistered = 0, rp_everPresent = 0, rp_requiredDue = False, rp_neverRaised = 0, rp_neverPending = 0,
      rp_expected = 0, rp_missCount = Map.empty, rp_missFast = (\<lambda>_. 0), rp_faultLatched = Map.empty,
      rp_faultFast = (\<lambda>_. 0), rp_cacheMaxMiss = 0, rp_cacheAnyFault = False, rp_presence = 0, rp_smClient = None,
      rp_smMiss = 0, rp_smFault = False, rp_pending = [], rp_pendingSeen = [], rp_streak = Map.empty,
      rp_established = Map.empty, rp_raised = Map.empty, rp_noted = Map.empty, rp_inputConfirmed = 0,
      rp_unusablePublished = 0, rp_confirmedPublished = 0,
      rp_threshold = NVPSS_CLIENT_REJECT_ERROR_THRESHOLD_DEFAULT\<rparr>"

text \<open>What a handler writes to a peer, and the peers it has the transport drop.\<close>

datatype RpcOut =
    Register_response NvPSFPeerId u32 u8
  | Report_response NvPSFPeerId u32 u8
  | Terminate_response NvPSFPeerId u64
  | Heartbeat_response NvPSFPeerId u64
  | Drop_peer NvPSFPeerId

text \<open>
  The server next to the trust state of the event manager, which holds the input queue. \<open>rw_tick\<close> is where the
  heartbeat monitor thread stands in \<open>heartbeatMonitorTick\<close>, with the slots it is about to hand over.
\<close>

datatype TickPoint = Tick_idle | Tick_scanned int "nat list" | Tick_required "nat list"

record RpcWorld =
  rw_rpc :: RpcState
  rw_trust :: PssTrust
  rw_out :: "RpcOut list"
  rw_tick :: TickPoint

definition on_rpc :: "(RpcState \<Rightarrow> RpcState) \<Rightarrow> RpcWorld \<Rightarrow> RpcWorld" where
  [rpc_ops]: "on_rpc f w = w\<lparr>rw_rpc := f (rw_rpc w)\<rparr>"

definition emit_out :: "RpcOut \<Rightarrow> RpcWorld \<Rightarrow> RpcWorld" where
  [rpc_ops]: "emit_out x w = w\<lparr>rw_out := rw_out w @ [x]\<rparr>"

definition push_input :: "int \<Rightarrow> SafetyEvent \<Rightarrow> RpcWorld \<Rightarrow> RpcWorld" where
  [rpc_ops]: "push_input client event w =
     w\<lparr>rw_trust := (rw_trust w)\<lparr>tr_input := tr_input (rw_trust w) @ [(client, event)]\<rparr>\<rparr>"

definition drop_peer :: "NvPSFPeerId option \<Rightarrow> RpcWorld \<Rightarrow> RpcWorld" where
  [rpc_ops]: "drop_peer peer w = (case peer of None \<Rightarrow> w | Some p \<Rightarrow> emit_out (Drop_peer p) w)"

text \<open>The keys of a map, in order.\<close>

definition slots :: "(nat \<rightharpoonup> 'a) \<Rightarrow> nat list" where
  "slots m = filter (\<lambda>i. m i \<noteq> None) [0..<MAX_POSSIBLE_CLIENTS]"

text \<open>\<open>m[k]\<close>: a key that is absent reads as zero.\<close>

definition at0 :: "(nat \<rightharpoonup> 'a::zero) \<Rightarrow> nat \<Rightarrow> 'a" where
  "at0 m k = (case m k of None \<Rightarrow> 0 | Some v \<Rightarrow> v)"

definition flag :: "(nat \<rightharpoonup> bool) \<Rightarrow> nat \<Rightarrow> bool" where
  "flag m k \<longleftrightarrow> m k = Some True"

section \<open>Queries\<close>

definition getClientType :: "RpcState \<Rightarrow> nat \<Rightarrow> u8" where
  "getClientType s clientId = at0 (rp_type s) clientId"

definition clientInstanceLocked :: "RpcState \<Rightarrow> nat \<Rightarrow> u8" where
  "clientInstanceLocked s clientId = at0 (rp_instance s) clientId"

definition inputIdentityLocked :: "RpcState \<Rightarrow> nat \<Rightarrow> u32" where
  "inputIdentityLocked s clientId =
     (case rp_type s clientId of None \<Rightarrow> 0
      | Some type \<Rightarrow>
          (let inst = clientInstanceLocked s clientId; b = presenceBitForClient type inst
           in if b \<noteq> 0 then b
              else if type = CLIENT_MDX \<and> inst = 0 then PSS_INPUT_ANONYMOUS_CLIENT else 0))"

definition hasRecentHeartbeat :: "int \<Rightarrow> RpcState \<Rightarrow> nat \<Rightarrow> bool" where
  "hasRecentHeartbeat nowNs s clientId =
     (case rp_lastHeartbeat s clientId of None \<Rightarrow> False
      | Some t \<Rightarrow> (let elapsed = ms_of (nowNs - t) in 0 \<le> elapsed \<and> uint (of_int elapsed :: u32) \<le> HB_TIMEOUT_MS))"

definition getSafetyMonitorOperationalMode :: "u32 \<Rightarrow> u32 \<Rightarrow> RpcState \<Rightarrow> OperationalMode" where
  "getSafetyMonitorOperationalMode maxFailures warnThreshold s =
     (if maxFailures = 0 then NORMAL
      else if rp_cacheAnyFault s \<or> rp_cacheMaxMiss s \<ge> maxFailures then ERROR
      else if rp_cacheMaxMiss s > warnThreshold \<and> rp_cacheMaxMiss s < maxFailures then DEGRADED
      else NORMAL)"

text \<open>What the event manager reads of the server.\<close>

definition rpc_view :: "RpcCfg \<Rightarrow> RpcState \<Rightarrow> RpcView" where
  "rpc_view cfg s =
     \<lparr>rv_mode = getSafetyMonitorOperationalMode (rc_maxFailures cfg) (rc_warnThreshold cfg) s,
      rv_presenceMask = rp_presence s, rv_expectedMask = rp_expected s,
      rv_inputUnusableMask = rp_unusablePublished s, rv_inputConfirmedMask = rp_confirmedPublished s\<rparr>"

section \<open>Published masks\<close>

definition recomputeExpectedMaskLocked :: "RpcState \<Rightarrow> RpcState" where
  "recomputeExpectedMaskLocked s =
     s\<lparr>rp_expected := rp_everPresent s OR (if rp_requiredDue s then rp_requiredMask s else 0)\<rparr>"

definition presence_add :: "RpcState \<Rightarrow> nat \<Rightarrow> u32 \<Rightarrow> u32" where
  "presence_add s i acc =
     (let b = presenceBitForClient (getClientType s i) (clientInstanceLocked s i)
      in if b = 0 then acc
         else if at0 (rp_heartbeatCount s) i = 0 then acc
         else if flag (rp_faultLatched s) i then acc
         else acc OR b)"

definition recomputePresenceMaskLocked :: "RpcState \<Rightarrow> RpcState" where
  "recomputePresenceMaskLocked s = s\<lparr>rp_presence := fold (presence_add s) (slots (rp_type s)) 0\<rparr>"

definition unusable_add :: "RpcState \<Rightarrow> nat \<Rightarrow> u32 \<Rightarrow> u32" where
  "unusable_add s i acc = (if flag (rp_raised s) i then acc OR inputIdentityLocked s i else acc)"

definition recomputeInputStateLocked :: "RpcState \<Rightarrow> RpcState" where
  "recomputeInputStateLocked s =
     s\<lparr>rp_unusablePublished := fold (unusable_add s) (slots (rp_raised s)) 0 AND PSS_INPUT_STATE_MASK,
       rp_confirmedPublished := rp_inputConfirmed s AND PSS_INPUT_STATE_MASK\<rparr>"

section \<open>Settings\<close>

definition setRequiredSourceMask :: "u32 \<Rightarrow> RpcState \<Rightarrow> RpcState" where
  "setRequiredSourceMask required s =
     recomputeExpectedMaskLocked
       (s\<lparr>rp_requiredMask :=
            required AND ((PSS_PRESENCE_SAFETY_MONITOR OR PSS_PRESENCE_PERCEPTION_MONITOR) OR PSS_PRESENCE_MDX_MASK)\<rparr>)"

definition setClientRejectErrorThreshold :: "u32 \<Rightarrow> RpcState \<Rightarrow> RpcState" where
  "setClientRejectErrorThreshold threshold s =
     (if threshold < NVPSS_CLIENT_REJECT_ERROR_THRESHOLD_MIN \<or> threshold > NVPSS_CLIENT_REJECT_ERROR_THRESHOLD_MAX
      then s else s\<lparr>rp_threshold := threshold\<rparr>)"

section \<open>Slots\<close>

definition clear_maps :: "nat \<Rightarrow> RpcState \<Rightarrow> RpcState" where
  [rpc_ops]: "clear_maps i s =
     s\<lparr>rp_streak := (rp_streak s)(i := None), rp_established := (rp_established s)(i := None),
       rp_raised := (rp_raised s)(i := None), rp_noted := (rp_noted s)(i := None),
       rp_lastHeartbeat := (rp_lastHeartbeat s)(i := None), rp_heartbeatCount := (rp_heartbeatCount s)(i := None),
       rp_type := (rp_type s)(i := None), rp_instance := (rp_instance s)(i := None),
       rp_missCount := (rp_missCount s)(i := None), rp_faultLatched := (rp_faultLatched s)(i := None)\<rparr>"

definition set_miss_fast :: "RpcCfg \<Rightarrow> nat \<Rightarrow> u32 \<Rightarrow> RpcState \<Rightarrow> RpcState" where
  [rpc_ops]: "set_miss_fast cfg i v s =
     (if i < rc_maxClients cfg then s\<lparr>rp_missFast := (rp_missFast s)(i := v)\<rparr> else s)"

definition set_fault_fast :: "RpcCfg \<Rightarrow> nat \<Rightarrow> u32 \<Rightarrow> RpcState \<Rightarrow> RpcState" where
  [rpc_ops]: "set_fault_fast cfg i v s =
     (if i < rc_maxClients cfg then s\<lparr>rp_faultFast := (rp_faultFast s)(i := v)\<rparr> else s)"

text \<open>The helpers of the handlers: a client heard now, its fault latch, the cache of the Safety Monitor.\<close>

definition track_heartbeat :: "RpcCfg \<Rightarrow> int \<Rightarrow> nat \<Rightarrow> RpcState \<Rightarrow> RpcState" where
  "track_heartbeat cfg nowNs i s =
     set_miss_fast cfg i 0
       (s\<lparr>rp_lastHeartbeat := (rp_lastHeartbeat s)(i \<mapsto> nowNs), rp_missCount := (rp_missCount s)(i \<mapsto> 0)\<rparr>)"

definition set_latched :: "RpcCfg \<Rightarrow> nat \<Rightarrow> bool \<Rightarrow> RpcState \<Rightarrow> RpcState" where
  "set_latched cfg i v s =
     set_fault_fast cfg i (if v then 1 else 0) (s\<lparr>rp_faultLatched := (rp_faultLatched s)(i \<mapsto> v)\<rparr>)"

definition sm_miss :: "nat \<Rightarrow> u32 \<Rightarrow> RpcState \<Rightarrow> RpcState" where
  "sm_miss i m s = s\<lparr>rp_smClient := Some i, rp_smMiss := m, rp_cacheMaxMiss := m\<rparr>"

definition sm_fault :: "bool \<Rightarrow> RpcState \<Rightarrow> RpcState" where
  "sm_fault v s = s\<lparr>rp_smFault := v, rp_cacheAnyFault := v\<rparr>"

definition clearClientStateLocked :: "RpcCfg \<Rightarrow> nat \<Rightarrow> RpcState \<Rightarrow> RpcState" where
  "clearClientStateLocked cfg clientId s =
     (let wasSm = (rp_type s clientId = Some CLIENT_SAFETY_MONITOR);
          s = set_fault_fast cfg clientId 0 (set_miss_fast cfg clientId 0 (clear_maps clientId s));
          s = (if wasSm \<and> rp_smClient s = Some clientId
               then sm_fault False (s\<lparr>rp_smClient := None, rp_smMiss := 0, rp_cacheMaxMiss := 0\<rparr>) else s)
      in recomputeInputStateLocked (recomputePresenceMaskLocked s))"

text \<open>The slot is cleared; the peer it held is the caller's to drop.\<close>

definition disconnectClientLocked :: "RpcCfg \<Rightarrow> nat \<Rightarrow> RpcState \<Rightarrow> NvPSFPeerId option \<times> RpcState" where
  "disconnectClientLocked cfg slot s =
     (let doomed = (if slot < MAX_POSSIBLE_CLIENTS then rp_peers s slot else None);
          s = (if slot < MAX_POSSIBLE_CLIENTS then s\<lparr>rp_peers := (rp_peers s)(slot := None)\<rparr> else s)
      in (doomed, clearClientStateLocked cfg slot s))"

definition disconnectClient :: "RpcCfg \<Rightarrow> nat \<Rightarrow> RpcWorld \<Rightarrow> RpcWorld" where
  "disconnectClient cfg slot w =
     (let (doomed, s) = disconnectClientLocked cfg slot (rw_rpc w) in drop_peer doomed (w\<lparr>rw_rpc := s\<rparr>))"

text \<open>The SW_FAIL of the daemon, sealed.\<close>

definition daemon_sw_fail :: "int \<Rightarrow> EventCause \<Rightarrow> u8 \<Rightarrow> u32 \<Rightarrow> SafetyEvent" where
  "daemon_sw_fail nowNs cause clientID objectID0 =
     seal_event
       \<lparr>se_id = 0, se_sensorIdentifier = snprintf_identifier ''PSS_RPC'', se_type = SW_FAIL, se_timestamp = of_int nowNs,
        se_confidenceLevel = F32_ONE, se_processed = False,
        se_fusionMetadata = zero_metadata\<lparr>fm_clientID := clientID, fm_objectID := (objectID0, 0)\<rparr>,
        se_cause = cause, se_integrity = \<lparr>mi_schemaVersion = 0, mi_crc32 = 0\<rparr>\<rparr>"

definition injectMonitorLostSwFail :: "int \<Rightarrow> nat option \<Rightarrow> u8 \<Rightarrow> u8 \<Rightarrow> RpcWorld \<Rightarrow> RpcWorld" where
  "injectMonitorLostSwFail nowNs slot clientType inst w =
     (let cause = monitorLostCause clientType inst
      in if cause = CAUSE_NONE then w
         else push_input (case slot of None \<Rightarrow> -1 | Some i \<Rightarrow> int i)
                (daemon_sw_fail nowNs cause (case slot of None \<Rightarrow> 0 | Some i \<Rightarrow> of_nat i)
                   (presenceBitForClient clientType inst)) w)"

text \<open>The identity is read before the teardown, and the loss queued after it.\<close>

definition dropClient :: "RpcCfg \<Rightarrow> int \<Rightarrow> nat \<Rightarrow> RpcWorld \<Rightarrow> RpcWorld" where
  "dropClient cfg nowNs slot w =
     (let clientType = getClientType (rw_rpc w) slot; inst = clientInstanceLocked (rw_rpc w) slot
      in injectMonitorLostSwFail nowNs (Some slot) clientType inst (disconnectClient cfg slot w))"

section \<open>Heartbeats\<close>

definition count_heartbeat :: "nat \<Rightarrow> bool \<Rightarrow> RpcState \<Rightarrow> RpcState" where
  "count_heartbeat i isNewClient s =
     s\<lparr>rp_heartbeatCount := (rp_heartbeatCount s)
         (i \<mapsto> (if isNewClient then 1 else at0 (rp_heartbeatCount s) i + 1))\<rparr>"

definition note_present :: "u32 \<Rightarrow> RpcState \<Rightarrow> RpcState" where
  "note_present b s =
     (if b = 0 then s
      else recomputePresenceMaskLocked
             (if rp_everPresent s AND b = 0
              then recomputeExpectedMaskLocked (s\<lparr>rp_everPresent := rp_everPresent s OR b\<rparr>) else s))"

definition updateClientHeartbeat :: "RpcCfg \<Rightarrow> int \<Rightarrow> nat \<Rightarrow> u8 \<Rightarrow> RpcState \<Rightarrow> RpcState" where
  "updateClientHeartbeat cfg nowNs clientId clientType s =
     (if flag (rp_faultLatched s) clientId then s
      else
        (let isNewClient = (rp_lastHeartbeat s clientId = None);
             s = track_heartbeat cfg nowNs clientId s;
             s = (if clientType = CLIENT_SAFETY_MONITOR then sm_miss clientId 0 s else s);
             s = count_heartbeat clientId isNewClient s
         in note_present (presenceBitForClient clientType (clientInstanceLocked s clientId)) s))"

text \<open>One client of the scan, with the slots to disconnect so far.\<close>

definition tick_client :: "RpcCfg \<Rightarrow> int \<Rightarrow> nat \<Rightarrow> RpcState \<times> nat list \<Rightarrow> RpcState \<times> nat list" where
  "tick_client cfg nowNs i st =
     (let (s, toDisconnect) = st
      in if flag (rp_faultLatched s) i then st
         else if ms_of (nowNs - the (rp_lastHeartbeat s i)) \<le> HB_TIMEOUT_MS then st
         else case rp_type s i of
             None \<Rightarrow> (set_latched cfg i True s, toDisconnect @ [i])
           | Some type \<Rightarrow>
               (let miss = at0 (rp_missCount s) i;
                    m = (if miss < 0xFFFFFFFF then miss + 1 else miss);
                    s = set_miss_fast cfg i m (s\<lparr>rp_missCount := (rp_missCount s)(i \<mapsto> m)\<rparr>);
                    s = (if type = CLIENT_SAFETY_MONITOR then sm_miss i m s else s)
                in if m \<ge> rc_maxFailures cfg
                   then
                     (let s = set_latched cfg i True s;
                          s = (if type = CLIENT_SAFETY_MONITOR then sm_fault True s else s)
                      in (if presenceBitForClient type (clientInstanceLocked s i) \<noteq> 0
                          then recomputePresenceMaskLocked s else s, toDisconnect @ [i]))
                   else (s, toDisconnect)))"

definition tick_scan :: "RpcCfg \<Rightarrow> int \<Rightarrow> RpcState \<Rightarrow> RpcState \<times> nat list" where
  "tick_scan cfg nowNs s = fold (tick_client cfg nowNs) (slots (rp_lastHeartbeat s)) (s, [])"

definition tick_required :: "RpcCfg \<Rightarrow> int \<Rightarrow> RpcState \<Rightarrow> RpcState" where
  "tick_required cfg nowNs s =
     (if rp_requiredMask s \<noteq> 0 \<and>
         ms_of (nowNs - rp_startTime s) \<ge> HB_TIMEOUT_MS + uint (rc_maxFailures cfg - 1) * HB_INTERVAL_MS
      then
        (let s = (if \<not> rp_requiredDue s then recomputeExpectedMaskLocked (s\<lparr>rp_requiredDue := True\<rparr>) else s);
             missing = rp_requiredMask s AND NOT (rp_everRegistered s) AND NOT (rp_neverRaised s)
         in s\<lparr>rp_neverRaised := rp_neverRaised s OR missing, rp_neverPending := rp_neverPending s OR missing\<rparr>)
      else s)"

definition tick_publish :: "nat \<Rightarrow> RpcState \<Rightarrow> RpcState" where
  "tick_publish cid s =
     (if cid \<in> set (rp_pendingSeen s) then s
      else s\<lparr>rp_pendingSeen := rp_pendingSeen s @ [cid],
             rp_pending := rp_pending s @ [(cid, if cid < MAX_POSSIBLE_CLIENTS then rp_generation s cid else 0)]\<rparr>)"

text \<open>A tick that no server step interleaves with.\<close>

definition heartbeatMonitorTick :: "RpcCfg \<Rightarrow> int \<Rightarrow> RpcState \<Rightarrow> RpcState" where
  "heartbeatMonitorTick cfg nowNs s =
     (if rc_maxFailures cfg = 0 then s
      else (let (s, toDisconnect) = tick_scan cfg nowNs s in fold tick_publish toDisconnect (tick_required cfg nowNs s)))"

section \<open>Pending disconnects\<close>

definition report_never_registered :: "int \<Rightarrow> u32 \<Rightarrow> nat \<Rightarrow> RpcWorld \<Rightarrow> RpcWorld" where
  "report_never_registered nowNs neverRegistered bitPos w =
     (let b = push_bit bitPos 1
      in if neverRegistered AND b = 0 then w
         else case clientForPresenceBit b of
             None \<Rightarrow> w
           | Some (type, inst) \<Rightarrow> injectMonitorLostSwFail nowNs None type inst w)"

definition process_pending :: "RpcCfg \<Rightarrow> int \<Rightarrow> nat \<times> u32 \<Rightarrow> RpcWorld \<Rightarrow> RpcWorld" where
  "process_pending cfg nowNs entry w =
     (let (slot, enqueueGen) = entry
      in if slot \<ge> rc_maxClients cfg then w
         else if rp_generation (rw_rpc w) slot \<noteq> enqueueGen then w
         else if rp_peers (rw_rpc w) slot = None then w
         else
           (let slotType = getClientType (rw_rpc w) slot; slotInstance = clientInstanceLocked (rw_rpc w) slot;
                w = (if presenceBitForClient slotType slotInstance \<noteq> 0
                     then injectMonitorLostSwFail nowNs (Some slot) slotType slotInstance w
                     else if slotType \<noteq> 0
                     then push_input (int slot) (daemon_sw_fail nowNs CAUSE_HEARTBEAT_FAULT (of_nat slot) 0) w
                     else w)
            in disconnectClient cfg slot w))"

definition processPendingDisconnects :: "RpcCfg \<Rightarrow> int \<Rightarrow> RpcWorld \<Rightarrow> RpcWorld" where
  "processPendingDisconnects cfg nowNs w =
     (let s = rw_rpc w; batch = rp_pending s; neverRegistered = rp_neverPending s;
          w = w\<lparr>rw_rpc := s\<lparr>rp_pending := [], rp_pendingSeen := [], rp_neverPending := 0\<rparr>\<rparr>
      in fold (process_pending cfg nowNs) batch
           (fold (report_never_registered nowNs neverRegistered) [0..<32] w))"

section \<open>Requests\<close>

datatype NvPSSDRPCMsg = REGISTER_CLIENT | TERMINATE_CLIENT | REPORT_SAFETY_EVENT | SEND_HEARTBEAT | Unknown_msg

text \<open>
  The payload of a request: its first two bytes, which registration and heartbeat read, and the event that the
  payload of a report is the image of.
\<close>

record NvPSSDRPCMsgReq =
  rq_msg :: NvPSSDRPCMsg
  rq_reqSeqNo :: u64
  rq_size :: u16
  rq_payload0 :: u8
  rq_payload1 :: u8
  rq_event :: SafetyEvent

text \<open>Another connected slot with the identity: the first that still heartbeats, or the last that is latched.\<close>

definition same_identity :: "RpcState \<Rightarrow> nat \<Rightarrow> u8 \<Rightarrow> u8 \<Rightarrow> nat list" where
  "same_identity s clientSlot type inst =
     filter (\<lambda>i. at0 (rp_type s) i = type \<and> clientInstanceLocked s i = inst \<and> i \<noteq> clientSlot \<and> rp_peers s i \<noteq> None)
       (slots (rp_type s))"

definition accept_registration :: "RpcCfg \<Rightarrow> int \<Rightarrow> nat \<Rightarrow> u8 \<Rightarrow> u8 \<Rightarrow> RpcState \<Rightarrow> RpcState" where
  "accept_registration cfg nowNs i type inst s =
     (let s = s\<lparr>rp_type := (rp_type s)(i \<mapsto> type), rp_instance := (rp_instance s)(i \<mapsto> inst),
                rp_everRegistered := rp_everRegistered s OR presenceBitForClient type inst\<rparr>;
          s = set_latched cfg i False (track_heartbeat cfg nowNs i s);
          s = (if type = CLIENT_SAFETY_MONITOR then sm_fault False (sm_miss i 0 s) else s)
      in recomputePresenceMaskLocked (s\<lparr>rp_heartbeatCount := (rp_heartbeatCount s)(i := None)\<rparr>))"

definition valid_client_type :: "u8 \<Rightarrow> bool" where
  "valid_client_type type \<longleftrightarrow>
     type = CLIENT_MDX \<or> type = CLIENT_SAFETY_MONITOR \<or> type = CLIENT_PSD_GATEWAY \<or> type = CLIENT_PERCEPTION_MONITOR"

definition singleton_type :: "u8 \<Rightarrow> u8 \<Rightarrow> bool" where
  "singleton_type type inst \<longleftrightarrow>
     type = CLIENT_SAFETY_MONITOR \<or> type = CLIENT_PSD_GATEWAY \<or> type = CLIENT_PERCEPTION_MONITOR \<or> inst \<noteq> 0"

definition request_instance :: "NvPSSDRPCMsgReq \<Rightarrow> u8" where
  "request_instance req = (if rq_size req \<ge> 2 then rq_payload1 req else 0)"

text \<open>The status, and the slot that was evicted with the peer to drop.\<close>

definition validateAndAcceptRegistration ::
  "RpcCfg \<Rightarrow> int \<Rightarrow> nat \<Rightarrow> NvPSSDRPCMsgReq \<Rightarrow> RpcState \<Rightarrow> u8 \<times> (nat \<times> NvPSFPeerId option) option \<times> RpcState" where
  "validateAndAcceptRegistration cfg nowNs clientSlot req s =
     (if rq_size req < 1 then (REGISTER_REJECTED_INVALID_TYPE, None, s)
      else
        (let reqClientType = rq_payload0 req; reqInstance = request_instance req
         in if \<not> valid_client_type reqClientType then (REGISTER_REJECTED_INVALID_TYPE, None, s)
            else if reqInstance > PSS_MDX_INSTANCE_MAX \<or> reqInstance \<noteq> 0 \<and> reqClientType \<noteq> CLIENT_MDX
            then (REGISTER_REJECTED_INVALID_INSTANCE, None, s)
            else
              (let others = (if singleton_type reqClientType reqInstance
                             then same_identity s clientSlot reqClientType reqInstance else [])
               in if list_ex (\<lambda>i. \<not> flag (rp_faultLatched s) i) others
                  then (REGISTER_REJECTED_DUPLICATE_TYPE, None, s)
                  else if others = []
                  then (REGISTER_ACCEPTED, None, accept_registration cfg nowNs clientSlot reqClientType reqInstance s)
                  else
                    (let staleSlot = last others; (evicted, s) = disconnectClientLocked cfg staleSlot s
                     in (REGISTER_ACCEPTED, Some (staleSlot, evicted),
                         accept_registration cfg nowNs clientSlot reqClientType reqInstance s)))))"

definition handle_register :: "RpcCfg \<Rightarrow> int \<Rightarrow> nat \<Rightarrow> NvPSFPeerId \<Rightarrow> NvPSSDRPCMsgReq \<Rightarrow> RpcWorld \<Rightarrow> RpcWorld" where
  "handle_register cfg nowNs client peer req w =
     (let encodedId = push_bit 8 (rp_generation (rw_rpc w) client) OR of_nat client;
          (status, evicted, s) = validateAndAcceptRegistration cfg nowNs client req (rw_rpc w);
          w = w\<lparr>rw_rpc := s\<rparr>;
          w = (case evicted of None \<Rightarrow> w
               | Some (evictedSlot, evictedPeer) \<Rightarrow>
                   injectMonitorLostSwFail nowNs (Some evictedSlot) (rq_payload0 req) (request_instance req)
                     (drop_peer evictedPeer w));
          w = emit_out (Register_response peer encodedId status) w
      in if status \<noteq> REGISTER_ACCEPTED then dropClient cfg nowNs client w else w)"

section \<open>Reports\<close>

definition noteReportAccepted :: "nat \<Rightarrow> u8 \<Rightarrow> EventType \<Rightarrow> RpcState \<Rightarrow> RpcState" where
  "noteReportAccepted clientId pipelineId eventType s =
     (let s = s\<lparr>rp_streak := (rp_streak s)(clientId \<mapsto> 0), rp_raised := (rp_raised s)(clientId \<mapsto> False),
                rp_noted := (rp_noted s)(clientId \<mapsto> False)\<rparr>;
          s = recomputeInputStateLocked (s\<lparr>rp_inputConfirmed := rp_inputConfirmed s OR inputIdentityLocked s clientId\<rparr>)
      in if \<not> (is_sensor_report eventType \<or> is_ai_report eventType) \<and> pipelineId \<noteq> 0
         then s\<lparr>rp_established := (rp_established s)(clientId \<mapsto> pipelineId)\<rparr> else s)"

definition identity_required :: "RpcState \<Rightarrow> nat \<Rightarrow> bool" where
  "identity_required s clientId =
     (case rp_type s clientId of None \<Rightarrow> False
      | Some type \<Rightarrow> presenceBitForClient type (clientInstanceLocked s clientId) AND rp_requiredMask s \<noteq> 0)"

text \<open>True on the rejection that escalates.\<close>

definition noteReportRejected :: "RpcCfg \<Rightarrow> nat \<Rightarrow> RpcState \<Rightarrow> bool \<times> RpcState" where
  "noteReportRejected cfg clientId s =
     (let streak = at0 (rp_streak s) clientId + 1;
          s = s\<lparr>rp_streak := (rp_streak s)(clientId \<mapsto> streak)\<rparr>;
          threshold = rp_threshold s
      in if streak < threshold then (False, s)
         else if flag (rp_raised s) clientId then (False, s)
         else
           (let identityRequired = identity_required s clientId; pipeline = rp_established s clientId
            in if pipeline = None \<and> \<not> identityRequired then (False, s)
               else
                 (let required = (identityRequired \<or>
                        (case pipeline of None \<Rightarrow> False | Some p \<Rightarrow> IsRequiredSourcePipeline (rc_source cfg) p))
                  in if \<not> required
                     then (False,
                       if flag (rp_noted s) clientId \<or> at0 (rp_streak s) clientId < threshold then s
                       else s\<lparr>rp_noted := (rp_noted s)(clientId \<mapsto> True)\<rparr>)
                     else if flag (rp_raised s) clientId \<or> at0 (rp_streak s) clientId < threshold then (False, s)
                     else
                       (let s = s\<lparr>rp_raised := (rp_raised s)(clientId \<mapsto> True)\<rparr>
                        in (True, recomputeInputStateLocked
                              (s\<lparr>rp_inputConfirmed := rp_inputConfirmed s AND NOT (inputIdentityLocked s clientId)\<rparr>))))))"

definition injectClientInputUnusableSwFail :: "int \<Rightarrow> nat \<Rightarrow> RpcWorld \<Rightarrow> RpcWorld" where
  "injectClientInputUnusableSwFail nowNs clientId w =
     push_input (int clientId)
       (daemon_sw_fail nowNs CAUSE_CLIENT_INPUT_UNUSABLE (of_nat clientId) (inputIdentityLocked (rw_rpc w) clientId)) w"

text \<open>The tiers of the heartbeat budget a reporter may be in.\<close>

definition heartbeat_gate :: "RpcCfg \<Rightarrow> RpcState \<Rightarrow> nat \<Rightarrow> bool" where
  "heartbeat_gate cfg s client =
     (let miss = (if client < rc_maxClients cfg then rp_missFast s client else 0);
          faultLatched = (if client < rc_maxClients cfg then rp_faultFast s client else 0);
          maxF = rc_maxFailures cfg; warnW = rc_warnThreshold cfg
      in \<not> (maxF > 0 \<and> (faultLatched \<noteq> 0 \<or> miss \<ge> maxF \<or> miss > warnW \<and> miss < maxF)))"

definition sensor_bound :: "EventType \<Rightarrow> bool" where
  "sensor_bound type \<longleftrightarrow> \<not> is_ai_report type \<and> type \<noteq> SW_FAIL \<and> type \<noteq> PSS_STATUS_NOOP"

definition reporter_authorized :: "EventType \<Rightarrow> u8 \<Rightarrow> bool" where
  "reporter_authorized type clientType \<longleftrightarrow>
     is_sensor_report type \<and> clientType = CLIENT_SAFETY_MONITOR \<or>
     is_ai_report type \<and> clientType = CLIENT_PERCEPTION_MONITOR"

text \<open>A report that passed the gate: its status, and the queue it may have joined.\<close>

definition admit_report :: "RpcCfg \<Rightarrow> int \<Rightarrow> nat \<Rightarrow> SafetyEvent \<Rightarrow> RpcWorld \<Rightarrow> u8 \<times> RpcWorld" where
  "admit_report cfg nowNs client event w =
     (let clientType = getClientType (rw_rpc w) client;
          isTrustReportType = (is_sensor_report (se_type event) \<or> is_ai_report (se_type event));
          meta = se_fusionMetadata event
      in if validateSafetyEvent (Some event) \<noteq> PSS_VALID then (REPORT_REJECTED_VALIDATION_FAILED, w)
         else if sensor_bound (se_type event) \<and> fm_pipelineID meta = 0 then (REPORT_REJECTED_UNRESOLVED_SENSOR, w)
         else if isTrustReportType \<and>
             (\<not> reporter_authorized (se_type event) clientType \<or> \<not> hasRecentHeartbeat nowNs (rw_rpc w) client)
         then (REPORT_REJECTED_UNAUTHORIZED, w)
         else if isTrustReportType
         then
           (let (accept, t) = OnTrustReport (rc_source cfg) (of_int nowNs) clientType event (rw_trust w);
                w = w\<lparr>rw_trust := t\<rparr>
            in if \<not> accept then (REPORT_REJECTED_UNAUTHORIZED, w)
               else (REPORT_ACCEPTED, push_input (int client) event w))
         else if client > 0xFF \<or> of_nat client \<noteq> fm_clientID meta then (REPORT_REJECTED_CLIENTID_MISMATCH, w)
         else if f32_le (rc_thresholdConfidence cfg) (se_confidenceLevel event)
         then (REPORT_ACCEPTED, push_input (int client) event w)
         else (REPORT_REJECTED_LOW_CONFIDENCE, w))"

definition judge_report :: "RpcCfg \<Rightarrow> int \<Rightarrow> nat \<Rightarrow> NvPSSDRPCMsgReq \<Rightarrow> RpcWorld \<Rightarrow> u8 \<times> RpcWorld" where
  "judge_report cfg nowNs client req w =
     (if \<not> heartbeat_gate cfg (rw_rpc w) client then (REPORT_REJECTED_UNAUTHORIZED, w)
      else if rq_size req \<noteq> SAFETY_EVENT_SIZE then (REPORT_REJECTED_UNAUTHORIZED, w)
      else admit_report cfg nowNs client (rq_event req) w)"

definition handle_report :: "RpcCfg \<Rightarrow> int \<Rightarrow> nat \<Rightarrow> NvPSFPeerId \<Rightarrow> NvPSSDRPCMsgReq \<Rightarrow> RpcWorld \<Rightarrow> RpcWorld" where
  "handle_report cfg nowNs client peer req w =
     (if getClientType (rw_rpc w) client = 0
      then disconnectClient cfg client (emit_out (Report_response peer (ucast (rq_reqSeqNo req)) REPORT_REJECTED_UNAUTHORIZED) w)
      else
        (let (status, w) = judge_report cfg nowNs client req w;
             event = rq_event req;
             w = (if status = REPORT_ACCEPTED
                  then on_rpc (noteReportAccepted client (fm_pipelineID (se_fusionMetadata event)) (se_type event)) w
                  else
                    (let (escalate, s) = noteReportRejected cfg client (rw_rpc w); w = w\<lparr>rw_rpc := s\<rparr>
                     in if escalate then injectClientInputUnusableSwFail nowNs client w else w))
         in emit_out (Report_response peer (ucast (rq_reqSeqNo req)) status) w))"

section \<open>The run loop\<close>

definition handle_heartbeat :: "RpcCfg \<Rightarrow> int \<Rightarrow> nat \<Rightarrow> NvPSFPeerId \<Rightarrow> NvPSSDRPCMsgReq \<Rightarrow> RpcWorld \<Rightarrow> RpcWorld" where
  "handle_heartbeat cfg nowNs client peer req w =
     (if rq_size req < 2 \<or> rq_payload0 req \<noteq> HB_MSG then w
      else
        (let registeredType = getClientType (rw_rpc w) client
         in if registeredType = 0 then disconnectClient cfg client w
            else if rq_payload1 req \<noteq> registeredType then dropClient cfg nowNs client w
            else emit_out (Heartbeat_response peer (rq_reqSeqNo req))
                   (on_rpc (updateClientHeartbeat cfg nowNs client registeredType) w)))"

definition handle_request :: "RpcCfg \<Rightarrow> int \<Rightarrow> nat \<Rightarrow> NvPSFPeerId \<Rightarrow> NvPSSDRPCMsgReq \<Rightarrow> RpcWorld \<Rightarrow> RpcWorld" where
  "handle_request cfg nowNs client peer req w =
     (case rq_msg req of
        REGISTER_CLIENT \<Rightarrow> handle_register cfg nowNs client peer req w
      | REPORT_SAFETY_EVENT \<Rightarrow> handle_report cfg nowNs client peer req w
      | TERMINATE_CLIENT \<Rightarrow> dropClient cfg nowNs client (emit_out (Terminate_response peer (rq_reqSeqNo req)) w)
      | SEND_HEARTBEAT \<Rightarrow> handle_heartbeat cfg nowNs client peer req w
      | Unknown_msg \<Rightarrow> w)"

text \<open>The events of a poll, and what one \<open>NvPSFTransportRecv\<close> brings.\<close>

datatype PollEvent = Peer_connected NvPSFPeerId | Peer_gone NvPSFPeerId

datatype RecvResult =
    Recv_gone "NvPSFPeerId option"
  | Recv_malformed "NvPSFPeerId option"
  | Recv_failed "NvPSFPeerId option"
  | Recv_message NvPSFPeerId NvPSSDRPCMsgReq

definition find_peer :: "RpcCfg \<Rightarrow> NvPSFPeerId option \<Rightarrow> RpcState \<Rightarrow> nat option" where
  "find_peer cfg peer s = find (\<lambda>i. rp_peers s i = peer) [0..<rc_maxClients cfg]"

definition admit_peer :: "RpcCfg \<Rightarrow> int \<Rightarrow> nat \<Rightarrow> NvPSFPeerId \<Rightarrow> RpcState \<Rightarrow> RpcState" where
  "admit_peer cfg nowNs i peer s =
     (let s = clearClientStateLocked cfg i s;
          s = s\<lparr>rp_peers := (rp_peers s)(i := Some peer), rp_generation := (rp_generation s)(i := rp_generation s i + 1)\<rparr>
      in set_latched cfg i False (track_heartbeat cfg nowNs i s))"

fun poll_event :: "RpcCfg \<Rightarrow> int \<Rightarrow> PollEvent \<Rightarrow> RpcWorld \<Rightarrow> RpcWorld" where
  "poll_event cfg nowNs (Peer_connected peer) w =
     (case find_peer cfg None (rw_rpc w) of
        None \<Rightarrow> emit_out (Drop_peer peer) w
      | Some i \<Rightarrow> on_rpc (admit_peer cfg nowNs i peer) w)"
| "poll_event cfg nowNs (Peer_gone peer) w =
     (case find_peer cfg (Some peer) (rw_rpc w) of
        None \<Rightarrow> w
      | Some i \<Rightarrow> dropClient cfg nowNs i w)"

text \<open>One message of the drain.\<close>

fun recv_step :: "RpcCfg \<Rightarrow> int \<Rightarrow> RecvResult \<Rightarrow> RpcWorld \<Rightarrow> RpcWorld" where
  "recv_step cfg nowNs (Recv_gone peer) w =
     (case find_peer cfg peer (rw_rpc w) of None \<Rightarrow> w | Some i \<Rightarrow> dropClient cfg nowNs i w)"
| "recv_step cfg nowNs (Recv_malformed peer) w =
     (case find_peer cfg peer (rw_rpc w) of None \<Rightarrow> w | Some i \<Rightarrow> dropClient cfg nowNs i w)"
| "recv_step cfg nowNs (Recv_failed peer) w =
     (case find_peer cfg peer (rw_rpc w) of None \<Rightarrow> w | Some i \<Rightarrow> dropClient cfg nowNs i w)"
| "recv_step cfg nowNs (Recv_message peer req) w =
     (case find_peer cfg (Some peer) (rw_rpc w) of None \<Rightarrow> w | Some i \<Rightarrow> handle_request cfg nowNs i peer req w)"

text \<open>
  A pass of the run loop: the pending disconnects, the events of the poll, and at most \<open>maxClients\<close> receives, the
  list ending where a receive would block. A poll that failed leaves both lists empty.
\<close>

definition rpc_pass ::
  "RpcCfg \<Rightarrow> int \<Rightarrow> (int \<times> PollEvent) list \<Rightarrow> (int \<times> RecvResult) list \<Rightarrow> RpcWorld \<Rightarrow> RpcWorld" where
  "rpc_pass cfg nowNs polls recvs w =
     fold (\<lambda>(t, r). recv_step cfg t r) (take (rc_maxClients cfg) recvs)
       (fold (\<lambda>(t, e). poll_event cfg t e) polls (processPendingDisconnects cfg nowNs w))"

section \<open>Shutdown\<close>

definition refreshSafetyMonitorOperationalCacheLocked :: "RpcCfg \<Rightarrow> RpcState \<Rightarrow> RpcState" where
  "refreshSafetyMonitorOperationalCacheLocked cfg s =
     (let sm = find (\<lambda>i. rp_type s i = Some CLIENT_SAFETY_MONITOR) (slots (rp_type s));
          miss = (case sm of None \<Rightarrow> 0
                  | Some i \<Rightarrow> if i < rc_maxClients cfg then rp_missFast s i else at0 (rp_missCount s) i);
          fault = (case sm of None \<Rightarrow> False | Some i \<Rightarrow> flag (rp_faultLatched s) i)
      in recomputePresenceMaskLocked
           (s\<lparr>rp_smClient := sm, rp_smMiss := miss, rp_smFault := fault, rp_cacheMaxMiss := miss, rp_cacheAnyFault := fault\<rparr>))"

definition NvPSSDCloseRPCServer :: "RpcCfg \<Rightarrow> RpcState \<Rightarrow> RpcState" where
  "NvPSSDCloseRPCServer cfg s =
     (let s = s\<lparr>rp_lastHeartbeat := Map.empty, rp_heartbeatCount := Map.empty, rp_type := Map.empty,
                rp_missCount := Map.empty,
                rp_missFast := (\<lambda>i. if i < rc_maxClients cfg then 0 else rp_missFast s i),
                rp_faultFast := (\<lambda>i. if i < rc_maxClients cfg then 0 else rp_faultFast s i),
                rp_faultLatched := Map.empty\<rparr>;
          s = refreshSafetyMonitorOperationalCacheLocked cfg s
      in s\<lparr>rp_pending := [], rp_pendingSeen := [],
           rp_peers := (\<lambda>i. if i < rc_maxClients cfg then None else rp_peers s i)\<rparr>)"

section \<open>The two threads\<close>

text \<open>
  The steps of the daemon around the server. A handler of the server thread is one step; \<open>heartbeatMonitorTick\<close>,
  which another thread runs, is three: the scan and the required sources, each under the mutex, and the hand-over.
\<close>

datatype RpcStep =
    Process int
  | Poll int PollEvent
  | Recv int RecvResult
  | Tick int

fun tick_step :: "RpcCfg \<Rightarrow> int \<Rightarrow> RpcWorld \<Rightarrow> RpcWorld" where
  "tick_step cfg nowNs w =
     (case rw_tick w of
        Tick_idle \<Rightarrow>
          if rc_maxFailures cfg = 0 then w
          else (let (s, toDisconnect) = tick_scan cfg nowNs (rw_rpc w)
                in w\<lparr>rw_rpc := s, rw_tick := Tick_scanned nowNs toDisconnect\<rparr>)
      | Tick_scanned t toDisconnect \<Rightarrow>
          w\<lparr>rw_rpc := tick_required cfg t (rw_rpc w), rw_tick := Tick_required toDisconnect\<rparr>
      | Tick_required toDisconnect \<Rightarrow>
          w\<lparr>rw_rpc := fold tick_publish toDisconnect (rw_rpc w), rw_tick := Tick_idle\<rparr>)"

fun rpc_step :: "RpcCfg \<Rightarrow> RpcStep \<Rightarrow> RpcWorld \<Rightarrow> RpcWorld" where
  "rpc_step cfg (Process nowNs) w = processPendingDisconnects cfg nowNs w"
| "rpc_step cfg (Poll nowNs e) w = poll_event cfg nowNs e w"
| "rpc_step cfg (Recv nowNs r) w = recv_step cfg nowNs r w"
| "rpc_step cfg (Tick nowNs) w = tick_step cfg nowNs w"

definition rpc_start :: "u32 \<Rightarrow> u32 \<Rightarrow> int \<Rightarrow> u32 \<Rightarrow> RpcWorld" where
  "rpc_start threshold required nowNs seed =
     \<lparr>rw_rpc = setRequiredSourceMask required (setClientRejectErrorThreshold threshold (rpc_initial nowNs)),
      rw_trust = trust_initial seed, rw_out = [], rw_tick = Tick_idle\<rparr>"

inductive rpc_reachable :: "RpcCfg \<Rightarrow> RpcWorld \<Rightarrow> bool" for cfg where
  start: "rpc_reachable cfg (rpc_start threshold required nowNs seed)"
| step: "rpc_reachable cfg w \<Longrightarrow> rpc_reachable cfg (rpc_step cfg e w)"

end
