(* ===== verification/Pss_Rpc_Inv.thy ===== *)
theory Pss_Rpc_Inv
  imports Pss_Rpc
begin

text \<open>
  The invariant of the RPC server: a registered slot is connected and heartbeat-tracked, no identity that must be
  unique is held twice, and the published masks say what the slots say. Every handler keeps it, and so does every
  interleaving of the server with the heartbeat monitor.
\<close>

section \<open>What a helper leaves alone\<close>

lemma recompute_presence_frame [simp]:
  "rp_peers (recomputePresenceMaskLocked s) = rp_peers s"
  "rp_generation (recomputePresenceMaskLocked s) = rp_generation s"
  "rp_lastHeartbeat (recomputePresenceMaskLocked s) = rp_lastHeartbeat s"
  "rp_heartbeatCount (recomputePresenceMaskLocked s) = rp_heartbeatCount s"
  "rp_type (recomputePresenceMaskLocked s) = rp_type s" "rp_instance (recomputePresenceMaskLocked s) = rp_instance s"
  "rp_startTime (recomputePresenceMaskLocked s) = rp_startTime s"
  "rp_requiredMask (recomputePresenceMaskLocked s) = rp_requiredMask s"
  "rp_everRegistered (recomputePresenceMaskLocked s) = rp_everRegistered s"
  "rp_everPresent (recomputePresenceMaskLocked s) = rp_everPresent s"
  "rp_requiredDue (recomputePresenceMaskLocked s) = rp_requiredDue s"
  "rp_neverRaised (recomputePresenceMaskLocked s) = rp_neverRaised s"
  "rp_neverPending (recomputePresenceMaskLocked s) = rp_neverPending s"
  "rp_expected (recomputePresenceMaskLocked s) = rp_expected s"
  "rp_missCount (recomputePresenceMaskLocked s) = rp_missCount s"
  "rp_missFast (recomputePresenceMaskLocked s) = rp_missFast s"
  "rp_faultLatched (recomputePresenceMaskLocked s) = rp_faultLatched s"
  "rp_faultFast (recomputePresenceMaskLocked s) = rp_faultFast s"
  "rp_cacheMaxMiss (recomputePresenceMaskLocked s) = rp_cacheMaxMiss s"
  "rp_cacheAnyFault (recomputePresenceMaskLocked s) = rp_cacheAnyFault s"
  "rp_smClient (recomputePresenceMaskLocked s) = rp_smClient s"
  "rp_pending (recomputePresenceMaskLocked s) = rp_pending s"
  "rp_pendingSeen (recomputePresenceMaskLocked s) = rp_pendingSeen s"
  "rp_streak (recomputePresenceMaskLocked s) = rp_streak s"
  "rp_established (recomputePresenceMaskLocked s) = rp_established s"
  "rp_raised (recomputePresenceMaskLocked s) = rp_raised s" "rp_noted (recomputePresenceMaskLocked s) = rp_noted s"
  "rp_inputConfirmed (recomputePresenceMaskLocked s) = rp_inputConfirmed s"
  "rp_unusablePublished (recomputePresenceMaskLocked s) = rp_unusablePublished s"
  "rp_confirmedPublished (recomputePresenceMaskLocked s) = rp_confirmedPublished s"
  "rp_threshold (recomputePresenceMaskLocked s) = rp_threshold s"
  by (simp_all add: recomputePresenceMaskLocked_def)

lemma recompute_input_frame [simp]:
  "rp_peers (recomputeInputStateLocked s) = rp_peers s"
  "rp_generation (recomputeInputStateLocked s) = rp_generation s"
  "rp_lastHeartbeat (recomputeInputStateLocked s) = rp_lastHeartbeat s"
  "rp_heartbeatCount (recomputeInputStateLocked s) = rp_heartbeatCount s"
  "rp_type (recomputeInputStateLocked s) = rp_type s" "rp_instance (recomputeInputStateLocked s) = rp_instance s"
  "rp_startTime (recomputeInputStateLocked s) = rp_startTime s"
  "rp_requiredMask (recomputeInputStateLocked s) = rp_requiredMask s"
  "rp_everRegistered (recomputeInputStateLocked s) = rp_everRegistered s"
  "rp_everPresent (recomputeInputStateLocked s) = rp_everPresent s"
  "rp_requiredDue (recomputeInputStateLocked s) = rp_requiredDue s"
  "rp_neverRaised (recomputeInputStateLocked s) = rp_neverRaised s"
  "rp_neverPending (recomputeInputStateLocked s) = rp_neverPending s"
  "rp_expected (recomputeInputStateLocked s) = rp_expected s"
  "rp_missCount (recomputeInputStateLocked s) = rp_missCount s"
  "rp_missFast (recomputeInputStateLocked s) = rp_missFast s"
  "rp_faultLatched (recomputeInputStateLocked s) = rp_faultLatched s"
  "rp_faultFast (recomputeInputStateLocked s) = rp_faultFast s"
  "rp_cacheMaxMiss (recomputeInputStateLocked s) = rp_cacheMaxMiss s"
  "rp_cacheAnyFault (recomputeInputStateLocked s) = rp_cacheAnyFault s"
  "rp_presence (recomputeInputStateLocked s) = rp_presence s"
  "rp_smClient (recomputeInputStateLocked s) = rp_smClient s"
  "rp_pending (recomputeInputStateLocked s) = rp_pending s"
  "rp_pendingSeen (recomputeInputStateLocked s) = rp_pendingSeen s"
  "rp_streak (recomputeInputStateLocked s) = rp_streak s"
  "rp_established (recomputeInputStateLocked s) = rp_established s"
  "rp_raised (recomputeInputStateLocked s) = rp_raised s" "rp_noted (recomputeInputStateLocked s) = rp_noted s"
  "rp_inputConfirmed (recomputeInputStateLocked s) = rp_inputConfirmed s"
  "rp_threshold (recomputeInputStateLocked s) = rp_threshold s"
  by (simp_all add: recomputeInputStateLocked_def)

lemma recompute_expected_frame [simp]:
  "rp_peers (recomputeExpectedMaskLocked s) = rp_peers s"
  "rp_generation (recomputeExpectedMaskLocked s) = rp_generation s"
  "rp_lastHeartbeat (recomputeExpectedMaskLocked s) = rp_lastHeartbeat s"
  "rp_heartbeatCount (recomputeExpectedMaskLocked s) = rp_heartbeatCount s"
  "rp_type (recomputeExpectedMaskLocked s) = rp_type s" "rp_instance (recomputeExpectedMaskLocked s) = rp_instance s"
  "rp_startTime (recomputeExpectedMaskLocked s) = rp_startTime s"
  "rp_requiredMask (recomputeExpectedMaskLocked s) = rp_requiredMask s"
  "rp_everRegistered (recomputeExpectedMaskLocked s) = rp_everRegistered s"
  "rp_everPresent (recomputeExpectedMaskLocked s) = rp_everPresent s"
  "rp_requiredDue (recomputeExpectedMaskLocked s) = rp_requiredDue s"
  "rp_neverRaised (recomputeExpectedMaskLocked s) = rp_neverRaised s"
  "rp_neverPending (recomputeExpectedMaskLocked s) = rp_neverPending s"
  "rp_missCount (recomputeExpectedMaskLocked s) = rp_missCount s"
  "rp_missFast (recomputeExpectedMaskLocked s) = rp_missFast s"
  "rp_faultLatched (recomputeExpectedMaskLocked s) = rp_faultLatched s"
  "rp_faultFast (recomputeExpectedMaskLocked s) = rp_faultFast s"
  "rp_cacheMaxMiss (recomputeExpectedMaskLocked s) = rp_cacheMaxMiss s"
  "rp_cacheAnyFault (recomputeExpectedMaskLocked s) = rp_cacheAnyFault s"
  "rp_presence (recomputeExpectedMaskLocked s) = rp_presence s"
  "rp_smClient (recomputeExpectedMaskLocked s) = rp_smClient s"
  "rp_pending (recomputeExpectedMaskLocked s) = rp_pending s"
  "rp_pendingSeen (recomputeExpectedMaskLocked s) = rp_pendingSeen s"
  "rp_streak (recomputeExpectedMaskLocked s) = rp_streak s"
  "rp_established (recomputeExpectedMaskLocked s) = rp_established s"
  "rp_raised (recomputeExpectedMaskLocked s) = rp_raised s" "rp_noted (recomputeExpectedMaskLocked s) = rp_noted s"
  "rp_inputConfirmed (recomputeExpectedMaskLocked s) = rp_inputConfirmed s"
  "rp_unusablePublished (recomputeExpectedMaskLocked s) = rp_unusablePublished s"
  "rp_confirmedPublished (recomputeExpectedMaskLocked s) = rp_confirmedPublished s"
  "rp_threshold (recomputeExpectedMaskLocked s) = rp_threshold s"
  by (simp_all add: recomputeExpectedMaskLocked_def)

lemma miss_fast_frame [simp]:
  "rp_peers (set_miss_fast cfg i v s) = rp_peers s" "rp_generation (set_miss_fast cfg i v s) = rp_generation s"
  "rp_lastHeartbeat (set_miss_fast cfg i v s) = rp_lastHeartbeat s"
  "rp_heartbeatCount (set_miss_fast cfg i v s) = rp_heartbeatCount s" "rp_type (set_miss_fast cfg i v s) = rp_type s"
  "rp_instance (set_miss_fast cfg i v s) = rp_instance s" "rp_startTime (set_miss_fast cfg i v s) = rp_startTime s"
  "rp_requiredMask (set_miss_fast cfg i v s) = rp_requiredMask s"
  "rp_everRegistered (set_miss_fast cfg i v s) = rp_everRegistered s"
  "rp_everPresent (set_miss_fast cfg i v s) = rp_everPresent s"
  "rp_requiredDue (set_miss_fast cfg i v s) = rp_requiredDue s"
  "rp_neverRaised (set_miss_fast cfg i v s) = rp_neverRaised s"
  "rp_neverPending (set_miss_fast cfg i v s) = rp_neverPending s"
  "rp_expected (set_miss_fast cfg i v s) = rp_expected s" "rp_missCount (set_miss_fast cfg i v s) = rp_missCount s"
  "rp_faultLatched (set_miss_fast cfg i v s) = rp_faultLatched s"
  "rp_faultFast (set_miss_fast cfg i v s) = rp_faultFast s"
  "rp_cacheMaxMiss (set_miss_fast cfg i v s) = rp_cacheMaxMiss s"
  "rp_cacheAnyFault (set_miss_fast cfg i v s) = rp_cacheAnyFault s"
  "rp_presence (set_miss_fast cfg i v s) = rp_presence s" "rp_smClient (set_miss_fast cfg i v s) = rp_smClient s"
  "rp_pending (set_miss_fast cfg i v s) = rp_pending s" "rp_pendingSeen (set_miss_fast cfg i v s) = rp_pendingSeen s"
  "rp_streak (set_miss_fast cfg i v s) = rp_streak s" "rp_established (set_miss_fast cfg i v s) = rp_established s"
  "rp_raised (set_miss_fast cfg i v s) = rp_raised s" "rp_noted (set_miss_fast cfg i v s) = rp_noted s"
  "rp_inputConfirmed (set_miss_fast cfg i v s) = rp_inputConfirmed s"
  "rp_unusablePublished (set_miss_fast cfg i v s) = rp_unusablePublished s"
  "rp_confirmedPublished (set_miss_fast cfg i v s) = rp_confirmedPublished s"
  "rp_threshold (set_miss_fast cfg i v s) = rp_threshold s"
  by (simp_all add: set_miss_fast_def)

lemma fault_fast_frame [simp]:
  "rp_peers (set_fault_fast cfg i v s) = rp_peers s" "rp_generation (set_fault_fast cfg i v s) = rp_generation s"
  "rp_lastHeartbeat (set_fault_fast cfg i v s) = rp_lastHeartbeat s"
  "rp_heartbeatCount (set_fault_fast cfg i v s) = rp_heartbeatCount s"
  "rp_type (set_fault_fast cfg i v s) = rp_type s" "rp_instance (set_fault_fast cfg i v s) = rp_instance s"
  "rp_startTime (set_fault_fast cfg i v s) = rp_startTime s"
  "rp_requiredMask (set_fault_fast cfg i v s) = rp_requiredMask s"
  "rp_everRegistered (set_fault_fast cfg i v s) = rp_everRegistered s"
  "rp_everPresent (set_fault_fast cfg i v s) = rp_everPresent s"
  "rp_requiredDue (set_fault_fast cfg i v s) = rp_requiredDue s"
  "rp_neverRaised (set_fault_fast cfg i v s) = rp_neverRaised s"
  "rp_neverPending (set_fault_fast cfg i v s) = rp_neverPending s"
  "rp_expected (set_fault_fast cfg i v s) = rp_expected s" "rp_missCount (set_fault_fast cfg i v s) = rp_missCount s"
  "rp_missFast (set_fault_fast cfg i v s) = rp_missFast s"
  "rp_faultLatched (set_fault_fast cfg i v s) = rp_faultLatched s"
  "rp_cacheMaxMiss (set_fault_fast cfg i v s) = rp_cacheMaxMiss s"
  "rp_cacheAnyFault (set_fault_fast cfg i v s) = rp_cacheAnyFault s"
  "rp_presence (set_fault_fast cfg i v s) = rp_presence s" "rp_smClient (set_fault_fast cfg i v s) = rp_smClient s"
  "rp_pending (set_fault_fast cfg i v s) = rp_pending s"
  "rp_pendingSeen (set_fault_fast cfg i v s) = rp_pendingSeen s" "rp_streak (set_fault_fast cfg i v s) = rp_streak s"
  "rp_established (set_fault_fast cfg i v s) = rp_established s" "rp_raised (set_fault_fast cfg i v s) = rp_raised s"
  "rp_noted (set_fault_fast cfg i v s) = rp_noted s"
  "rp_inputConfirmed (set_fault_fast cfg i v s) = rp_inputConfirmed s"
  "rp_unusablePublished (set_fault_fast cfg i v s) = rp_unusablePublished s"
  "rp_confirmedPublished (set_fault_fast cfg i v s) = rp_confirmedPublished s"
  "rp_threshold (set_fault_fast cfg i v s) = rp_threshold s"
  by (simp_all add: set_fault_fast_def)

lemma track_frame [simp]:
  "rp_peers (track_heartbeat cfg t i s) = rp_peers s" "rp_generation (track_heartbeat cfg t i s) = rp_generation s"
  "rp_heartbeatCount (track_heartbeat cfg t i s) = rp_heartbeatCount s"
  "rp_type (track_heartbeat cfg t i s) = rp_type s" "rp_instance (track_heartbeat cfg t i s) = rp_instance s"
  "rp_startTime (track_heartbeat cfg t i s) = rp_startTime s"
  "rp_requiredMask (track_heartbeat cfg t i s) = rp_requiredMask s"
  "rp_everRegistered (track_heartbeat cfg t i s) = rp_everRegistered s"
  "rp_everPresent (track_heartbeat cfg t i s) = rp_everPresent s"
  "rp_requiredDue (track_heartbeat cfg t i s) = rp_requiredDue s"
  "rp_neverRaised (track_heartbeat cfg t i s) = rp_neverRaised s"
  "rp_neverPending (track_heartbeat cfg t i s) = rp_neverPending s"
  "rp_expected (track_heartbeat cfg t i s) = rp_expected s"
  "rp_faultLatched (track_heartbeat cfg t i s) = rp_faultLatched s"
  "rp_faultFast (track_heartbeat cfg t i s) = rp_faultFast s"
  "rp_cacheMaxMiss (track_heartbeat cfg t i s) = rp_cacheMaxMiss s"
  "rp_cacheAnyFault (track_heartbeat cfg t i s) = rp_cacheAnyFault s"
  "rp_presence (track_heartbeat cfg t i s) = rp_presence s" "rp_smClient (track_heartbeat cfg t i s) = rp_smClient s"
  "rp_pending (track_heartbeat cfg t i s) = rp_pending s"
  "rp_pendingSeen (track_heartbeat cfg t i s) = rp_pendingSeen s"
  "rp_streak (track_heartbeat cfg t i s) = rp_streak s"
  "rp_established (track_heartbeat cfg t i s) = rp_established s"
  "rp_raised (track_heartbeat cfg t i s) = rp_raised s" "rp_noted (track_heartbeat cfg t i s) = rp_noted s"
  "rp_inputConfirmed (track_heartbeat cfg t i s) = rp_inputConfirmed s"
  "rp_unusablePublished (track_heartbeat cfg t i s) = rp_unusablePublished s"
  "rp_confirmedPublished (track_heartbeat cfg t i s) = rp_confirmedPublished s"
  "rp_threshold (track_heartbeat cfg t i s) = rp_threshold s"
  by (simp_all add: track_heartbeat_def)

lemma latched_frame [simp]:
  "rp_peers (set_latched cfg i v s) = rp_peers s" "rp_generation (set_latched cfg i v s) = rp_generation s"
  "rp_lastHeartbeat (set_latched cfg i v s) = rp_lastHeartbeat s"
  "rp_heartbeatCount (set_latched cfg i v s) = rp_heartbeatCount s" "rp_type (set_latched cfg i v s) = rp_type s"
  "rp_instance (set_latched cfg i v s) = rp_instance s" "rp_startTime (set_latched cfg i v s) = rp_startTime s"
  "rp_requiredMask (set_latched cfg i v s) = rp_requiredMask s"
  "rp_everRegistered (set_latched cfg i v s) = rp_everRegistered s"
  "rp_everPresent (set_latched cfg i v s) = rp_everPresent s"
  "rp_requiredDue (set_latched cfg i v s) = rp_requiredDue s"
  "rp_neverRaised (set_latched cfg i v s) = rp_neverRaised s"
  "rp_neverPending (set_latched cfg i v s) = rp_neverPending s" "rp_expected (set_latched cfg i v s) = rp_expected s"
  "rp_missCount (set_latched cfg i v s) = rp_missCount s" "rp_missFast (set_latched cfg i v s) = rp_missFast s"
  "rp_cacheMaxMiss (set_latched cfg i v s) = rp_cacheMaxMiss s"
  "rp_cacheAnyFault (set_latched cfg i v s) = rp_cacheAnyFault s"
  "rp_presence (set_latched cfg i v s) = rp_presence s" "rp_smClient (set_latched cfg i v s) = rp_smClient s"
  "rp_pending (set_latched cfg i v s) = rp_pending s" "rp_pendingSeen (set_latched cfg i v s) = rp_pendingSeen s"
  "rp_streak (set_latched cfg i v s) = rp_streak s" "rp_established (set_latched cfg i v s) = rp_established s"
  "rp_raised (set_latched cfg i v s) = rp_raised s" "rp_noted (set_latched cfg i v s) = rp_noted s"
  "rp_inputConfirmed (set_latched cfg i v s) = rp_inputConfirmed s"
  "rp_unusablePublished (set_latched cfg i v s) = rp_unusablePublished s"
  "rp_confirmedPublished (set_latched cfg i v s) = rp_confirmedPublished s"
  "rp_threshold (set_latched cfg i v s) = rp_threshold s"
  by (simp_all add: set_latched_def)

lemma sm_miss_frame [simp]:
  "rp_peers (sm_miss i m s) = rp_peers s" "rp_generation (sm_miss i m s) = rp_generation s"
  "rp_lastHeartbeat (sm_miss i m s) = rp_lastHeartbeat s" "rp_heartbeatCount (sm_miss i m s) = rp_heartbeatCount s"
  "rp_type (sm_miss i m s) = rp_type s" "rp_instance (sm_miss i m s) = rp_instance s"
  "rp_startTime (sm_miss i m s) = rp_startTime s" "rp_requiredMask (sm_miss i m s) = rp_requiredMask s"
  "rp_everRegistered (sm_miss i m s) = rp_everRegistered s" "rp_everPresent (sm_miss i m s) = rp_everPresent s"
  "rp_requiredDue (sm_miss i m s) = rp_requiredDue s" "rp_neverRaised (sm_miss i m s) = rp_neverRaised s"
  "rp_neverPending (sm_miss i m s) = rp_neverPending s" "rp_expected (sm_miss i m s) = rp_expected s"
  "rp_missCount (sm_miss i m s) = rp_missCount s" "rp_missFast (sm_miss i m s) = rp_missFast s"
  "rp_faultLatched (sm_miss i m s) = rp_faultLatched s" "rp_faultFast (sm_miss i m s) = rp_faultFast s"
  "rp_cacheAnyFault (sm_miss i m s) = rp_cacheAnyFault s" "rp_presence (sm_miss i m s) = rp_presence s"
  "rp_pending (sm_miss i m s) = rp_pending s" "rp_pendingSeen (sm_miss i m s) = rp_pendingSeen s"
  "rp_streak (sm_miss i m s) = rp_streak s" "rp_established (sm_miss i m s) = rp_established s"
  "rp_raised (sm_miss i m s) = rp_raised s" "rp_noted (sm_miss i m s) = rp_noted s"
  "rp_inputConfirmed (sm_miss i m s) = rp_inputConfirmed s"
  "rp_unusablePublished (sm_miss i m s) = rp_unusablePublished s"
  "rp_confirmedPublished (sm_miss i m s) = rp_confirmedPublished s" "rp_threshold (sm_miss i m s) = rp_threshold s"
  by (simp_all add: sm_miss_def)

lemma sm_fault_frame [simp]:
  "rp_peers (sm_fault v s) = rp_peers s" "rp_generation (sm_fault v s) = rp_generation s"
  "rp_lastHeartbeat (sm_fault v s) = rp_lastHeartbeat s" "rp_heartbeatCount (sm_fault v s) = rp_heartbeatCount s"
  "rp_type (sm_fault v s) = rp_type s" "rp_instance (sm_fault v s) = rp_instance s"
  "rp_startTime (sm_fault v s) = rp_startTime s" "rp_requiredMask (sm_fault v s) = rp_requiredMask s"
  "rp_everRegistered (sm_fault v s) = rp_everRegistered s" "rp_everPresent (sm_fault v s) = rp_everPresent s"
  "rp_requiredDue (sm_fault v s) = rp_requiredDue s" "rp_neverRaised (sm_fault v s) = rp_neverRaised s"
  "rp_neverPending (sm_fault v s) = rp_neverPending s" "rp_expected (sm_fault v s) = rp_expected s"
  "rp_missCount (sm_fault v s) = rp_missCount s" "rp_missFast (sm_fault v s) = rp_missFast s"
  "rp_faultLatched (sm_fault v s) = rp_faultLatched s" "rp_faultFast (sm_fault v s) = rp_faultFast s"
  "rp_cacheMaxMiss (sm_fault v s) = rp_cacheMaxMiss s" "rp_presence (sm_fault v s) = rp_presence s"
  "rp_smClient (sm_fault v s) = rp_smClient s" "rp_pending (sm_fault v s) = rp_pending s"
  "rp_pendingSeen (sm_fault v s) = rp_pendingSeen s" "rp_streak (sm_fault v s) = rp_streak s"
  "rp_established (sm_fault v s) = rp_established s" "rp_raised (sm_fault v s) = rp_raised s"
  "rp_noted (sm_fault v s) = rp_noted s" "rp_inputConfirmed (sm_fault v s) = rp_inputConfirmed s"
  "rp_unusablePublished (sm_fault v s) = rp_unusablePublished s"
  "rp_confirmedPublished (sm_fault v s) = rp_confirmedPublished s" "rp_threshold (sm_fault v s) = rp_threshold s"
  by (simp_all add: sm_fault_def)

lemma count_frame [simp]:
  "rp_peers (count_heartbeat i new s) = rp_peers s" "rp_generation (count_heartbeat i new s) = rp_generation s"
  "rp_lastHeartbeat (count_heartbeat i new s) = rp_lastHeartbeat s" "rp_type (count_heartbeat i new s) = rp_type s"
  "rp_instance (count_heartbeat i new s) = rp_instance s" "rp_startTime (count_heartbeat i new s) = rp_startTime s"
  "rp_requiredMask (count_heartbeat i new s) = rp_requiredMask s"
  "rp_everRegistered (count_heartbeat i new s) = rp_everRegistered s"
  "rp_everPresent (count_heartbeat i new s) = rp_everPresent s"
  "rp_requiredDue (count_heartbeat i new s) = rp_requiredDue s"
  "rp_neverRaised (count_heartbeat i new s) = rp_neverRaised s"
  "rp_neverPending (count_heartbeat i new s) = rp_neverPending s"
  "rp_expected (count_heartbeat i new s) = rp_expected s" "rp_missCount (count_heartbeat i new s) = rp_missCount s"
  "rp_missFast (count_heartbeat i new s) = rp_missFast s"
  "rp_faultLatched (count_heartbeat i new s) = rp_faultLatched s"
  "rp_faultFast (count_heartbeat i new s) = rp_faultFast s"
  "rp_cacheMaxMiss (count_heartbeat i new s) = rp_cacheMaxMiss s"
  "rp_cacheAnyFault (count_heartbeat i new s) = rp_cacheAnyFault s"
  "rp_presence (count_heartbeat i new s) = rp_presence s" "rp_smClient (count_heartbeat i new s) = rp_smClient s"
  "rp_pending (count_heartbeat i new s) = rp_pending s" "rp_pendingSeen (count_heartbeat i new s) = rp_pendingSeen s"
  "rp_streak (count_heartbeat i new s) = rp_streak s" "rp_established (count_heartbeat i new s) = rp_established s"
  "rp_raised (count_heartbeat i new s) = rp_raised s" "rp_noted (count_heartbeat i new s) = rp_noted s"
  "rp_inputConfirmed (count_heartbeat i new s) = rp_inputConfirmed s"
  "rp_unusablePublished (count_heartbeat i new s) = rp_unusablePublished s"
  "rp_confirmedPublished (count_heartbeat i new s) = rp_confirmedPublished s"
  "rp_threshold (count_heartbeat i new s) = rp_threshold s"
  by (simp_all add: count_heartbeat_def)

lemma note_present_frame [simp]:
  "rp_peers (note_present b s) = rp_peers s" "rp_generation (note_present b s) = rp_generation s"
  "rp_lastHeartbeat (note_present b s) = rp_lastHeartbeat s"
  "rp_heartbeatCount (note_present b s) = rp_heartbeatCount s" "rp_type (note_present b s) = rp_type s"
  "rp_instance (note_present b s) = rp_instance s" "rp_startTime (note_present b s) = rp_startTime s"
  "rp_requiredMask (note_present b s) = rp_requiredMask s"
  "rp_everRegistered (note_present b s) = rp_everRegistered s" "rp_requiredDue (note_present b s) = rp_requiredDue s"
  "rp_neverRaised (note_present b s) = rp_neverRaised s" "rp_neverPending (note_present b s) = rp_neverPending s"
  "rp_missCount (note_present b s) = rp_missCount s" "rp_missFast (note_present b s) = rp_missFast s"
  "rp_faultLatched (note_present b s) = rp_faultLatched s" "rp_faultFast (note_present b s) = rp_faultFast s"
  "rp_cacheMaxMiss (note_present b s) = rp_cacheMaxMiss s" "rp_cacheAnyFault (note_present b s) = rp_cacheAnyFault s"
  "rp_smClient (note_present b s) = rp_smClient s" "rp_pending (note_present b s) = rp_pending s"
  "rp_pendingSeen (note_present b s) = rp_pendingSeen s" "rp_streak (note_present b s) = rp_streak s"
  "rp_established (note_present b s) = rp_established s" "rp_raised (note_present b s) = rp_raised s"
  "rp_noted (note_present b s) = rp_noted s" "rp_inputConfirmed (note_present b s) = rp_inputConfirmed s"
  "rp_unusablePublished (note_present b s) = rp_unusablePublished s"
  "rp_confirmedPublished (note_present b s) = rp_confirmedPublished s"
  "rp_threshold (note_present b s) = rp_threshold s"
  by (simp_all add: note_present_def)

lemma slot_values [simp]:
  "rp_missFast (set_miss_fast cfg i m s) = (if i < rc_maxClients cfg then (rp_missFast s)(i := m) else rp_missFast s)"
  "rp_faultFast (set_fault_fast cfg i m s) = (if i < rc_maxClients cfg then (rp_faultFast s)(i := m) else rp_faultFast s)"
  "rp_lastHeartbeat (track_heartbeat cfg t i s) = (rp_lastHeartbeat s)(i \<mapsto> t)"
  "rp_missCount (track_heartbeat cfg t i s) = (rp_missCount s)(i \<mapsto> 0)"
  "rp_missFast (track_heartbeat cfg t i s) = (if i < rc_maxClients cfg then (rp_missFast s)(i := 0) else rp_missFast s)"
  "rp_faultLatched (set_latched cfg i v s) = (rp_faultLatched s)(i \<mapsto> v)"
  "rp_faultFast (set_latched cfg i v s) =
     (if i < rc_maxClients cfg then (rp_faultFast s)(i := if v then 1 else 0) else rp_faultFast s)"
  "rp_heartbeatCount (count_heartbeat i new s) =
     (rp_heartbeatCount s)(i \<mapsto> (if new then 1 else at0 (rp_heartbeatCount s) i + 1))"
  by (simp_all add: set_miss_fast_def set_fault_fast_def track_heartbeat_def set_latched_def count_heartbeat_def)

section \<open>Masks\<close>

lemma at0_simps [simp]:
  "at0 (m(k := None)) k = 0" "at0 (m(k \<mapsto> v)) k = v" "j \<noteq> k \<Longrightarrow> at0 (m(k := x)) j = at0 m j" "at0 Map.empty k = 0"
  by (simp_all add: at0_def)

lemma flag_simps [simp]:
  "\<not> flag (m(k := None)) k" "flag (m(k \<mapsto> v)) k = v" "j \<noteq> k \<Longrightarrow> flag (m(k := x)) j = flag m j" "\<not> flag Map.empty k"
  by (simp_all add: flag_def)

lemma set_slots [simp]: "i \<in> set (slots m) \<longleftrightarrow> i < MAX_POSSIBLE_CLIENTS \<and> m i \<noteq> None"
  by (auto simp: slots_def)

text \<open>The bit a slot contributes to the presence mask.\<close>

definition source_bit :: "RpcState \<Rightarrow> nat \<Rightarrow> u32" where
  "source_bit s i =
     (case rp_type s i of None \<Rightarrow> 0
      | Some type \<Rightarrow>
          if at0 (rp_heartbeatCount s) i = 0 \<or> flag (rp_faultLatched s) i then 0
          else presenceBitForClient type (clientInstanceLocked s i))"

definition presence_of :: "RpcState \<Rightarrow> u32" where
  "presence_of s = fold (presence_add s) (slots (rp_type s)) 0"

lemma bit_fold_presence:
  "bit (fold (presence_add s) is a) n \<longleftrightarrow> bit a n \<or> (\<exists>i \<in> set is. bit (presence_add s i 0) n)"
proof (induction "is" arbitrary: a)
  case (Cons i "is")
  have "bit (presence_add s i a) n \<longleftrightarrow> bit a n \<or> bit (presence_add s i 0) n"
    by (auto simp: presence_add_def Let_def bit_or_iff)
  then show ?case using Cons by auto
qed simp

lemma bit_presence_of: "bit (presence_of s) n \<longleftrightarrow> (\<exists>i < MAX_POSSIBLE_CLIENTS. bit (source_bit s i) n)"
proof -
  have *: "i \<in> set (slots (rp_type s)) \<and> bit (presence_add s i 0) n \<longleftrightarrow> i < MAX_POSSIBLE_CLIENTS \<and> bit (source_bit s i) n" for i
    by (cases "rp_type s i") (auto simp: presence_add_def source_bit_def getClientType_def at0_def Let_def)
  have "bit (presence_of s) n \<longleftrightarrow> (\<exists>i. i \<in> set (slots (rp_type s)) \<and> bit (presence_add s i 0) n)"
    unfolding presence_of_def bit_fold_presence by (auto simp del: set_slots)
  then show ?thesis unfolding * .
qed

lemma presence_cong: "(\<And>i. source_bit s' i = source_bit s i) \<Longrightarrow> presence_of s' = presence_of s"
  by (rule bit_word_eqI) (simp add: bit_presence_of)

lemma source_bit_cong:
  "rp_type s' i = rp_type s i \<Longrightarrow> rp_instance s' i = rp_instance s i \<Longrightarrow>
   rp_heartbeatCount s' i = rp_heartbeatCount s i \<Longrightarrow> rp_faultLatched s' i = rp_faultLatched s i \<Longrightarrow>
   source_bit s' i = source_bit s i"
  by (cases "rp_type s i") (auto simp: source_bit_def clientInstanceLocked_def at0_def flag_def)

lemma recompute_presence [simp]: "rp_presence (recomputePresenceMaskLocked s) = presence_of s"
  by (simp add: recomputePresenceMaskLocked_def presence_of_def)

lemma presence_of_frame [simp]:
  "presence_of (recomputePresenceMaskLocked s) = presence_of s" "presence_of (recomputeInputStateLocked s) = presence_of s"
  "presence_of (recomputeExpectedMaskLocked s) = presence_of s"
  by (rule presence_cong, rule source_bit_cong, simp_all)+

section \<open>The invariant\<close>

definition cfg_ok :: "RpcCfg \<Rightarrow> bool" where
  "cfg_ok cfg \<longleftrightarrow> rc_maxClients cfg \<le> MAX_POSSIBLE_CLIENTS"

definition slots_ok :: "RpcCfg \<Rightarrow> RpcState \<Rightarrow> bool" where
  "slots_ok cfg s \<longleftrightarrow>
     (\<forall>i. rp_peers s i \<noteq> None \<longrightarrow> i < rc_maxClients cfg \<and> rp_lastHeartbeat s i \<noteq> None) \<and>
     (\<forall>i. rp_lastHeartbeat s i \<noteq> None \<longrightarrow> rp_peers s i \<noteq> None) \<and>
     (\<forall>i ty. rp_type s i = Some ty \<longrightarrow> rp_peers s i \<noteq> None \<and> valid_client_type ty \<and>
        clientInstanceLocked s i \<le> PSS_MDX_INSTANCE_MAX \<and> (clientInstanceLocked s i \<noteq> 0 \<longrightarrow> ty = CLIENT_MDX))"

definition unique_ok :: "RpcState \<Rightarrow> bool" where
  "unique_ok s \<longleftrightarrow>
     (\<forall>i j ty. rp_type s i = Some ty \<longrightarrow> rp_type s j = Some ty \<longrightarrow>
        clientInstanceLocked s i = clientInstanceLocked s j \<longrightarrow> singleton_type ty (clientInstanceLocked s i) \<longrightarrow> i = j)"

definition masks_ok :: "RpcState \<Rightarrow> bool" where
  "masks_ok s \<longleftrightarrow>
     rp_presence s = presence_of s \<and>
     rp_expected s = rp_everPresent s OR (if rp_requiredDue s then rp_requiredMask s else 0) \<and>
     (\<forall>i. rp_heartbeatCount s i \<noteq> None \<longrightarrow> rp_type s i \<noteq> None \<and>
        presenceBitForClient (getClientType s i) (clientInstanceLocked s i) AND NOT (rp_everPresent s) = 0)"

definition mirrors_ok :: "RpcCfg \<Rightarrow> RpcState \<Rightarrow> bool" where
  "mirrors_ok cfg s \<longleftrightarrow>
     (\<forall>i < rc_maxClients cfg.
        rp_missFast s i = at0 (rp_missCount s) i \<and> (rp_faultFast s i \<noteq> 0 \<longleftrightarrow> flag (rp_faultLatched s) i))"

definition rpc_ok :: "RpcCfg \<Rightarrow> RpcState \<Rightarrow> bool" where
  "rpc_ok cfg s \<longleftrightarrow> slots_ok cfg s \<and> unique_ok s \<and> masks_ok s \<and> mirrors_ok cfg s"

text \<open>The fields the invariant reads.\<close>

definition same_slots :: "RpcState \<Rightarrow> RpcState \<Rightarrow> bool" where
  "same_slots s' s \<longleftrightarrow>
     rp_peers s' = rp_peers s \<and> rp_lastHeartbeat s' = rp_lastHeartbeat s \<and> rp_type s' = rp_type s \<and>
     rp_instance s' = rp_instance s \<and> rp_heartbeatCount s' = rp_heartbeatCount s \<and>
     rp_faultLatched s' = rp_faultLatched s \<and> rp_missCount s' = rp_missCount s \<and> rp_missFast s' = rp_missFast s \<and>
     rp_faultFast s' = rp_faultFast s \<and> rp_presence s' = rp_presence s \<and> rp_everPresent s' = rp_everPresent s"

lemma rpc_ok_frame:
  assumes "rpc_ok cfg s" "same_slots s' s"
    "rp_expected s' = rp_everPresent s' OR (if rp_requiredDue s' then rp_requiredMask s' else 0)"
  shows "rpc_ok cfg s'"
proof -
  have "presence_of s' = presence_of s"
    using assms(2) by (intro presence_cong source_bit_cong) (simp_all add: same_slots_def)
  then show ?thesis
    using assms unfolding rpc_ok_def same_slots_def slots_ok_def unique_ok_def masks_ok_def mirrors_ok_def
      clientInstanceLocked_def getClientType_def by simp
qed

lemma expected_eq: "rpc_ok cfg s \<Longrightarrow> rp_expected s = rp_everPresent s OR (if rp_requiredDue s then rp_requiredMask s else 0)"
  by (simp add: rpc_ok_def masks_ok_def)

lemma start_ok: "rpc_ok cfg (rw_rpc (rpc_start threshold required nowNs seed))"
proof -
  have "source_bit s i = 0" if "rp_type s = Map.empty" for s i using that by (simp add: source_bit_def)
  then have "presence_of s = 0" if "rp_type s = Map.empty" for s
    using that by (intro bit_word_eqI) (simp add: bit_presence_of)
  then show ?thesis
    by (simp add: rpc_start_def setRequiredSourceMask_def recomputeExpectedMaskLocked_def setClientRejectErrorThreshold_def
        rpc_initial_def rpc_ok_def slots_ok_def unique_ok_def masks_ok_def mirrors_ok_def flag_def at0_def)
qed

section \<open>Handlers keep it\<close>

lemmas rpc_inv_defs = rpc_ok_def slots_ok_def unique_ok_def masks_ok_def mirrors_ok_def

text \<open>The slot is empty afterwards, and nothing else has moved.\<close>

definition slot_cleared :: "nat \<Rightarrow> RpcState \<Rightarrow> RpcState \<Rightarrow> bool" where
  "slot_cleared i s' s \<longleftrightarrow>
     rp_lastHeartbeat s' = (rp_lastHeartbeat s)(i := None) \<and> rp_type s' = (rp_type s)(i := None) \<and>
     rp_instance s' = (rp_instance s)(i := None) \<and> rp_heartbeatCount s' = (rp_heartbeatCount s)(i := None) \<and>
     rp_faultLatched s' = (rp_faultLatched s)(i := None) \<and> rp_missCount s' = (rp_missCount s)(i := None) \<and>
     rp_presence s' = presence_of s' \<and> rp_generation s' = rp_generation s \<and> rp_everPresent s' = rp_everPresent s \<and>
     rp_expected s' = rp_expected s \<and> rp_requiredDue s' = rp_requiredDue s \<and> rp_requiredMask s' = rp_requiredMask s \<and>
     rp_pending s' = rp_pending s \<and> rp_pendingSeen s' = rp_pendingSeen s"

lemma clear_cleared:
  "slot_cleared i (clearClientStateLocked cfg i s) s"
  "rp_peers (clearClientStateLocked cfg i s) = rp_peers s"
  "rp_missFast (clearClientStateLocked cfg i s) = (if i < rc_maxClients cfg then (rp_missFast s)(i := 0) else rp_missFast s)"
  "rp_faultFast (clearClientStateLocked cfg i s) = (if i < rc_maxClients cfg then (rp_faultFast s)(i := 0) else rp_faultFast s)"
  by (simp_all add: clearClientStateLocked_def Let_def slot_cleared_def clear_maps_def)

lemma cleared_ok:
  assumes "rpc_ok cfg s" "slot_cleared i s' s" "rp_peers s' = (rp_peers s)(i := None)"
    "rp_missFast s' = (if i < rc_maxClients cfg then (rp_missFast s)(i := 0) else rp_missFast s)"
    "rp_faultFast s' = (if i < rc_maxClients cfg then (rp_faultFast s)(i := 0) else rp_faultFast s)"
  shows "rpc_ok cfg s'"
proof -
  have inst: "clientInstanceLocked s' j = (if j = i then 0 else clientInstanceLocked s j)" for j
    using assms(2) by (simp add: slot_cleared_def clientInstanceLocked_def)
  have ty: "getClientType s' j = (if j = i then 0 else getClientType s j)" for j
    using assms(2) by (simp add: slot_cleared_def getClientType_def)
  have "slots_ok cfg s'" "unique_ok s'" "mirrors_ok cfg s'"
    using assms by (auto simp: rpc_inv_defs slot_cleared_def inst)
  moreover have "masks_ok s'"
    using assms by (auto simp: rpc_ok_def masks_ok_def slot_cleared_def inst ty)
  ultimately show ?thesis by (simp add: rpc_ok_def)
qed

lemma disconnect_ok:
  assumes "rpc_ok cfg s" "i < MAX_POSSIBLE_CLIENTS"
  shows "rpc_ok cfg (snd (disconnectClientLocked cfg i s))"
    and "slot_cleared i (snd (disconnectClientLocked cfg i s)) s"
    and "rp_peers (snd (disconnectClientLocked cfg i s)) = (rp_peers s)(i := None)"
proof -
  define s1 where "s1 = s\<lparr>rp_peers := (rp_peers s)(i := None)\<rparr>"
  have eq: "snd (disconnectClientLocked cfg i s) = clearClientStateLocked cfg i s1"
    using assms(2) by (simp add: disconnectClientLocked_def s1_def)
  show peers: "rp_peers (snd (disconnectClientLocked cfg i s)) = (rp_peers s)(i := None)"
    unfolding eq clear_cleared by (simp add: s1_def)
  show c: "slot_cleared i (snd (disconnectClientLocked cfg i s)) s"
    using clear_cleared(1) [of i cfg s1] unfolding eq by (simp add: slot_cleared_def s1_def)
  show "rpc_ok cfg (snd (disconnectClientLocked cfg i s))"
    by (rule cleared_ok [OF assms(1) c peers]) (simp_all add: eq clear_cleared s1_def)
qed

text \<open>A presence bit is one bit.\<close>

lemma presence_bit_single:
  assumes "presenceBitForClient ty k \<noteq> 0"
  obtains n where "n < 32" "presenceBitForClient ty k = push_bit n 1"
proof -
  consider "presenceBitForClient ty k = PSS_PRESENCE_SAFETY_MONITOR"
    | "presenceBitForClient ty k = PSS_PRESENCE_PERCEPTION_MONITOR"
    | "1 \<le> (ucast k :: u32)" "(ucast k :: u32) \<le> 8" "presenceBitForClient ty k = push_bit (unat ((ucast k :: u32) - 1)) 0x100"
    using assms by (auto simp: presenceBitForClient_def PSS_PRESENCE_MDX_INSTANCE_def split: if_splits)
  then show thesis
  proof cases
    case 3
    then have "unat ((ucast k :: u32) - 1) \<le> 7" by unat_arith
    moreover have "presenceBitForClient ty k = push_bit (unat ((ucast k :: u32) - 1) + 8) 1"
    proof -
      have "(0x100 :: u32) = push_bit 8 1" by simp
      then show ?thesis unfolding 3(3) by (simp only: push_bit_push_bit)
    qed
    ultimately show thesis by (intro that) simp_all
  qed (auto intro: that [of 0] that [of 1] simp: pss_enum)
qed

lemma presence_bit_subset:
  "presenceBitForClient ty k AND NOT a = 0 \<longleftrightarrow> presenceBitForClient ty k = 0 \<or> a AND presenceBitForClient ty k \<noteq> 0"
proof (cases "presenceBitForClient ty k = 0")
  case False
  obtain n where n: "n < 32" "presenceBitForClient ty k = push_bit n 1" by (rule presence_bit_single [OF False])
  then have "push_bit n 1 AND NOT a = 0 \<longleftrightarrow> bit a n"
    unfolding word_eq_0_bits [of "push_bit n 1 AND NOT a"]
    by (auto simp: bit_and_iff bit_not_iff bit_push_bit_iff bit_1_iff simp del: push_bit_of_1)
  then show ?thesis using False unfolding n(2) and_bit_iff [of a n] by blast
qed simp


lemma instance_frame:
  "rp_instance s' = rp_instance s \<Longrightarrow> clientInstanceLocked s' i = clientInstanceLocked s i"
  by (simp add: clientInstanceLocked_def)

lemma note_present_masks:
  "rp_everPresent (note_present b s) = (if b \<noteq> 0 \<and> rp_everPresent s AND b = 0 then rp_everPresent s OR b else rp_everPresent s)"
  "rp_presence (note_present b s) = (if b \<noteq> 0 then presence_of s else rp_presence s)"
  "rp_expected (note_present b s) =
     (if b \<noteq> 0 \<and> rp_everPresent s AND b = 0
      then (rp_everPresent s OR b) OR (if rp_requiredDue s then rp_requiredMask s else 0) else rp_expected s)"
proof -
  have "presence_of (s\<lparr>rp_everPresent := x\<rparr>) = presence_of s" for x
    by (intro presence_cong source_bit_cong) simp_all
  then show "rp_presence (note_present b s) = (if b \<noteq> 0 then presence_of s else rp_presence s)"
    by (simp add: note_present_def)
qed (simp_all add: note_present_def recomputeExpectedMaskLocked_def)

text \<open>
  What a handler may do to a registered or connected slot. The other slots keep their part of the state, and the
  presence mask is either recomputed or the slot contributes the same bit.
\<close>

definition touches :: "RpcCfg \<Rightarrow> nat \<Rightarrow> RpcState \<Rightarrow> RpcState \<Rightarrow> bool" where
  "touches cfg i s' s \<longleftrightarrow>
     (\<forall>j. j \<noteq> i \<longrightarrow>
        rp_peers s' j = rp_peers s j \<and> rp_lastHeartbeat s' j = rp_lastHeartbeat s j \<and> rp_type s' j = rp_type s j \<and>
        rp_instance s' j = rp_instance s j \<and> rp_heartbeatCount s' j = rp_heartbeatCount s j \<and>
        rp_faultLatched s' j = rp_faultLatched s j \<and> rp_missCount s' j = rp_missCount s j \<and>
        rp_missFast s' j = rp_missFast s j \<and> rp_faultFast s' j = rp_faultFast s j) \<and>
     (i < rc_maxClients cfg \<longrightarrow>
        rp_missFast s' i = at0 (rp_missCount s') i \<and> (rp_faultFast s' i \<noteq> 0 \<longleftrightarrow> flag (rp_faultLatched s') i)) \<and>
     (rp_presence s' = presence_of s' \<or> rp_presence s' = rp_presence s \<and> source_bit s' i = source_bit s i) \<and>
     rp_expected s' = rp_everPresent s' OR (if rp_requiredDue s' then rp_requiredMask s' else 0) \<and>
     rp_everPresent s AND NOT (rp_everPresent s') = 0"

lemma subset_mono: "a AND NOT b = 0 \<Longrightarrow> b AND NOT c = 0 \<Longrightarrow> a AND NOT c = 0" for a b c :: "'a::len word"
  by (simp add: word_eq_0_bits [of "_ AND _"] bit_simps)

lemma touched_other:
  assumes "touches cfg i s' s" "j \<noteq> i"
  shows "rp_type s' j = rp_type s j" "clientInstanceLocked s' j = clientInstanceLocked s j"
    "getClientType s' j = getClientType s j" "rp_heartbeatCount s' j = rp_heartbeatCount s j" "rp_peers s' j = rp_peers s j"
    "rp_lastHeartbeat s' j = rp_lastHeartbeat s j" "source_bit s' j = source_bit s j"
proof -
  show "source_bit s' j = source_bit s j"
    using assms by (intro source_bit_cong) (simp_all add: touches_def)
qed (use assms in \<open>simp_all add: touches_def getClientType_def clientInstanceLocked_def at0_def\<close>)

definition slot_ok :: "RpcCfg \<Rightarrow> RpcState \<Rightarrow> nat \<Rightarrow> bool" where
  "slot_ok cfg s i \<longleftrightarrow>
     (rp_peers s i \<noteq> None \<longrightarrow> i < rc_maxClients cfg \<and> rp_lastHeartbeat s i \<noteq> None) \<and>
     (rp_lastHeartbeat s i \<noteq> None \<longrightarrow> rp_peers s i \<noteq> None) \<and>
     (\<forall>ty. rp_type s i = Some ty \<longrightarrow> rp_peers s i \<noteq> None \<and> valid_client_type ty \<and>
        clientInstanceLocked s i \<le> PSS_MDX_INSTANCE_MAX \<and> (clientInstanceLocked s i \<noteq> 0 \<longrightarrow> ty = CLIENT_MDX))"

lemma slots_ok_iff: "slots_ok cfg s \<longleftrightarrow> (\<forall>i. slot_ok cfg s i)"
  by (auto simp: slots_ok_def slot_ok_def)

lemma touched_slots:
  assumes "slots_ok cfg s" "touches cfg i s' s" "slot_ok cfg s' i"
  shows "slots_ok cfg s'"
  unfolding slots_ok_iff
proof
  fix j
  show "slot_ok cfg s' j"
  proof (cases "j = i")
    case False
    then show ?thesis using assms(1) touched_other [OF assms(2) False] by (simp add: slots_ok_iff slot_ok_def)
  qed (simp add: assms(3))
qed

lemma touched_unique:
  assumes "unique_ok s" "touches cfg i s' s"
    and "\<And>ty j. rp_type s' i = Some ty \<Longrightarrow> singleton_type ty (clientInstanceLocked s' i) \<Longrightarrow>
        rp_type s j = Some ty \<Longrightarrow> clientInstanceLocked s j = clientInstanceLocked s' i \<Longrightarrow> j = i"
  shows "unique_ok s'"
  unfolding unique_ok_def
proof (intro allI impI)
  fix j k ty
  assume a: "rp_type s' j = Some ty" "rp_type s' k = Some ty" "clientInstanceLocked s' j = clientInstanceLocked s' k"
    "singleton_type ty (clientInstanceLocked s' j)"
  consider "j = i" "k = i" | "j = i" "k \<noteq> i" | "j \<noteq> i" "k = i" | "j \<noteq> i" "k \<noteq> i" by blast
  then show "j = k"
  proof cases
    case 2
    note k = touched_other(1,2) [OF assms(2) 2(2)]
    have "k = i" by (rule assms(3) [of ty]) (use a k 2(1) in \<open>simp_all only:\<close>)
    then show ?thesis using 2 by simp
  next
    case 3
    note j = touched_other(1,2) [OF assms(2) 3(1)]
    have "j = i" by (rule assms(3) [of ty]) (use a j 3(2) in \<open>simp_all only:\<close>)
    then show ?thesis using 3 by simp
  next
    case 4
    note j = touched_other(1,2) [OF assms(2) 4(1)] and k = touched_other(1,2) [OF assms(2) 4(2)]
    show ?thesis using a assms(1) unfolding j k unique_ok_def by blast
  qed simp
qed

lemma touched_mirrors: "mirrors_ok cfg s \<Longrightarrow> touches cfg i s' s \<Longrightarrow> mirrors_ok cfg s'"
  unfolding mirrors_ok_def touches_def at0_def flag_def by (metis (no_types))

lemma touched_masks:
  assumes "masks_ok s" and t: "touches cfg i s' s"
    and hb: "rp_heartbeatCount s' i \<noteq> None \<Longrightarrow> rp_type s' i \<noteq> None \<and>
        presenceBitForClient (getClientType s' i) (clientInstanceLocked s' i) AND NOT (rp_everPresent s') = 0"
  shows "masks_ok s'"
proof -
  have "source_bit s' i = source_bit s i \<Longrightarrow> source_bit s' j = source_bit s j" for j
    using touched_other(7) [OF t] by (cases "j = i") simp_all
  then have "source_bit s' i = source_bit s i \<Longrightarrow> presence_of s' = presence_of s" by (intro presence_cong)
  then have "rp_presence s' = presence_of s'"
    using t assms(1) by (auto simp: touches_def masks_ok_def)
  moreover have "rp_type s' j \<noteq> None \<and>
      presenceBitForClient (getClientType s' j) (clientInstanceLocked s' j) AND NOT (rp_everPresent s') = 0"
    if "rp_heartbeatCount s' j \<noteq> None" for j
  proof (cases "j = i")
    case False
    note o = touched_other [OF t False]
    have "rp_type s j \<noteq> None" "presenceBitForClient (getClientType s j) (clientInstanceLocked s j) AND NOT (rp_everPresent s) = 0"
      using that assms(1) unfolding o masks_ok_def by blast+
    moreover have "rp_everPresent s AND NOT (rp_everPresent s') = 0" using t by (simp add: touches_def)
    ultimately show ?thesis unfolding o using subset_mono by blast
  qed (use that hb in simp)
  ultimately show ?thesis using t by (simp add: masks_ok_def touches_def)
qed

lemma touches_ok:
  assumes "rpc_ok cfg s" "touches cfg i s' s" "slot_ok cfg s' i"
    and "\<And>ty j. rp_type s' i = Some ty \<Longrightarrow> singleton_type ty (clientInstanceLocked s' i) \<Longrightarrow>
        rp_type s j = Some ty \<Longrightarrow> clientInstanceLocked s j = clientInstanceLocked s' i \<Longrightarrow> j = i"
    and "rp_heartbeatCount s' i \<noteq> None \<Longrightarrow> rp_type s' i \<noteq> None \<and>
        presenceBitForClient (getClientType s' i) (clientInstanceLocked s' i) AND NOT (rp_everPresent s') = 0"
  shows "rpc_ok cfg s'"
  unfolding rpc_ok_def
proof (intro conjI)
  show "slots_ok cfg s'" "mirrors_ok cfg s'"
    using assms(1) touched_slots [OF _ assms(2,3)] touched_mirrors [OF _ assms(2)] by (simp_all add: rpc_ok_def)
  show "unique_ok s'"
    by (rule touched_unique [OF _ assms(2,4)]) (use assms(1) in \<open>simp_all add: rpc_ok_def\<close>)
  show "masks_ok s'"
    by (rule touched_masks [OF _ assms(2,5)]) (use assms(1) in \<open>simp_all add: rpc_ok_def\<close>)
qed

lemma subset_refl [simp]: "a AND NOT a = 0" for a :: "'a::len word"
  by simp

lemma subset_or: "a AND (NOT a AND NOT b) = 0" for a b :: "'a::len word"
  by (simp add: word_eq_0_bits [of "_ AND _"] bit_simps)

lemma registered_slot:
  assumes "rpc_ok cfg s" "rp_type s i = Some ty"
  shows "rp_peers s i \<noteq> None" "rp_lastHeartbeat s i \<noteq> None" "i < rc_maxClients cfg" "valid_client_type ty"
    "getClientType s i = ty" "ty \<noteq> 0"
proof -
  have s: "slot_ok cfg s i" using assms(1) by (simp add: rpc_ok_def slots_ok_iff)
  then show "rp_peers s i \<noteq> None" "rp_lastHeartbeat s i \<noteq> None" "i < rc_maxClients cfg" "valid_client_type ty"
    using assms(2) unfolding slot_ok_def by blast+
  then show "ty \<noteq> 0" by (auto simp: valid_client_type_def pss_fs)
qed (use assms in \<open>simp add: getClientType_def at0_def\<close>)

lemma getClientType_eq_0: "rpc_ok cfg s \<Longrightarrow> getClientType s i = 0 \<longleftrightarrow> rp_type s i = None"
  using registered_slot [of cfg s i] by (cases "rp_type s i") (auto simp: getClientType_def at0_def)

lemma heartbeat_ok:
  assumes ok: "rpc_ok cfg s" and ty: "rp_type s i = Some ty"
  shows "rpc_ok cfg (updateClientHeartbeat cfg nowNs i ty s)" (is "rpc_ok cfg ?s'")
proof (cases "flag (rp_faultLatched s) i")
  case False
  define t where "t = track_heartbeat cfg nowNs i s"
  define u where "u = count_heartbeat i False (if ty = CLIENT_SAFETY_MONITOR then sm_miss i 0 t else t)"
  define b where "b = presenceBitForClient ty (clientInstanceLocked s i)"
  note r = registered_slot [OF ok ty]
  have u: "rp_peers u = rp_peers s" "rp_type u = rp_type s" "rp_instance u = rp_instance s"
    "rp_lastHeartbeat u = (rp_lastHeartbeat s)(i \<mapsto> nowNs)" "rp_faultLatched u = rp_faultLatched s"
    "rp_faultFast u = rp_faultFast s" "rp_missCount u = (rp_missCount s)(i \<mapsto> 0)"
    "rp_missFast u = (rp_missFast s)(i := 0)" "rp_everPresent u = rp_everPresent s" "rp_expected u = rp_expected s"
    "rp_requiredDue u = rp_requiredDue s" "rp_requiredMask u = rp_requiredMask s" "rp_presence u = rp_presence s"
    "rp_heartbeatCount u = (rp_heartbeatCount s)(i \<mapsto> at0 (rp_heartbeatCount s) i + 1)"
    using r(3) by (simp_all add: u_def t_def)
  have inst: "clientInstanceLocked (note_present x u) j = clientInstanceLocked s j"
    "clientInstanceLocked u j = clientInstanceLocked s j" "getClientType (note_present x u) j = getClientType s j" for x j
    by (simp_all add: clientInstanceLocked_def getClientType_def u)
  have eq: "?s' = note_present b u"
    using False r(2) by (auto simp: updateClientHeartbeat_def Let_def u_def t_def b_def clientInstanceLocked_def)
  have p: "presence_of (note_present b u) = presence_of u"
    by (intro presence_cong source_bit_cong) simp_all
  have "source_bit (note_present b u) i = source_bit s i" if "b = 0"
    using that ty by (simp add: source_bit_def inst u b_def)
  then have "touches cfg i (note_present b u) s"
    using ok r(3) p by (auto simp: touches_def u note_present_masks rpc_ok_def mirrors_ok_def masks_ok_def subset_or)
  moreover have "slot_ok cfg (note_present b u) i"
    using ok r by (auto simp: slot_ok_def u inst rpc_ok_def slots_ok_iff)
  moreover have "b AND NOT (rp_everPresent (note_present b u)) = 0"
    by (simp only: b_def presence_bit_subset) (auto simp: note_present_masks u b_def bit.conj_disj_distrib2)
  ultimately show ?thesis
    unfolding eq using ty ok r(5)
    by (intro touches_ok [OF ok, of i]) (auto simp: inst u b_def rpc_ok_def unique_ok_def)
qed (simp add: updateClientHeartbeat_def ok)

lemma accept_fields:
  fixes cfg nowNs i ty k s
  assumes "i < rc_maxClients cfg"
  defines "s' \<equiv> accept_registration cfg nowNs i ty k s"
  shows "rp_peers s' = rp_peers s" "rp_type s' = (rp_type s)(i \<mapsto> ty)" "rp_instance s' = (rp_instance s)(i \<mapsto> k)"
    "rp_lastHeartbeat s' = (rp_lastHeartbeat s)(i \<mapsto> nowNs)" "rp_faultLatched s' = (rp_faultLatched s)(i \<mapsto> False)"
    "rp_faultFast s' = (rp_faultFast s)(i := 0)" "rp_missCount s' = (rp_missCount s)(i \<mapsto> 0)"
    "rp_missFast s' = (rp_missFast s)(i := 0)" "rp_everPresent s' = rp_everPresent s" "rp_expected s' = rp_expected s"
    "rp_requiredDue s' = rp_requiredDue s" "rp_requiredMask s' = rp_requiredMask s" "rp_presence s' = presence_of s'"
    "rp_heartbeatCount s' = (rp_heartbeatCount s)(i := None)" "rp_pendingSeen s' = rp_pendingSeen s"
  unfolding s'_def using assms(1) by (simp_all add: accept_registration_def Let_def)

lemma accept_ok:
  assumes ok: "rpc_ok cfg s" and peer: "rp_peers s i \<noteq> None"
    and ty: "valid_client_type ty" "k \<le> PSS_MDX_INSTANCE_MAX" "k \<noteq> 0 \<longrightarrow> ty = CLIENT_MDX"
    and uniq: "\<And>j. singleton_type ty k \<Longrightarrow> rp_type s j = Some ty \<Longrightarrow> clientInstanceLocked s j = k \<Longrightarrow> j = i"
  shows "rpc_ok cfg (accept_registration cfg nowNs i ty k s)" (is "rpc_ok cfg ?s'")
proof -
  have s: "slot_ok cfg s i" using ok by (simp add: rpc_ok_def slots_ok_iff)
  then have i: "i < rc_maxClients cfg" using peer by (simp add: slot_ok_def)
  note u = accept_fields [OF i, where nowNs = nowNs and ty = ty and k = k and s = s]
  have inst: "clientInstanceLocked ?s' i = k" by (simp add: clientInstanceLocked_def u)
  have "touches cfg i ?s' s"
    using ok u(13) by (auto simp: touches_def u(1-12,14) rpc_ok_def masks_ok_def)
  moreover have "slot_ok cfg ?s' i"
    using i peer ty by (simp add: slot_ok_def u inst)
  ultimately show ?thesis
    using uniq by (intro touches_ok [OF ok, of i]) (auto simp: inst u)
qed

lemma set_same_identity:
  assumes "rpc_ok cfg s" "cfg_ok cfg" "ty \<noteq> 0"
  shows "j \<in> set (same_identity s i ty k) \<longleftrightarrow> rp_type s j = Some ty \<and> clientInstanceLocked s j = k \<and> j \<noteq> i"
proof -
  have "rp_type s j = Some ty' \<Longrightarrow> j < MAX_POSSIBLE_CLIENTS \<and> rp_peers s j \<noteq> None" for ty'
    using registered_slot [OF assms(1), of j ty'] assms(2) by (auto simp: cfg_ok_def)
  then show ?thesis
    using assms(3) by (cases "rp_type s j") (auto simp: same_identity_def at0_def)
qed

lemma registration_ok:
  assumes ok: "rpc_ok cfg s" and cfg: "cfg_ok cfg" and peer: "rp_peers s i \<noteq> None"
  shows "rpc_ok cfg (snd (snd (validateAndAcceptRegistration cfg nowNs i req s)))" (is "rpc_ok cfg (snd (snd ?r))")
proof -
  define ty k where "ty = rq_payload0 req" and "k = request_instance req"
  define others where "others = (if singleton_type ty k then same_identity s i ty k else [])"
  note r = validateAndAcceptRegistration_def ty_def [symmetric] k_def [symmetric] Let_def others_def [symmetric]
  show ?thesis
  proof (cases "valid_client_type ty \<and> k \<le> PSS_MDX_INSTANCE_MAX \<and> (k \<noteq> 0 \<longrightarrow> ty = CLIENT_MDX)")
    case False
    then show ?thesis using ok by (auto simp: r not_le)
  next
    case True
    then have ty0: "ty \<noteq> 0" by (auto simp: valid_client_type_def pss_fs)
    note set = set_same_identity [OF ok cfg ty0, of _ i k]
    show ?thesis
    proof (cases "others = []")
      case True': True
      then have "singleton_type ty k \<Longrightarrow> rp_type s j = Some ty \<Longrightarrow> clientInstanceLocked s j = k \<Longrightarrow> j = i" for j
        using set [of j] unfolding others_def by (auto split: if_splits)
      then have "rpc_ok cfg (accept_registration cfg nowNs i ty k s)"
        using True by (intro accept_ok [OF ok peer]) auto
      then show ?thesis using ok True' by (simp add: r)
    next
      case False
      define t where "t = snd (disconnectClientLocked cfg (last others) s)"
      have last: "rp_type s (last others) = Some ty" "clientInstanceLocked s (last others) = k" "last others \<noteq> i" "singleton_type ty k"
        using last_in_set [OF False] set [of "last others"] False unfolding others_def by (auto split: if_splits)
      then have lt: "last others < MAX_POSSIBLE_CLIENTS"
        using registered_slot(3) [OF ok last(1)] cfg by (simp add: cfg_ok_def)
      note d = disconnect_ok [OF ok lt, folded t_def]
      have "j = i" if "rp_type t j = Some ty" "clientInstanceLocked t j = k" for j
      proof -
        have "j \<noteq> last others" "rp_type s j = Some ty" "clientInstanceLocked s j = k"
          using that d(2) by (auto simp: slot_cleared_def clientInstanceLocked_def split: if_splits)
        then show ?thesis using ok last by (auto simp: rpc_ok_def unique_ok_def)
      qed
      then have "rpc_ok cfg (accept_registration cfg nowNs i ty k t)"
        using True peer d(3) last(3) by (intro accept_ok [OF d(1)]) auto
      then show ?thesis using ok False by (simp add: r t_def case_prod_beta)
    qed
  qed
qed

lemma admit_fields:
  fixes cfg nowNs i peer s
  assumes "i < rc_maxClients cfg"
  defines "t \<equiv> clearClientStateLocked cfg i s" and "s' \<equiv> admit_peer cfg nowNs i peer s"
  shows "rp_peers s' = (rp_peers t)(i \<mapsto> peer)" "rp_type s' = rp_type t" "rp_instance s' = rp_instance t"
    "rp_lastHeartbeat s' = (rp_lastHeartbeat t)(i \<mapsto> nowNs)" "rp_faultLatched s' = (rp_faultLatched t)(i \<mapsto> False)"
    "rp_faultFast s' = (rp_faultFast t)(i := 0)" "rp_missCount s' = (rp_missCount t)(i \<mapsto> 0)"
    "rp_missFast s' = (rp_missFast t)(i := 0)" "rp_everPresent s' = rp_everPresent t" "rp_expected s' = rp_expected t"
    "rp_requiredDue s' = rp_requiredDue t" "rp_requiredMask s' = rp_requiredMask t" "rp_presence s' = rp_presence t"
    "rp_heartbeatCount s' = rp_heartbeatCount t" "rp_pendingSeen s' = rp_pendingSeen t"
  unfolding s'_def t_def using assms(1) by (simp_all add: admit_peer_def Let_def)

lemma admit_ok:
  assumes ok: "rpc_ok cfg s" and i: "i < rc_maxClients cfg"
  shows "rpc_ok cfg (admit_peer cfg nowNs i peer s)"
proof -
  define t where "t = clearClientStateLocked cfg i s"
  define t0 where "t0 = t\<lparr>rp_peers := (rp_peers t)(i := None)\<rparr>"
  note c = clear_cleared [where cfg = cfg and i = i and s = s, folded t_def]
  have p0: "presence_of t0 = presence_of t"
    by (intro presence_cong source_bit_cong) (simp_all add: t0_def)
  have ok0: "rpc_ok cfg t0"
    by (rule cleared_ok [OF ok, of i]) (use c p0 in \<open>simp_all add: t0_def slot_cleared_def\<close>)
  let ?s' = "admit_peer cfg nowNs i peer s"
  note u = admit_fields [OF i, where nowNs = nowNs and peer = peer and s = s, folded t_def]
  have none: "rp_type t0 i = None" "rp_heartbeatCount t0 i = None"
    using c(1) by (simp_all add: slot_cleared_def t0_def)
  have none': "rp_type t i = None" "rp_heartbeatCount t i = None" using none by (simp_all add: t0_def)
  have "source_bit ?s' i = source_bit t0 i" by (simp add: source_bit_def u none none')
  then have "touches cfg i ?s' t0"
    using ok0 by (auto simp: touches_def u t0_def rpc_ok_def masks_ok_def)
  moreover have "slot_ok cfg ?s' i" using i by (simp add: slot_ok_def u none')
  ultimately show ?thesis
    by (rule touches_ok [OF ok0]) (simp_all add: u none')
qed

section \<open>The heartbeat monitor keeps it\<close>

text \<open>The scan touches one client: a miss, and the latch when the budget is spent.\<close>

lemma tick_client_fields:
  fixes cfg nowNs i s td
  defines "s' \<equiv> fst (tick_client cfg nowNs i (s, td))"
  shows "rp_peers s' = rp_peers s" "rp_type s' = rp_type s" "rp_instance s' = rp_instance s"
    "rp_lastHeartbeat s' = rp_lastHeartbeat s" "rp_everPresent s' = rp_everPresent s" "rp_expected s' = rp_expected s"
    "rp_requiredDue s' = rp_requiredDue s" "rp_requiredMask s' = rp_requiredMask s"
    "rp_heartbeatCount s' = rp_heartbeatCount s" "rp_generation s' = rp_generation s" "rp_pending s' = rp_pending s"
    "rp_pendingSeen s' = rp_pendingSeen s"
    "j \<noteq> i \<Longrightarrow> rp_missCount s' j = rp_missCount s j \<and> rp_missFast s' j = rp_missFast s j \<and>
       rp_faultLatched s' j = rp_faultLatched s j \<and> rp_faultFast s' j = rp_faultFast s j"
    "rp_presence s' = presence_of s' \<or> rp_presence s' = rp_presence s \<and>
       (rp_faultLatched s' = rp_faultLatched s \<or> rp_type s i = None \<or>
        presenceBitForClient (getClientType s i) (clientInstanceLocked s i) = 0)"
  unfolding s'_def
  by (auto simp: tick_client_def Let_def getClientType_def at0_def clientInstanceLocked_def split: option.split)

lemma tick_client_ok:
  assumes ok: "rpc_ok cfg s" and hb: "rp_lastHeartbeat s i \<noteq> None"
  shows "rpc_ok cfg (fst (tick_client cfg nowNs i (s, td)))" (is "rpc_ok cfg ?s'")
proof -
  have slot: "slot_ok cfg s i" using ok by (simp add: rpc_ok_def slots_ok_iff)
  then have i: "i < rc_maxClients cfg" using hb by (auto simp: slot_ok_def)
  note f = tick_client_fields [where cfg = cfg and nowNs = nowNs and i = i and s = s and td = td]
  have inst: "clientInstanceLocked ?s' j = clientInstanceLocked s j" "getClientType ?s' j = getClientType s j" for j
    by (simp_all add: clientInstanceLocked_def getClientType_def f)
  have "rp_missFast s i = at0 (rp_missCount s) i" "rp_faultFast s i \<noteq> 0 \<longleftrightarrow> flag (rp_faultLatched s) i"
    using ok i by (simp_all add: rpc_ok_def mirrors_ok_def)
  then have m: "rp_missFast ?s' i = at0 (rp_missCount ?s') i" "rp_faultFast ?s' i \<noteq> 0 \<longleftrightarrow> flag (rp_faultLatched ?s') i"
    using i by (auto simp: tick_client_def Let_def split: option.split)
  have src: "source_bit ?s' i = source_bit s i"
    if "rp_faultLatched ?s' = rp_faultLatched s \<or> rp_type s i = None \<or>
        presenceBitForClient (getClientType s i) (clientInstanceLocked s i) = 0"
    using that by (cases "rp_type s i") (auto simp: source_bit_def inst f getClientType_def at0_def)
  have "touches cfg i ?s' s"
    unfolding touches_def
  proof (intro conjI allI impI)
    show "rp_presence ?s' = presence_of ?s' \<or> rp_presence ?s' = rp_presence s \<and> source_bit ?s' i = source_bit s i"
      using f(14) src by blast
  qed (use ok f m in \<open>simp_all add: rpc_ok_def masks_ok_def\<close>)
  moreover have "slot_ok cfg ?s' i" using slot by (simp add: slot_ok_def f inst)
  ultimately show ?thesis
    using ok by (intro touches_ok [OF ok]) (auto simp: f inst rpc_ok_def unique_ok_def masks_ok_def)
qed

lemma fold_tick_client_ok:
  assumes "rpc_ok cfg s" "\<forall>i \<in> set is. rp_lastHeartbeat s i \<noteq> None"
  shows "rpc_ok cfg (fst (fold (tick_client cfg nowNs) is (s, td)))"
  using assms
proof (induction "is" arbitrary: s td)
  case (Cons i "is")
  obtain s' td' where st: "tick_client cfg nowNs i (s, td) = (s', td')" by (metis surj_pair)
  have "rpc_ok cfg s'" "rp_lastHeartbeat s' = rp_lastHeartbeat s"
    using tick_client_ok [of cfg s i nowNs td] tick_client_fields(4) [of cfg nowNs i s td] Cons.prems st by simp_all
  then show ?case using Cons by (simp add: st)
qed simp

lemma tick_scan_ok: "rpc_ok cfg s \<Longrightarrow> rpc_ok cfg (fst (tick_scan cfg nowNs s))"
  unfolding tick_scan_def by (rule fold_tick_client_ok) simp_all

lemma tick_required_ok: "rpc_ok cfg s \<Longrightarrow> rpc_ok cfg (tick_required cfg nowNs s)"
  by (rule rpc_ok_frame [of cfg s]) (auto simp: tick_required_def Let_def same_slots_def recomputeExpectedMaskLocked_def expected_eq)

lemma publish_ok: "rpc_ok cfg s \<Longrightarrow> rpc_ok cfg (fold tick_publish td s)"
proof (induction td arbitrary: s)
  case (Cons i td)
  have "rpc_ok cfg (tick_publish i s)"
    by (rule rpc_ok_frame [OF Cons.prems]) (use Cons.prems in \<open>auto simp: tick_publish_def same_slots_def expected_eq\<close>)
  then show ?case using Cons.IH by simp
qed simp

section \<open>Every step keeps it\<close>

lemma noted_ok:
  "rpc_ok cfg s \<Longrightarrow> rpc_ok cfg (noteReportAccepted i p ty s)"
  "rpc_ok cfg s \<Longrightarrow> rpc_ok cfg (snd (noteReportRejected cfg i s))"
  by (rule rpc_ok_frame [of cfg s], assumption,
      auto simp: noteReportAccepted_def noteReportRejected_def Let_def same_slots_def expected_eq split: option.split)+

lemma world_frame [simp]:
  "rw_rpc (emit_out x w) = rw_rpc w" "rw_rpc (push_input c e w) = rw_rpc w" "rw_rpc (drop_peer p w) = rw_rpc w"
  "rw_rpc (on_rpc f w) = f (rw_rpc w)" "rw_rpc (injectMonitorLostSwFail t slot ty k w) = rw_rpc w"
  "rw_rpc (injectClientInputUnusableSwFail t i w) = rw_rpc w"
  by (auto simp: rpc_ops injectMonitorLostSwFail_def injectClientInputUnusableSwFail_def Let_def split: option.split)

lemma disconnect_rpc [simp]:
  "rw_rpc (disconnectClient cfg i w) = snd (disconnectClientLocked cfg i (rw_rpc w))"
  "rw_rpc (dropClient cfg t i w) = snd (disconnectClientLocked cfg i (rw_rpc w))"
  by (simp_all add: disconnectClient_def dropClient_def case_prod_beta Let_def)

lemma disconnect_rpc_ok: "cfg_ok cfg \<Longrightarrow> i < rc_maxClients cfg \<Longrightarrow> rpc_ok cfg s \<Longrightarrow> rpc_ok cfg (snd (disconnectClientLocked cfg i s))"
  by (rule disconnect_ok(1)) (auto simp: cfg_ok_def)

lemma judge_rpc [simp]: "rw_rpc (snd (judge_report cfg t i req w)) = rw_rpc w"
  by (simp add: judge_report_def admit_report_def Let_def case_prod_beta)

lemma handle_ok:
  assumes ok: "rpc_ok cfg (rw_rpc w)" and cfg: "cfg_ok cfg" and i: "i < rc_maxClients cfg" "rp_peers (rw_rpc w) i \<noteq> None"
  shows "rpc_ok cfg (rw_rpc (handle_request cfg t i peer req w))"
proof (cases "rq_msg req")
  case REGISTER_CLIENT
  have "rpc_ok cfg (snd (snd (validateAndAcceptRegistration cfg t i req (rw_rpc w))))"
    by (rule registration_ok [OF ok cfg i(2)])
  then show ?thesis
    using disconnect_rpc_ok [OF cfg i(1)] REGISTER_CLIENT
    by (auto simp: handle_request_def handle_register_def Let_def case_prod_beta split: option.split)
next
  case REPORT_SAFETY_EVENT
  then show ?thesis
    using ok noted_ok [OF ok] disconnect_rpc_ok [OF cfg i(1)]
    by (auto simp: handle_request_def handle_report_def Let_def case_prod_beta)
next
  case SEND_HEARTBEAT
  have "rpc_ok cfg (updateClientHeartbeat cfg t i (getClientType (rw_rpc w) i) (rw_rpc w))" if reg: "getClientType (rw_rpc w) i \<noteq> 0"
  proof -
    obtain ty where "rp_type (rw_rpc w) i = Some ty" using reg getClientType_eq_0 [OF ok, of i] by auto
    then show ?thesis using heartbeat_ok [OF ok] registered_slot(5) [OF ok] by metis
  qed
  then show ?thesis
    using ok disconnect_rpc_ok [OF cfg i(1)] SEND_HEARTBEAT by (auto simp: handle_request_def handle_heartbeat_def Let_def)
qed (use ok disconnect_rpc_ok [OF cfg i(1)] in \<open>auto simp: handle_request_def\<close>)

lemma find_upt: "find P [0..<n] = Some i \<Longrightarrow> i < n \<and> P i"
  by (auto simp: find_Some_iff)

lemma recv_ok:
  assumes "rpc_ok cfg (rw_rpc w)" "cfg_ok cfg"
  shows "rpc_ok cfg (rw_rpc (recv_step cfg t r w))"
  using assms disconnect_rpc_ok [OF assms(2)] handle_ok [OF assms]
  by (cases r) (auto simp: find_peer_def split: option.split dest!: find_upt)

lemma poll_ok:
  assumes "rpc_ok cfg (rw_rpc w)" "cfg_ok cfg"
  shows "rpc_ok cfg (rw_rpc (poll_event cfg t e w))"
  using assms disconnect_rpc_ok [OF assms(2)] admit_ok [OF assms(1)]
  by (cases e) (auto simp: find_peer_def split: option.split dest!: find_upt)

lemma never_registered_rpc [simp]: "rw_rpc (fold (report_never_registered t m) bs w) = rw_rpc w"
proof (induction bs arbitrary: w)
  case (Cons b bs)
  have "rw_rpc (report_never_registered t m b w) = rw_rpc w"
    by (auto simp: report_never_registered_def Let_def split: option.split)
  then show ?case using Cons by simp
qed simp

lemma process_pending_ok:
  "rpc_ok cfg (rw_rpc w) \<Longrightarrow> cfg_ok cfg \<Longrightarrow> rpc_ok cfg (rw_rpc (process_pending cfg t e w))"
  using disconnect_rpc_ok [of cfg "fst e" "rw_rpc w"] by (simp add: process_pending_def case_prod_beta Let_def)

lemma process_ok:
  assumes "rpc_ok cfg (rw_rpc w)" "cfg_ok cfg"
  shows "rpc_ok cfg (rw_rpc (processPendingDisconnects cfg t w))"
proof -
  have "rpc_ok cfg ((rw_rpc w)\<lparr>rp_pending := [], rp_pendingSeen := [], rp_neverPending := 0\<rparr>)"
    by (rule rpc_ok_frame [OF assms(1)]) (use assms(1) in \<open>simp_all add: same_slots_def expected_eq\<close>)
  moreover have "rpc_ok cfg (rw_rpc v) \<Longrightarrow> rpc_ok cfg (rw_rpc (fold (process_pending cfg t) es v))" for es v
    by (induction es arbitrary: v) (simp_all add: process_pending_ok assms(2))
  ultimately show ?thesis by (simp add: processPendingDisconnects_def Let_def)
qed

lemma rpc_step_ok:
  assumes "rpc_ok cfg (rw_rpc w)" "cfg_ok cfg"
  shows "rpc_ok cfg (rw_rpc (rpc_step cfg e w))"
proof (cases e)
  case (Tick t)
  then show ?thesis
    using tick_scan_ok [OF assms(1), of t] tick_required_ok [OF assms(1)] publish_ok [OF assms(1)] assms(1)
    by (auto simp: case_prod_beta Let_def split: TickPoint.split)
qed (use process_ok [OF assms] poll_ok [OF assms] recv_ok [OF assms] in simp_all)

lemma rpc_reachable_ok: "rpc_reachable cfg w \<Longrightarrow> cfg_ok cfg \<Longrightarrow> rpc_ok cfg (rw_rpc w)"
  by (induction rule: rpc_reachable.induct) (simp_all add: start_ok rpc_step_ok)

end
