(* ===== verification/Pss_Rpc_Safety.thy ===== *)
theory Pss_Rpc_Safety
  imports Pss_Rpc_Inv
begin

text \<open>
  What the RPC server promises the rest of the system: a presence report that names exactly the live sources, a
  loss that is always reported, a silent source that is found within its heartbeat budget, one SW_FAIL per episode of
  unusable input, and input-queue entries that the sender may rely on.
\<close>

section \<open>Losing a source\<close>

definition lost_record :: "nat \<Rightarrow> SafetyEvent \<Rightarrow> bool" where
  "lost_record n ev \<longleftrightarrow>
     se_type ev = SW_FAIL \<and>
     (\<exists>ty k. bit (presenceBitForClient ty k) n \<and> se_cause ev = monitorLostCause ty k \<and>
        fst (fm_objectID (se_fusionMetadata ev)) = presenceBitForClient ty k)"

definition appended :: "RpcWorld \<Rightarrow> RpcWorld \<Rightarrow> (int \<times> SafetyEvent) list \<Rightarrow> bool" where
  "appended w' w evs \<longleftrightarrow> tr_input (rw_trust w') = tr_input (rw_trust w) @ evs"

definition reported :: "nat \<Rightarrow> RpcWorld \<Rightarrow> RpcWorld \<Rightarrow> bool" where
  "reported n w' w \<longleftrightarrow> (\<exists>evs. appended w' w evs \<and> (\<exists>x \<in> set evs. lost_record n (snd x)))"

definition live :: "RpcState \<Rightarrow> nat \<Rightarrow> nat \<Rightarrow> bool" where
  "live s n i \<longleftrightarrow> i < MAX_POSSIBLE_CLIENTS \<and> bit (source_bit s i) n"

lemma live_iff:
  "live s n i \<longleftrightarrow> i < MAX_POSSIBLE_CLIENTS \<and> (\<exists>ty. rp_type s i = Some ty \<and> at0 (rp_heartbeatCount s) i \<noteq> 0 \<and>
     \<not> flag (rp_faultLatched s) i \<and> bit (presenceBitForClient ty (clientInstanceLocked s i)) n)"
  by (cases "rp_type s i") (auto simp: live_def source_bit_def)

lemma presence_live: "rpc_ok cfg s \<Longrightarrow> bit (rp_presence s) n \<longleftrightarrow> (\<exists>i. live s n i)"
  by (simp add: rpc_ok_def masks_ok_def bit_presence_of live_def)

lemma cleared_live: "slot_cleared i s' s \<Longrightarrow> live s' n j \<longleftrightarrow> j \<noteq> i \<and> live s n j"
  by (auto simp: live_iff slot_cleared_def clientInstanceLocked_def at0_def flag_def)

lemma world_trust [simp]:
  "rw_trust (emit_out x w) = rw_trust w" "rw_trust (drop_peer p w) = rw_trust w" "rw_trust (on_rpc f w) = rw_trust w"
  "rw_trust (disconnectClient cfg i w) = rw_trust w"
  by (auto simp: rpc_ops disconnectClient_def case_prod_beta Let_def split: option.split)

lemma appended_push [simp]:
  "tr_input (rw_trust (push_input c e w)) = tr_input (rw_trust w) @ [(c, e)]"
  by (simp add: push_input_def)

lemma lost_cause: "presenceBitForClient ty k \<noteq> 0 \<Longrightarrow> monitorLostCause ty k \<noteq> CAUSE_NONE"
  by (auto simp: monitorLostCause_def presenceBitForClient_def pss_enum split: if_splits)

lemma daemon_sw_fail_simps [simp]:
  "se_type (daemon_sw_fail t cause c b) = SW_FAIL" "se_cause (daemon_sw_fail t cause c b) = cause"
  "fst (fm_objectID (se_fusionMetadata (daemon_sw_fail t cause c b))) = b"
  by (simp_all add: daemon_sw_fail_def seal_event_def Let_def)

lemma inject_reported:
  assumes "bit (presenceBitForClient ty k) n"
  shows "reported n (injectMonitorLostSwFail t slot ty k w) w"
proof -
  have "presenceBitForClient ty k \<noteq> 0" using assms by auto
  then show ?thesis
    using assms by (auto simp: reported_def appended_def injectMonitorLostSwFail_def lost_cause lost_record_def Let_def)
qed


lemma live_type: "live s n i \<Longrightarrow> bit (presenceBitForClient (getClientType s i) (clientInstanceLocked s i)) n"
  by (auto simp: live_iff getClientType_def at0_def)


text \<open>A step that drops or disconnects a slot reports the source it held.\<close>

definition keeps :: "nat \<Rightarrow> RpcWorld \<Rightarrow> RpcWorld \<Rightarrow> bool" where
  "keeps n w' w \<longleftrightarrow> ((\<exists>i. live (rw_rpc w) n i) \<longrightarrow> (\<exists>i. live (rw_rpc w') n i) \<or> reported n w' w)"




text \<open>Chaining: what was reported stays in the queue.\<close>

lemma keeps_trans:
  assumes "keeps n v w" "keeps n u v" "appended v w es" "appended u v fs"
  shows "keeps n u w" "appended u w (es @ fs)"
proof -
  show a: "appended u w (es @ fs)" using assms(3,4) by (simp add: appended_def)
  have "reported n v w \<Longrightarrow> reported n u w" "reported n u v \<Longrightarrow> reported n u w"
    using assms(3,4) by (fastforce simp: reported_def appended_def)+
  then show "keeps n u w" using assms(1,2) by (auto simp: keeps_def)
qed

lemma inject_appended: "\<exists>es. appended (injectMonitorLostSwFail t slot ty k w) w es"
  by (auto simp: appended_def injectMonitorLostSwFail_def Let_def)

lemma pending_keeps:
  assumes ok: "rpc_ok cfg (rw_rpc w)" and cfg: "cfg_ok cfg"
  shows "keeps n (process_pending cfg t e w) w \<and> (\<exists>es. appended (process_pending cfg t e w) w es)"
proof -
  obtain slot gen where e: "e = (slot, gen)" by (metis surj_pair)
  let ?s = "rw_rpc w"
  show ?thesis
  proof (cases "slot < rc_maxClients cfg \<and> rp_generation ?s slot = gen \<and> rp_peers ?s slot \<noteq> None")
    case False
    then have "process_pending cfg t e w = w" by (auto simp: process_pending_def e)
    then show ?thesis by (auto simp: keeps_def appended_def)
  next
    case True
    define v where "v = (if presenceBitForClient (getClientType ?s slot) (clientInstanceLocked ?s slot) \<noteq> 0
        then injectMonitorLostSwFail t (Some slot) (getClientType ?s slot) (clientInstanceLocked ?s slot) w
        else if getClientType ?s slot \<noteq> 0
        then push_input (int slot) (daemon_sw_fail t CAUSE_HEARTBEAT_FAULT (of_nat slot) 0) w else w)"
    have eq: "process_pending cfg t e w = disconnectClient cfg slot v"
      using True by (auto simp: process_pending_def e v_def Let_def)
    have v: "rw_rpc v = ?s" by (simp add: v_def)
    have c: "slot_cleared slot (snd (disconnectClientLocked cfg slot ?s)) ?s"
      using disconnect_ok(2) [OF ok, of slot] True cfg by (simp add: cfg_ok_def)
    have "\<exists>es. appended v w es"
      using inject_appended by (auto simp: v_def appended_def)
    moreover have "reported n v w" if "live ?s n slot"
    proof -
      have "bit (presenceBitForClient (getClientType ?s slot) (clientInstanceLocked ?s slot)) n" by (rule live_type [OF that])
      then show ?thesis using inject_reported by (auto simp: v_def)
    qed
    ultimately show ?thesis
      unfolding eq keeps_def disconnect_rpc v cleared_live [OF c] by (auto simp: reported_def appended_def) metis+
  qed
qed

lemma pending_list_keeps:
  assumes "rpc_ok cfg (rw_rpc v)" "cfg_ok cfg"
  shows "keeps n (fold (process_pending cfg t) es v) v \<and> (\<exists>fs. appended (fold (process_pending cfg t) es v) v fs)"
  using assms(1)
proof (induction es arbitrary: v)
  case (Cons e es)
  let ?v = "process_pending cfg t e v"
  obtain xs where xs: "keeps n ?v v" "appended ?v v xs" using pending_keeps [OF Cons.prems assms(2)] by blast
  obtain ys where ys: "keeps n (fold (process_pending cfg t) es ?v) ?v" "appended (fold (process_pending cfg t) es ?v) ?v ys"
    using Cons.IH [OF process_pending_ok [OF Cons.prems assms(2)]] by blast
  show ?case using keeps_trans [OF xs(1) ys(1) xs(2) ys(2)] by auto
qed (auto simp: keeps_def appended_def)

lemma never_registered_appended: "\<exists>es. appended (fold (report_never_registered t m) bs x) x es"
proof (induction bs arbitrary: x)
  case (Cons b bs)
  have "\<exists>es. appended (report_never_registered t m b x) x es"
    using inject_appended by (auto simp: report_never_registered_def Let_def appended_def split: option.split)
  then show ?case using Cons [of "report_never_registered t m b x"] by (auto simp: appended_def)
qed (auto simp: appended_def)

text \<open>The sources that never registered come first, then the queue.\<close>

lemma process_split:
  assumes "rpc_ok cfg (rw_rpc w)"
  obtains u xs where "rw_rpc u = (rw_rpc w)\<lparr>rp_pending := [], rp_pendingSeen := [], rp_neverPending := 0\<rparr>"
    "rpc_ok cfg (rw_rpc u)" "appended u w xs"
    "processPendingDisconnects cfg t w = fold (process_pending cfg t) (rp_pending (rw_rpc w)) u"
proof -
  define v where "v = w\<lparr>rw_rpc := (rw_rpc w)\<lparr>rp_pending := [], rp_pendingSeen := [], rp_neverPending := 0\<rparr>\<rparr>"
  define u where "u = fold (report_never_registered t (rp_neverPending (rw_rpc w))) [0..<32] v"
  have "rpc_ok cfg (rw_rpc u)"
    unfolding u_def v_def never_registered_rpc
    by (simp, rule rpc_ok_frame [OF assms(1)]) (use assms(1) in \<open>simp_all add: same_slots_def expected_eq\<close>)
  moreover obtain xs where "appended u w xs"
    using never_registered_appended [of t "rp_neverPending (rw_rpc w)" "[0..<32]" v] by (auto simp: u_def v_def appended_def)
  ultimately show thesis
    by (intro that [of u xs]) (simp_all add: processPendingDisconnects_def Let_def u_def v_def)
qed













section \<open>The presence report\<close>

lemma small_instance:
  assumes "1 \<le> k" "k \<le> (8 :: u8)"
  shows "k \<in> {1, 2, 3, 4, 5, 6, 7, 8}"
proof -
  have "unat k \<in> {1..8}" using assms by (simp add: word_le_nat_alt)
  then have "unat k \<in> {1, 2, 3, 4, 5, 6, 7, 8}" by auto
  then show ?thesis by (auto simp: word_unat_eq_iff)
qed

lemma mdx_bits:
  "PSS_PRESENCE_MDX_INSTANCE 1 = 0x100" "PSS_PRESENCE_MDX_INSTANCE 2 = 0x200" "PSS_PRESENCE_MDX_INSTANCE 3 = 0x400"
  "PSS_PRESENCE_MDX_INSTANCE 4 = 0x800" "PSS_PRESENCE_MDX_INSTANCE 5 = 0x1000" "PSS_PRESENCE_MDX_INSTANCE 6 = 0x2000"
  "PSS_PRESENCE_MDX_INSTANCE 7 = 0x4000" "PSS_PRESENCE_MDX_INSTANCE 8 = 0x8000"
  by (simp_all add: PSS_PRESENCE_MDX_INSTANCE_def)

lemma presence_bit_inverse:
  assumes "presenceBitForClient ty k \<noteq> 0" "k \<noteq> 0 \<longrightarrow> ty = CLIENT_MDX"
  shows "clientForPresenceBit (presenceBitForClient ty k) = Some (ty, k)"
proof (cases "ty = CLIENT_MDX")
  case True
  then have "1 \<le> k" "k \<le> 8" using assms(1) by (auto simp: presenceBitForClient_def pss_fs split: if_splits)
  from small_instance [OF this] show ?thesis
    by (elim insertE emptyE) (simp_all add: True presenceBitForClient_def clientForPresenceBit_def mdx_bits pss_fs pss_enum)
next
  case False
  then show ?thesis
    using assms by (auto simp: presenceBitForClient_def clientForPresenceBit_def split: if_splits) (simp add: pss_enum)
qed

text \<open>A bit of the mask has one owner.\<close>

lemma presence_bit_eq:
  assumes "bit (presenceBitForClient ty k) n" "bit (presenceBitForClient ty' k') n"
  shows "presenceBitForClient ty k = presenceBitForClient ty' k'"
proof -
  have nz: "presenceBitForClient ty k \<noteq> 0" "presenceBitForClient ty' k' \<noteq> 0" using assms by auto
  obtain m where m: "presenceBitForClient ty k = push_bit m 1" by (rule presence_bit_single [OF nz(1)])
  obtain m' where m': "presenceBitForClient ty' k' = push_bit m' 1" by (rule presence_bit_single [OF nz(2)])
  from m m' have "m = n" "m' = n" using assms by (auto simp: bit_push_bit_iff bit_1_iff simp del: push_bit_of_1)
  then show ?thesis using m m' by simp
qed

definition registered_as :: "RpcState \<Rightarrow> nat \<Rightarrow> nat \<Rightarrow> bool" where
  "registered_as s n i \<longleftrightarrow> bit (presenceBitForClient (getClientType s i) (clientInstanceLocked s i)) n"

lemma registered_unique:
  assumes ok: "rpc_ok cfg s" and "registered_as s n i" "registered_as s n j"
  shows "i = j"
proof -
  have "presenceBitForClient 0 k = 0" for k by (simp add: presenceBitForClient_def pss_fs)
  then have "rp_type s i \<noteq> None" "rp_type s j \<noteq> None"
    using assms(2,3) by (auto simp: registered_as_def getClientType_def at0_def split: option.splits)
  then obtain ty ty' where t: "rp_type s i = Some ty" "bit (presenceBitForClient ty (clientInstanceLocked s i)) n"
    "rp_type s j = Some ty'" "bit (presenceBitForClient ty' (clientInstanceLocked s j)) n"
    using assms(2,3) by (auto simp: registered_as_def getClientType_def at0_def)
  have m: "clientInstanceLocked s i \<noteq> 0 \<longrightarrow> ty = CLIENT_MDX" "clientInstanceLocked s j \<noteq> 0 \<longrightarrow> ty' = CLIENT_MDX"
    using ok t(1,3) by (auto simp: rpc_ok_def slots_ok_def)
  have nz: "presenceBitForClient ty (clientInstanceLocked s i) \<noteq> 0" using t(2) by auto
  have "Some (ty, clientInstanceLocked s i) = Some (ty', clientInstanceLocked s j)"
    using presence_bit_inverse [OF _ m(1)] presence_bit_inverse [OF _ m(2)] nz presence_bit_eq [OF t(2,4)] by metis
  moreover have "singleton_type ty (clientInstanceLocked s i)"
    using nz by (auto simp: singleton_type_def presenceBitForClient_def split: if_splits)
  ultimately show ?thesis using ok t(1,3) by (auto simp: rpc_ok_def unique_ok_def)
qed

lemma live_registered: "live s n i \<Longrightarrow> registered_as s n i"
  by (simp add: registered_as_def live_type)

lemmas live_unique = registered_unique [OF _ live_registered live_registered]

text \<open>
  C6. The presence report is exact. In every state that the server and the heartbeat monitor reach together, a bit of
  the reported mask is set if and only if a connected client registered with that identity, has sent a heartbeat since
  and is not latched; no second client holds the identity, and every source present is expected.
\<close>

theorem presence_report_exact:
  assumes "rpc_reachable cfg w" "rc_maxClients cfg \<le> MAX_POSSIBLE_CLIENTS"
  defines "s \<equiv> rw_rpc w" and "v \<equiv> rpc_view cfg (rw_rpc w)"
  shows "(bit (rv_presenceMask v) n \<longleftrightarrow>
      (\<exists>!i. i < rc_maxClients cfg \<and> rp_peers s i \<noteq> None \<and> at0 (rp_heartbeatCount s) i \<noteq> 0 \<and> \<not> flag (rp_faultLatched s) i \<and>
         bit (presenceBitForClient (getClientType s i) (clientInstanceLocked s i)) n)) \<and>
    rv_presenceMask v AND NOT (rv_expectedMask v) = 0"
proof -
  have cfg: "cfg_ok cfg" using assms(2) by (simp add: cfg_ok_def)
  note ok = rpc_reachable_ok [OF assms(1) cfg, folded s_def]
  have "presenceBitForClient 0 k = 0" for k by (simp add: presenceBitForClient_def pss_fs)
  then have live: "live s n i \<longleftrightarrow> i < rc_maxClients cfg \<and> rp_peers s i \<noteq> None \<and> at0 (rp_heartbeatCount s) i \<noteq> 0 \<and>
      \<not> flag (rp_faultLatched s) i \<and> bit (presenceBitForClient (getClientType s i) (clientInstanceLocked s i)) n" for n i
    using registered_slot [OF ok, of i] assms(2)
    by (cases "rp_type s i") (auto simp: live_iff getClientType_def at0_def)
  have "(\<exists>i. live s n i) \<longleftrightarrow> (\<exists>!i. live s n i)" using live_unique [OF ok] by blast
  then have "bit (rv_presenceMask v) n \<longleftrightarrow> (\<exists>!i. live s n i)"
    using presence_live [OF ok] by (simp add: v_def rpc_view_def s_def)
  moreover have "rp_presence s AND NOT (rp_expected s) = 0"
  proof (rule word_and_eq_0I)
    fix m assume "bit (rp_presence s) m" and e: "bit (NOT (rp_expected s)) m"
    then obtain i where i: "live s m i" using presence_live [OF ok] by blast
    then have "rp_heartbeatCount s i \<noteq> None" by (auto simp: live_iff at0_def split: option.splits)
    then have "presenceBitForClient (getClientType s i) (clientInstanceLocked s i) AND NOT (rp_everPresent s) = 0"
      using ok by (simp add: rpc_ok_def masks_ok_def)
    then have "bit (rp_everPresent s) m"
      using live_type [OF i] bit_imp_le_length [OF live_type [OF i]]
      by (simp add: word_eq_0_bits [of "_ AND _"] bit_simps)
    then show False using e expected_eq [OF ok] by (simp add: bit_simps)
  qed
  ultimately show ?thesis unfolding live by (simp add: v_def rpc_view_def s_def)
qed

section \<open>A silent source\<close>

text \<open>What a tick leaves alone: all of a slot but its miss count and its latch, and those of another slot.\<close>

definition slot_frame :: "nat \<Rightarrow> RpcState \<Rightarrow> RpcState \<Rightarrow> bool" where
  "slot_frame i s' s \<longleftrightarrow>
     rp_type s' i = rp_type s i \<and> rp_instance s' i = rp_instance s i \<and> rp_lastHeartbeat s' i = rp_lastHeartbeat s i \<and>
     rp_peers s' i = rp_peers s i \<and> rp_generation s' i = rp_generation s i"

definition hb_frame :: "nat \<Rightarrow> RpcState \<Rightarrow> RpcState \<Rightarrow> bool" where
  "hb_frame i s' s \<longleftrightarrow>
     slot_frame i s' s \<and> rp_missCount s' i = rp_missCount s i \<and> rp_faultLatched s' i = rp_faultLatched s i"






text \<open>The hand-over puts the slot in the queue with its generation.\<close>

lemma publish_pending:
  assumes "fold tick_publish td s = s'"
  shows "rp_generation s' = rp_generation s \<and> hb_frame i s' s \<and>
    (i \<in> set (rp_pendingSeen s') \<longleftrightarrow> i \<in> set (rp_pendingSeen s) \<or> i \<in> set td) \<and>
    (i \<in> set td \<longrightarrow> i \<notin> set (rp_pendingSeen s) \<longrightarrow> i < MAX_POSSIBLE_CLIENTS \<longrightarrow> (i, rp_generation s i) \<in> set (rp_pending s')) \<and>
    set (rp_pending s) \<subseteq> set (rp_pending s')"
  using assms
proof (induction td arbitrary: s)
  case (Cons j td)
  have "fold tick_publish td (tick_publish j s) = s'" using Cons.prems by simp
  note ih = Cons.IH [OF this]
  show ?case
  proof (cases "j \<in> set (rp_pendingSeen s)")
    case True
    then have "tick_publish j s = s" by (simp add: tick_publish_def)
    then show ?thesis using ih True by auto
  next
    case False
    have p: "hb_frame i (tick_publish j s) s" "rp_generation (tick_publish j s) = rp_generation s"
      "set (rp_pendingSeen (tick_publish j s)) = insert j (set (rp_pendingSeen s))"
      "set (rp_pending (tick_publish j s)) = insert (j, if j < MAX_POSSIBLE_CLIENTS then rp_generation s j else 0) (set (rp_pending s))"
      using False by (simp_all add: tick_publish_def hb_frame_def slot_frame_def)
    show ?thesis using ih p by (auto simp: hb_frame_def slot_frame_def)
  qed
qed (simp add: hb_frame_def slot_frame_def)







text \<open>The server then reports the source and frees the slot.\<close>

lemma pending_stays_free:
  assumes "rp_peers (rw_rpc x) i = None" "rpc_ok cfg (rw_rpc x)" "cfg_ok cfg"
  shows "rp_peers (rw_rpc (fold (process_pending cfg t) es x)) i = None"
  using assms(1,2)
proof (induction es arbitrary: x)
  case (Cons f es)
  have "rp_peers (rw_rpc (process_pending cfg t f x)) i = None"
    using Cons.prems disconnect_ok(3) [OF Cons.prems(2), of "fst f"] assms(3)
    by (auto simp: process_pending_def case_prod_beta Let_def cfg_ok_def)
  then show ?case using Cons.IH process_pending_ok [OF Cons.prems(2) assms(3)] by simp
qed simp

lemma pending_reports:
  assumes "rpc_ok cfg (rw_rpc w)" "cfg_ok cfg" "i < rc_maxClients cfg" "(i, rp_generation (rw_rpc w) i) \<in> set es"
    "rp_peers (rw_rpc w) i \<noteq> None" "registered_as (rw_rpc w) n i"
  shows "reported n (fold (process_pending cfg t) es w) w \<and> rp_peers (rw_rpc (fold (process_pending cfg t) es w)) i = None"
  using assms(1,4-6)
proof (induction es arbitrary: w)
  case (Cons e es)
  obtain j g where e: "e = (j, g)" by (metis surj_pair)
  let ?v = "process_pending cfg t e w"
  have okv: "rpc_ok cfg (rw_rpc ?v)" by (rule process_pending_ok [OF Cons.prems(1) assms(2)])
  obtain xs where xs: "appended ?v w xs" using pending_keeps [OF Cons.prems(1) assms(2)] by blast
  obtain ys where ys: "appended (fold (process_pending cfg t) es ?v) ?v ys" using pending_list_keeps [OF okv assms(2)] by blast
  show ?case
  proof (cases "j = i \<and> g = rp_generation (rw_rpc w) i")
    case True
    have d: "rw_rpc ?v = snd (disconnectClientLocked cfg i (rw_rpc w))"
      using True Cons.prems(3) assms(3) by (auto simp: e process_pending_def Let_def)
    have "presenceBitForClient (getClientType (rw_rpc w) i) (clientInstanceLocked (rw_rpc w) i) \<noteq> 0"
      using Cons.prems(4) by (auto simp: registered_as_def)
    then have "rw_trust ?v = rw_trust (injectMonitorLostSwFail t (Some i) (getClientType (rw_rpc w) i) (clientInstanceLocked (rw_rpc w) i) w)"
      using True Cons.prems(3) assms(3) by (auto simp: e process_pending_def Let_def)
    then have "reported n ?v w"
      using inject_reported [OF Cons.prems(4) [unfolded registered_as_def], of t "Some i" w] by (simp add: reported_def appended_def)
    then have "reported n (fold (process_pending cfg t) es ?v) w"
      using ys by (fastforce simp: reported_def appended_def)
    moreover have "rp_peers (rw_rpc ?v) i = None"
      using d disconnect_ok(3) [OF Cons.prems(1), of i] assms(2,3) by (simp add: cfg_ok_def)
    ultimately show ?thesis using pending_stays_free [OF _ okv assms(2)] by simp
  next
    case False
    have "(i, rp_generation (rw_rpc w) i) \<in> set es" using Cons.prems(2) False e by auto
    moreover have "rp_generation (rw_rpc ?v) i = rp_generation (rw_rpc w) i \<and> rp_peers (rw_rpc ?v) i \<noteq> None \<and> registered_as (rw_rpc ?v) n i"
      using False Cons.prems(1,3,4) disconnect_ok(2,3) [OF Cons.prems(1), of j] assms(2)
      by (auto simp: e process_pending_def Let_def cfg_ok_def slot_cleared_def registered_as_def getClientType_def clientInstanceLocked_def)
    ultimately have "reported n (fold (process_pending cfg t) es ?v) ?v \<and> rp_peers (rw_rpc (fold (process_pending cfg t) es ?v)) i = None"
      using Cons.IH [OF okv] by simp
    then show ?thesis using xs ys by (fastforce simp: reported_def appended_def)
  qed
qed simp


section \<open>Unusable input\<close>

definition required_source :: "RpcCfg \<Rightarrow> RpcState \<Rightarrow> nat \<Rightarrow> bool" where
  "required_source cfg s i \<longleftrightarrow>
     identity_required s i \<or> (\<exists>p. rp_established s i = Some p \<and> IsRequiredSourcePipeline (rc_source cfg) p)"

definition reject :: "RpcCfg \<Rightarrow> nat \<Rightarrow> RpcState \<Rightarrow> RpcState" where
  "reject cfg i s = snd (noteReportRejected cfg i s)"

text \<open>The state after so many rejections in a row.\<close>

definition streak_at :: "RpcCfg \<Rightarrow> nat \<Rightarrow> nat \<Rightarrow> RpcState \<Rightarrow> bool" where
  "streak_at cfg i n s \<longleftrightarrow>
     unat (at0 (rp_streak s) i) = n \<and>
     (flag (rp_raised s) i \<longleftrightarrow> required_source cfg s i \<and> unat (rp_threshold s) \<le> n)"

lemma reject_fields:
  "rp_type (reject cfg i s) = rp_type s" "rp_instance (reject cfg i s) = rp_instance s"
  "rp_established (reject cfg i s) = rp_established s" "rp_requiredMask (reject cfg i s) = rp_requiredMask s"
  "rp_threshold (reject cfg i s) = rp_threshold s" "at0 (rp_streak (reject cfg i s)) i = at0 (rp_streak s) i + 1"
  by (simp_all add: reject_def noteReportRejected_def Let_def split: option.split)

lemma reject_required: "required_source cfg (reject cfg i s) i = required_source cfg s i"
  by (cases "rp_type s i") (simp_all add: required_source_def identity_required_def clientInstanceLocked_def reject_fields)

lemma reject_escalates:
  "fst (noteReportRejected cfg i s) \<longleftrightarrow>
     rp_threshold s \<le> at0 (rp_streak s) i + 1 \<and> \<not> flag (rp_raised s) i \<and> required_source cfg s i"
  "flag (rp_raised (reject cfg i s)) i \<longleftrightarrow> flag (rp_raised s) i \<or> fst (noteReportRejected cfg i s)"
  by (auto simp: reject_def noteReportRejected_def Let_def required_source_def identity_required_def clientInstanceLocked_def
      not_less split: option.splits if_splits)

lemma streak_step:
  assumes "streak_at cfg i n s" "Suc n < 2 ^ 32" "0 < rp_threshold s"
  shows "streak_at cfg i (Suc n) (reject cfg i s)"
    and "fst (noteReportRejected cfg i s) \<longleftrightarrow> required_source cfg s i \<and> Suc n = unat (rp_threshold s)"
proof -
  have u: "unat (at0 (rp_streak s) i + 1) = Suc n"
    using assms(1,2) by (simp add: streak_at_def unat_word_ariths)
  then show e: "fst (noteReportRejected cfg i s) \<longleftrightarrow> required_source cfg s i \<and> Suc n = unat (rp_threshold s)"
    using assms(1) unfolding reject_escalates(1) streak_at_def word_le_nat_alt by auto
  show "streak_at cfg i (Suc n) (reject cfg i s)"
    unfolding streak_at_def reject_required reject_escalates(2) e reject_fields
    using u assms(1) by (auto simp: streak_at_def)
qed

lemma streak_run:
  assumes "streak_at cfg i 0 s" "n < 2 ^ 32" "0 < rp_threshold s"
  shows "streak_at cfg i n ((reject cfg i ^^ n) s)" "required_source cfg ((reject cfg i ^^ n) s) i = required_source cfg s i"
    "rp_threshold ((reject cfg i ^^ n) s) = rp_threshold s" "rp_type ((reject cfg i ^^ n) s) = rp_type s"
    "rp_instance ((reject cfg i ^^ n) s) = rp_instance s"
  using assms(2) by (induction n) (use assms streak_step in \<open>auto simp: reject_required reject_fields\<close>)

text \<open>The identities of the clients lie in the layout of the input-state report.\<close>

lemma input_identity_mask: "rpc_ok cfg s \<Longrightarrow> inputIdentityLocked s i AND PSS_INPUT_STATE_MASK = inputIdentityLocked s i"
proof -
  have "PSS_PRESENCE_MDX_INSTANCE (ucast k) AND PSS_INPUT_STATE_MASK = PSS_PRESENCE_MDX_INSTANCE (ucast k)" if "1 \<le> k" "k \<le> (8 :: u8)" for k
    using small_instance [OF that] by (elim insertE emptyE) (simp_all add: mdx_bits pss_enum)
  then have "presenceBitForClient ty k AND PSS_INPUT_STATE_MASK = presenceBitForClient ty k" for ty k
    by (auto simp: presenceBitForClient_def pss_fs) (simp_all add: pss_enum)
  then show ?thesis
    by (auto simp: inputIdentityLocked_def Let_def split: option.split) (simp add: pss_enum)
qed

lemma identity_cong:
  "rp_type s' i = rp_type s i \<Longrightarrow> rp_instance s' i = rp_instance s i \<Longrightarrow> inputIdentityLocked s' i = inputIdentityLocked s i"
  by (cases "rp_type s i") (simp_all add: inputIdentityLocked_def clientInstanceLocked_def at0_def)

lemma streak_frame:
  "identity_required (s\<lparr>rp_streak := x\<rparr>) i = identity_required s i"
  "inputIdentityLocked (s\<lparr>rp_streak := x\<rparr>) i = inputIdentityLocked s i"
  "inputIdentityLocked (s\<lparr>rp_raised := y\<rparr>) i = inputIdentityLocked s i"
  by (cases "rp_type s i"; simp add: identity_required_def clientInstanceLocked_def) (rule identity_cong; simp)+

lemma reject_raises:
  assumes "fst (noteReportRejected cfg i s)"
  shows "reject cfg i s = recomputeInputStateLocked
    (s\<lparr>rp_streak := (rp_streak s)(i \<mapsto> at0 (rp_streak s) i + 1), rp_raised := (rp_raised s)(i \<mapsto> True),
       rp_inputConfirmed := rp_inputConfirmed s AND NOT (inputIdentityLocked s i)\<rparr>)"
proof -
  have c: "\<not> at0 (rp_streak s) i + 1 < rp_threshold s" "\<not> flag (rp_raised s) i" "required_source cfg s i"
    using assms unfolding reject_escalates(1) by auto
  then have "\<not> (rp_established s i = None \<and> \<not> identity_required s i)"
    "identity_required s i \<or> (case rp_established s i of None \<Rightarrow> False | Some p \<Rightarrow> IsRequiredSourcePipeline (rc_source cfg) p)"
    by (auto simp: required_source_def split: option.split)
  then show ?thesis
    using c by (simp add: reject_def noteReportRejected_def Let_def streak_frame del: not_None_eq de_Morgan_conj)
qed

lemma bit_fold_unusable:
  "bit (fold (unusable_add s) is a) n \<longleftrightarrow> bit a n \<or> (\<exists>i \<in> set is. flag (rp_raised s) i \<and> bit (inputIdentityLocked s i) n)"
proof (induction "is" arbitrary: a)
  case (Cons i "is")
  have "bit (unusable_add s i a) n \<longleftrightarrow> bit a n \<or> flag (rp_raised s) i \<and> bit (inputIdentityLocked s i) n"
    by (auto simp: unusable_add_def bit_or_iff)
  then show ?case using Cons by auto
qed simp

lemma recompute_input:
  assumes "flag (rp_raised s) i" "i < MAX_POSSIBLE_CLIENTS" "rp_inputConfirmed s AND inputIdentityLocked s i = 0"
    "inputIdentityLocked s i AND PSS_INPUT_STATE_MASK = inputIdentityLocked s i"
  shows "inputIdentityLocked s i AND NOT (rp_unusablePublished (recomputeInputStateLocked s)) = 0"
    "inputIdentityLocked s i AND rp_confirmedPublished (recomputeInputStateLocked s) = 0"
proof -
  have in_mask: "bit (inputIdentityLocked s i) n \<Longrightarrow> bit PSS_INPUT_STATE_MASK n" for n
    using assms(4) by (metis bit_and_iff)
  have "i \<in> set (slots (rp_raised s))" using assms(1,2) by (simp add: flag_def)
  then have "bit (inputIdentityLocked s i) n \<Longrightarrow> bit (fold (unusable_add s) (slots (rp_raised s)) 0) n" for n
    unfolding bit_fold_unusable using assms(1) by blast
  then show "inputIdentityLocked s i AND NOT (rp_unusablePublished (recomputeInputStateLocked s)) = 0"
    using in_mask by (intro word_and_eq_0I) (auto simp: recomputeInputStateLocked_def bit_and_iff bit_not_iff bit_or_iff)
  show "inputIdentityLocked s i AND rp_confirmedPublished (recomputeInputStateLocked s) = 0"
    using assms(3) by (simp add: recomputeInputStateLocked_def and.commute and.left_commute)
qed

text \<open>
  C18. A required source whose reports are all rejected is escalated exactly once. After an accepted report of a client,
  the rejection that raises \<open>CAUSE_CLIENT_INPUT_UNUSABLE\<close> is the one whose number in the row is the configured
  threshold, and there is one only if the client's identity or its established pipeline is required. From that
  rejection on the published input state holds the client's identity as unusable and not as confirmed.
\<close>

theorem unusable_input_escalates_once:
  fixes p ety
  assumes "rpc_reachable cfg w" "rc_maxClients cfg \<le> MAX_POSSIBLE_CLIENTS" "i < MAX_POSSIBLE_CLIENTS"
    and "0 < rp_threshold (rw_rpc w)" "Suc n < 2 ^ 32"
  defines "s \<equiv> noteReportAccepted i p ety (rw_rpc w)"
  defines "sn \<equiv> (reject cfg i ^^ n) s"
  shows "(fst (noteReportRejected cfg i sn) \<longleftrightarrow> required_source cfg s i \<and> Suc n = unat (rp_threshold s)) \<and>
    (fst (noteReportRejected cfg i sn) \<longrightarrow>
       inputIdentityLocked s i AND NOT (rp_unusablePublished (reject cfg i sn)) = 0 \<and>
       inputIdentityLocked s i AND rp_confirmedPublished (reject cfg i sn) = 0)"
proof -
  have cfg: "cfg_ok cfg" using assms(2) by (simp add: cfg_ok_def)
  have ok: "rpc_ok cfg s" unfolding s_def by (rule noted_ok(1) [OF rpc_reachable_ok [OF assms(1) cfg]])
  have s: "rp_threshold s = rp_threshold (rw_rpc w)" "at0 (rp_streak s) i = 0" "\<not> flag (rp_raised s) i"
    by (simp_all add: s_def noteReportAccepted_def Let_def)
  then have "streak_at cfg i 0 s" using assms(4) by (simp add: streak_at_def word_less_nat_alt)
  note run = streak_run [OF this _, of n, folded sn_def]
  have t: "0 < rp_threshold s" "n < 2 ^ 32" using assms(4,5) s by simp_all
  note run = run [OF t(2,1)]
  have e: "fst (noteReportRejected cfg i sn) \<longleftrightarrow> required_source cfg s i \<and> Suc n = unat (rp_threshold s)"
    using streak_step(2) [OF run(1) assms(5)] run(2,3) t by simp
  have id: "inputIdentityLocked sn i = inputIdentityLocked s i"
    by (rule identity_cong) (simp_all add: run(4,5))
  have "inputIdentityLocked s i AND NOT (rp_unusablePublished (reject cfg i sn)) = 0 \<and>
      inputIdentityLocked s i AND rp_confirmedPublished (reject cfg i sn) = 0" if esc: "fst (noteReportRejected cfg i sn)"
  proof -
    define u where "u = sn\<lparr>rp_streak := (rp_streak sn)(i \<mapsto> at0 (rp_streak sn) i + 1), rp_raised := (rp_raised sn)(i \<mapsto> True),
      rp_inputConfirmed := rp_inputConfirmed sn AND NOT (inputIdentityLocked sn i)\<rparr>"
    have iu: "inputIdentityLocked u i = inputIdentityLocked sn i"
      by (rule identity_cong) (simp_all add: u_def)
    have "reject cfg i sn = recomputeInputStateLocked u" unfolding u_def by (rule reject_raises [OF esc])
    moreover have "rp_inputConfirmed u AND inputIdentityLocked u i = 0"
      unfolding iu by (intro word_and_eq_0I) (simp add: u_def bit_simps)
    ultimately show ?thesis
      using recompute_input [of u i] input_identity_mask [OF ok, of i] assms(3) iu id by (simp add: u_def flag_def)
  qed
  then show ?thesis using e by blast
qed

section \<open>The input queue\<close>

text \<open>
  What a step of the server does to the trust state and the input queue is what producers do to the event manager:
  validated events appended, and trust reports handed over.
\<close>

definition refines :: "PssManagerCfg \<Rightarrow> RpcWorld \<Rightarrow> RpcWorld \<Rightarrow> bool" where
  "refines mcfg w' w \<longleftrightarrow>
     (\<exists>ops. (\<forall>op \<in> set ops. producer_ok op) \<and>
        (\<forall>m. producers mcfg ops (m\<lparr>pm_trust := rw_trust w\<rparr>) = m\<lparr>pm_trust := rw_trust w'\<rparr>))"

lemma refines_refl: "rw_trust w' = rw_trust w \<Longrightarrow> refines mcfg w' w"
  unfolding refines_def by (intro exI [of _ "[]"]) (simp add: producers_def)

lemma refines_trans: "refines mcfg v w \<Longrightarrow> refines mcfg u v \<Longrightarrow> refines mcfg u w"
proof -
  assume "refines mcfg v w" "refines mcfg u v"
  then obtain xs ys where "\<forall>op \<in> set xs. producer_ok op" "\<forall>op \<in> set ys. producer_ok op"
    "\<And>m. producers mcfg xs (m\<lparr>pm_trust := rw_trust w\<rparr>) = m\<lparr>pm_trust := rw_trust v\<rparr>"
    "\<And>m. producers mcfg ys (m\<lparr>pm_trust := rw_trust v\<rparr>) = m\<lparr>pm_trust := rw_trust u\<rparr>"
    unfolding refines_def by blast
  then show "refines mcfg u w"
    unfolding refines_def by (intro exI [of _ "xs @ ys"]) (auto simp: producers_def)
qed

lemma refines_push: "validateSafetyEvent (Some e) = PSS_VALID \<Longrightarrow> refines mcfg (push_input c e w) w"
  unfolding refines_def by (intro exI [of _ "[ClientEvent c e]"]) (simp add: producers_def push_input_def)

lemma refines_cong: "rw_trust v' = rw_trust w' \<Longrightarrow> rw_trust v = rw_trust w \<Longrightarrow> refines mcfg v' v = refines mcfg w' w"
  by (simp add: refines_def)

lemma refines_rpc:
  "refines mcfg u (w\<lparr>rw_rpc := s\<rparr>) = refines mcfg u w" "refines mcfg (w\<lparr>rw_rpc := s\<rparr>) v = refines mcfg w v"
  by (simp_all add: refines_def)

lemma daemon_sw_fail_valid:
  assumes "(of_int t :: u64) \<noteq> 0" "cause < CAUSE_COUNT"
  shows "validateSafetyEvent (Some (daemon_sw_fail t cause c b)) = PSS_VALID"
  unfolding daemon_sw_fail_def
  by (rule sealed_event_validates)
    (use assms snprintf_identifier_terminated [of "''PSS_RPC''"] in
      \<open>simp add: client_event_ok_def seal_event_def Let_def confidence_one zero_metadata_def, simp add: pss_enum\<close>)

lemma refines_inject:
  assumes "(of_int t :: u64) \<noteq> 0"
  shows "refines mcfg (injectMonitorLostSwFail t slot ty k w) w"
proof -
  have "monitorLostCause ty k < CAUSE_COUNT" by (simp add: monitorLostCause_def pss_enum)
  then show ?thesis
    using assms by (simp add: injectMonitorLostSwFail_def Let_def refines_refl refines_push daemon_sw_fail_valid)
qed

lemma refines_drop: "(of_int t :: u64) \<noteq> 0 \<Longrightarrow> refines mcfg (dropClient cfg t i w) w"
  using refines_inject [of t mcfg "Some i" _ _ "disconnectClient cfg i w"] refines_cong [of _ _ "disconnectClient cfg i w" w]
  by (simp add: dropClient_def Let_def)

lemma refines_pending:
  assumes "(of_int t :: u64) \<noteq> 0"
  shows "refines mcfg (process_pending cfg t e w) w"
proof -
  have "validateSafetyEvent (Some (daemon_sw_fail t CAUSE_HEARTBEAT_FAULT c 0)) = PSS_VALID" for c
    by (rule daemon_sw_fail_valid [OF assms]) (simp add: pss_enum)
  then have "refines mcfg (push_input (int (fst e)) (daemon_sw_fail t CAUSE_HEARTBEAT_FAULT (of_nat (fst e)) 0) w) w"
    by (rule refines_push)
  moreover have "refines mcfg (disconnectClient cfg i v) w = refines mcfg v w" for i v by (rule refines_cong) simp_all
  ultimately show ?thesis
    using refines_inject [OF assms] by (simp add: process_pending_def case_prod_beta Let_def refines_refl)
qed

lemma refines_fold:
  "(\<And>x w. refines mcfg (f x w) w) \<Longrightarrow> refines mcfg (fold f xs w) w"
  by (induction xs arbitrary: w) (auto simp: refines_refl intro: refines_trans)

lemma refines_process:
  assumes "(of_int t :: u64) \<noteq> 0"
  shows "refines mcfg (processPendingDisconnects cfg t w) w"
proof -
  have "refines mcfg (report_never_registered t m b x) x" for m b x
    using refines_inject [OF assms] by (auto simp: report_never_registered_def Let_def refines_refl split: option.split)
  then have chain: "refines mcfg (fold (process_pending cfg t) es (fold (report_never_registered t m) bs x)) x" for es m bs x
    using refines_fold refines_pending [OF assms] refines_trans by metis
  show ?thesis
    unfolding processPendingDisconnects_def Let_def by (rule iffD1 [OF refines_rpc(1) chain])
qed

lemma refines_admit:
  assumes "(of_int t :: u64) \<noteq> 0" "mc_source mcfg = rc_source cfg"
  shows "refines mcfg (snd (admit_report cfg t i e w)) w"
proof (cases "validateSafetyEvent (Some e) = PSS_VALID")
  case True
  have "refines mcfg (snd (let (accept, x) = OnTrustReport (rc_source cfg) (of_int t) ty e (rw_trust w); w = w\<lparr>rw_trust := x\<rparr>
      in if \<not> accept then (REPORT_REJECTED_UNAUTHORIZED, w) else (REPORT_ACCEPTED, push_input (int i) e w))) w" for ty
    unfolding refines_def using True assms
    by (intro exI [of _ "[TrustReported (of_int t) (int i) ty e]"])
      (simp add: producers_def report_trust_def case_prod_beta Let_def push_input_def)
  then show ?thesis
    using refines_push [OF True] by (simp add: admit_report_def Let_def refines_refl)
qed (simp add: admit_report_def refines_refl)

lemma refines_report:
  assumes "(of_int t :: u64) \<noteq> 0" "mc_source mcfg = rc_source cfg"
  shows "refines mcfg (handle_report cfg t i peer req w) w"
proof (cases "getClientType (rw_rpc w) i = 0")
  case True
  then show ?thesis by (simp add: handle_report_def refines_refl)
next
  case False
  define v where "v = snd (judge_report cfg t i req w)"
  have v: "refines mcfg v w"
    using refines_admit [OF assms] by (simp add: v_def judge_report_def refines_refl)
  have "validateSafetyEvent (Some (daemon_sw_fail t CAUSE_CLIENT_INPUT_UNUSABLE c b)) = PSS_VALID" for c b
    by (rule daemon_sw_fail_valid [OF assms(1)]) (simp add: pss_enum)
  then have "refines mcfg (injectClientInputUnusableSwFail t i (v\<lparr>rw_rpc := s\<rparr>)) v" for s
    unfolding injectClientInputUnusableSwFail_def by (intro iffD1 [OF refines_rpc(1) refines_push])
  then have "refines mcfg (injectClientInputUnusableSwFail t i (v\<lparr>rw_rpc := s\<rparr>)) w" for s
    using v refines_trans by blast
  moreover have "refines mcfg (emit_out x u) w = refines mcfg u w" "refines mcfg (on_rpc f v) w" "refines mcfg (v\<lparr>rw_rpc := s\<rparr>) w" for x u f s
    using v refines_cong by (simp_all add: refines_def)
  ultimately show ?thesis
    using False by (simp add: handle_report_def case_prod_beta Let_def v_def [symmetric])
qed

lemma refines_request:
  assumes t: "(of_int t :: u64) \<noteq> 0" and "mc_source mcfg = rc_source cfg"
  shows "refines mcfg (handle_request cfg t i peer req w) w"
proof (cases "rq_msg req")
  case REGISTER_CLIENT
  have e: "refines mcfg (emit_out x u) v = refines mcfg u v" "refines mcfg u (w\<lparr>rw_rpc := s\<rparr>) = refines mcfg u w"
    "refines mcfg u (drop_peer p v) = refines mcfg u v" for x u v s p
    by (rule refines_cong; simp)+
  have inj: "refines mcfg (injectMonitorLostSwFail t slot ty k (drop_peer p (w\<lparr>rw_rpc := s\<rparr>))) w" for slot ty k p s
    using refines_inject [OF t, of mcfg slot ty k "drop_peer p (w\<lparr>rw_rpc := s\<rparr>)"] by (simp add: e)
  have "refines mcfg v w \<Longrightarrow> refines mcfg (dropClient cfg t i (emit_out x v)) w" for v x
    using refines_drop [OF t, of mcfg cfg i "emit_out x v"] refines_trans e(1) by metis
  then show ?thesis
    using REGISTER_CLIENT inj
    by (auto simp: handle_request_def handle_register_def case_prod_beta Let_def e refines_refl split: option.split)
next
  case REPORT_SAFETY_EVENT
  then show ?thesis using refines_report [OF assms] by (simp add: handle_request_def)
next
  case TERMINATE_CLIENT
  have "refines mcfg (dropClient cfg t i (emit_out x w)) w" for x
    using refines_drop [OF t, of mcfg cfg i "emit_out x w"] refines_cong [of _ _ "emit_out x w" w] by simp
  then show ?thesis using TERMINATE_CLIENT by (simp add: handle_request_def)
next
  case SEND_HEARTBEAT
  then show ?thesis
    using refines_drop [OF t] by (simp add: handle_request_def handle_heartbeat_def Let_def refines_refl)
qed (simp add: handle_request_def refines_refl)

fun step_time :: "RpcStep \<Rightarrow> int" where
  "step_time (Process t) = t"
| "step_time (Poll t e) = t"
| "step_time (Recv t r) = t"
| "step_time (Tick t) = t"

text \<open>
  C14. The server feeds the event manager as the manager's model expects. Every step of the server and of the heartbeat
  monitor acts on the trust state and the input queue as a sequence of producer operations of the manager does, each
  with an event that passes validation. The SW_FAILs the server makes itself are among them.
\<close>

theorem rpc_refines_producers:
  assumes "mc_source mcfg = rc_source cfg" "(of_int (step_time e) :: u64) \<noteq> 0"
  shows "\<exists>ops. (\<forall>op \<in> set ops. producer_ok op) \<and>
    (\<forall>m. producers mcfg ops (m\<lparr>pm_trust := rw_trust w\<rparr>) = m\<lparr>pm_trust := rw_trust (rpc_step cfg e w)\<rparr>)"
proof -
  have "refines mcfg (rpc_step cfg e w) w"
  proof (cases e)
    case (Process t) then show ?thesis using assms(2) by (simp add: refines_process)
  next
    case (Poll t p)
    then have t: "(of_int t :: u64) \<noteq> 0" using assms(2) by simp
    show ?thesis
      using refines_drop [OF t] by (cases p) (auto simp: Poll refines_refl split: option.split)
  next
    case (Recv t r)
    then have t: "(of_int t :: u64) \<noteq> 0" using assms(2) by simp
    show ?thesis
      using refines_drop [OF t] refines_request [OF t assms(1)]
      by (cases r) (auto simp: Recv refines_refl split: option.split)
  next
    case (Tick t)
    then show ?thesis by (auto simp: refines_refl case_prod_beta split: TickPoint.split)
  qed
  then show ?thesis unfolding refines_def .
qed

section \<open>The hand-over and the generation\<close>

text \<open>
  C38. The generation that guards a queued disconnect is read at the hand-over, after the scan has released the mutex.
  When the slot has changed hands in between, the entry carries the generation of the new client, and the server
  disconnects that client and reports its source lost, however recent its heartbeat.
\<close>

theorem handover_drops_successor:
  fixes t
  assumes "rpc_reachable cfg w" "rc_maxClients cfg \<le> MAX_POSSIBLE_CLIENTS"
    and "rw_tick w = Tick_required td" "i \<in> set td" "i \<notin> set (rp_pendingSeen (rw_rpc w))" "live (rw_rpc w) n i"
  defines "v \<equiv> rpc_step cfg (Tick t) w"
  shows "live (rw_rpc v) n i \<and> reported n (rpc_step cfg (Process t) v) v \<and> rp_peers (rw_rpc (rpc_step cfg (Process t) v)) i = None"
proof -
  have cfg: "cfg_ok cfg" using assms(2) by (simp add: cfg_ok_def)
  note ok = rpc_reachable_ok [OF assms(1) cfg]
  obtain ty where ty: "rp_type (rw_rpc w) i = Some ty" "i < MAX_POSSIBLE_CLIENTS" using assms(6) by (auto simp: live_iff)
  note r = registered_slot [OF ok ty(1)]
  have rv: "rw_rpc v = fold tick_publish td (rw_rpc w)" using assms(3) by (simp add: v_def)
  have okv: "rpc_ok cfg (rw_rpc v)" unfolding rv by (rule publish_ok [OF ok])
  have count: "rp_heartbeatCount (fold tick_publish td s) = rp_heartbeatCount s" for s
    by (induction td arbitrary: s) (simp_all add: tick_publish_def)
  note p = publish_pending [OF rv [symmetric], of i]
  have l: "live (rw_rpc v) n i"
    using assms(6) p count [of "rw_rpc w"] rv
    by (auto simp: live_iff hb_frame_def slot_frame_def clientInstanceLocked_def at0_def flag_def)
  obtain u xs where u: "rw_rpc u = (rw_rpc v)\<lparr>rp_pending := [], rp_pendingSeen := [], rp_neverPending := 0\<rparr>"
    "rpc_ok cfg (rw_rpc u)" "appended u v xs"
    and eq: "processPendingDisconnects cfg t v = fold (process_pending cfg t) (rp_pending (rw_rpc v)) u"
    by (rule process_split [OF okv])
  have "reported n (fold (process_pending cfg t) (rp_pending (rw_rpc v)) u) u \<and>
      rp_peers (rw_rpc (fold (process_pending cfg t) (rp_pending (rw_rpc v)) u)) i = None"
    using p assms(4,5) ty(2) r(1,3) live_registered [OF l] u(1)
    by (intro pending_reports [OF u(2) cfg])
      (auto simp: hb_frame_def slot_frame_def registered_as_def getClientType_def clientInstanceLocked_def)
  then show ?thesis
    using l u(3) unfolding rpc_step.simps eq by (fastforce simp: reported_def appended_def)
qed

section \<open>A run\<close>

text \<open>
  A Safety Monitor connects, registers and sends a heartbeat. Seven seconds later the scan latches it; before the
  hand-over a second monitor takes over its identity, and a numbered MDX client connects to the slot that came free.
\<close>

definition example_rpc_cfg :: RpcCfg where
  "example_rpc_cfg =
     \<lparr>rc_maxClients = MAX_CLIENTS, rc_maxFailures = 1, rc_warnThreshold = 0, rc_thresholdConfidence = 0,
      rc_source = source_cfg_initial\<rparr>"

definition example_req :: "NvPSSDRPCMsg \<Rightarrow> u8 \<Rightarrow> u8 \<Rightarrow> NvPSSDRPCMsgReq" where
  "example_req msg b0 b1 =
     \<lparr>rq_msg = msg, rq_reqSeqNo = 1, rq_size = 2, rq_payload0 = b0, rq_payload1 = b1,
      rq_event = \<lparr>se_id = 0, se_sensorIdentifier = [], se_type = 0, se_timestamp = 0, se_confidenceLevel = 0,
        se_processed = False, se_fusionMetadata = zero_metadata, se_cause = 0,
        se_integrity = \<lparr>mi_schemaVersion = 0, mi_crc32 = 0\<rparr>\<rparr>\<rparr>"

definition example_up_steps :: "RpcStep list" where
  "example_up_steps =
     [Poll 1 (Peer_connected 11), Recv 1 (Recv_message 11 (example_req REGISTER_CLIENT CLIENT_SAFETY_MONITOR 0)),
      Recv 1 (Recv_message 11 (example_req SEND_HEARTBEAT HB_MSG CLIENT_SAFETY_MONITOR))]"

definition example_swap_steps :: "RpcStep list" where
  "example_swap_steps =
     [Tick 7000000001, Tick 7000000001, Poll 7000000002 (Peer_connected 12),
      Recv 7000000002 (Recv_message 12 (example_req REGISTER_CLIENT CLIENT_SAFETY_MONITOR 0)),
      Poll 7000000002 (Peer_connected 13),
      Recv 7000000002 (Recv_message 13 (example_req REGISTER_CLIENT CLIENT_MDX 1)),
      Recv 7000000002 (Recv_message 13 (example_req SEND_HEARTBEAT HB_MSG CLIENT_MDX))]"

definition example_up :: RpcWorld where
  "example_up = fold (rpc_step example_rpc_cfg) example_up_steps (rpc_start 50 1 0 0)"

definition example_swapped :: RpcWorld where
  "example_swapped = fold (rpc_step example_rpc_cfg) example_swap_steps example_up"

lemma run_reachable: "rpc_reachable cfg w \<Longrightarrow> rpc_reachable cfg (fold (rpc_step cfg) es w)"
  by (induction es arbitrary: w) (simp_all add: rpc_reachable.step)


text \<open>The states of the server on the way; the queued SW_FAIL plays no part in them.\<close>

lemma world_tick [simp]:
  "rw_tick (emit_out x w) = rw_tick w" "rw_tick (push_input c e w) = rw_tick w" "rw_tick (drop_peer p w) = rw_tick w"
  "rw_tick (on_rpc f w) = rw_tick w" "rw_tick (injectMonitorLostSwFail t slot ty k w) = rw_tick w"
  by (auto simp: rpc_ops injectMonitorLostSwFail_def Let_def split: option.split)

lemma register_step:
  assumes "find_peer cfg (Some peer) (rw_rpc w) = Some i" "rq_msg req = REGISTER_CLIENT"
    "fst (validateAndAcceptRegistration cfg t i req (rw_rpc w)) = REGISTER_ACCEPTED"
  shows "rw_rpc (rpc_step cfg (Recv t (Recv_message peer req)) w) = snd (snd (validateAndAcceptRegistration cfg t i req (rw_rpc w)))"
    "rw_tick (rpc_step cfg (Recv t (Recv_message peer req)) w) = rw_tick w"
  using assms by (auto simp: handle_request_def handle_register_def case_prod_beta Let_def split: option.split)

definition swap1 :: RpcState where
  "swap1 = tick_required example_rpc_cfg 7000000001 (fst (tick_scan example_rpc_cfg 7000000001 (rw_rpc example_up)))"

definition swap2 :: RpcState where
  "swap2 = admit_peer example_rpc_cfg 7000000002 1 12 swap1"

lemma swap2_facts:
  "rw_tick example_up = Tick_idle" "snd (tick_scan example_rpc_cfg 7000000001 (rw_rpc example_up)) = [0]"
  "find_peer example_rpc_cfg None swap1 = Some 1" "find_peer example_rpc_cfg (Some 12) swap2 = Some 1"
  "same_identity swap2 1 CLIENT_SAFETY_MONITOR 0 = [0]" "flag (rp_faultLatched swap2) 0" "rp_pendingSeen swap2 = []"
  "slots (rp_type swap2) = [0]"
  by code_simp+

definition swap3 :: RpcState where
  "swap3 = accept_registration example_rpc_cfg 7000000002 1 CLIENT_SAFETY_MONITOR 0
     (snd (disconnectClientLocked example_rpc_cfg 0 swap2))"

definition swap4 :: RpcState where
  "swap4 = admit_peer example_rpc_cfg 7000000002 0 13 swap3"

definition swap5 :: RpcState where
  "swap5 = accept_registration example_rpc_cfg 7000000002 0 CLIENT_MDX 1 swap4"

definition swap6 :: RpcState where
  "swap6 = updateClientHeartbeat example_rpc_cfg 7000000002 0 CLIENT_MDX swap5"

lemma swap3_eq:
  "validateAndAcceptRegistration example_rpc_cfg 7000000002 1 (example_req REGISTER_CLIENT CLIENT_SAFETY_MONITOR 0) swap2 =
     (REGISTER_ACCEPTED, Some (0, fst (disconnectClientLocked example_rpc_cfg 0 swap2)), swap3)"
  by (simp add: validateAndAcceptRegistration_def example_req_def request_instance_def swap2_facts swap3_def Let_def
      valid_client_type_def singleton_type_def case_prod_beta PSS_MDX_INSTANCE_MAX_def del: One_nat_def)

lemma example_slots: "0 < rc_maxClients example_rpc_cfg" "1 < rc_maxClients example_rpc_cfg"
  by (simp_all add: example_rpc_cfg_def MAX_CLIENTS_def)

lemma swap_slot0:
  "rp_peers swap3 0 = None" "rp_peers swap4 0 = Some 13" "rp_pendingSeen swap4 = []"
  "rp_type swap4 = (rp_type swap2)(0 := None, 1 \<mapsto> CLIENT_SAFETY_MONITOR, 0 := None)"
proof -
  note d = disconnect_ok
  let ?d = "snd (disconnectClientLocked example_rpc_cfg 0 swap2)"
  define e where "e = swap2\<lparr>rp_peers := (rp_peers swap2)(0 := None)\<rparr>"
  have eq: "?d = clearClientStateLocked example_rpc_cfg 0 e"
    by (simp add: disconnectClientLocked_def e_def MAX_POSSIBLE_CLIENTS_def)
  note c = clear_cleared [where cfg = example_rpc_cfg and i = 0 and s = e, unfolded slot_cleared_def, folded eq]
  note a = accept_fields [OF example_slots(2), of 7000000002 CLIENT_SAFETY_MONITOR 0 ?d, folded swap3_def]
  note c' = clear_cleared [where cfg = example_rpc_cfg and i = 0 and s = swap3, unfolded slot_cleared_def]
  note b = admit_fields [OF example_slots(1), of 7000000002 13 swap3, folded swap4_def]
  show "rp_peers swap3 0 = None" by (simp add: a c e_def)
  show "rp_peers swap4 0 = Some 13" by (simp add: b)
  show "rp_pendingSeen swap4 = []" "rp_type swap4 = (rp_type swap2)(0 := None, 1 \<mapsto> CLIENT_SAFETY_MONITOR, 0 := None)"
    using c c' by (simp_all add: b a e_def swap2_facts)
qed

lemma swap5_eq:
  "validateAndAcceptRegistration example_rpc_cfg 7000000002 0 (example_req REGISTER_CLIENT CLIENT_MDX 1) swap4 =
     (REGISTER_ACCEPTED, None, swap5)"
proof -
  have "rp_type swap2 i = None" if "i < MAX_POSSIBLE_CLIENTS" "i \<noteq> 0" for i
    using swap2_facts(8) that by (metis empty_iff insert_iff list.set(1) list.simps(15) set_slots)
  then have "same_identity swap4 0 CLIENT_MDX 1 = []"
    by (auto simp: same_identity_def filter_empty_conv swap_slot0 at0_def pss_fs)
  then show ?thesis
    by (simp add: validateAndAcceptRegistration_def example_req_def request_instance_def swap5_def Let_def
        valid_client_type_def PSS_MDX_INSTANCE_MAX_def)
qed

lemma swap6_facts: "find_peer example_rpc_cfg (Some 13) swap5 = Some 0" "getClientType swap5 0 = CLIENT_MDX" "rp_pendingSeen swap6 = []" "live swap6 8 0"
proof -
  note a = accept_fields [OF example_slots(1), of 7000000002 CLIENT_MDX 1 swap4, folded swap5_def]
  have upt: "[0..<rc_maxClients example_rpc_cfg] = 0 # [1..<rc_maxClients example_rpc_cfg]"
    using example_slots(1) by (simp add: upt_conv_Cons)
  show "find_peer example_rpc_cfg (Some 13) swap5 = Some 0" unfolding find_peer_def upt by (simp add: a swap_slot0)
  show "getClientType swap5 0 = CLIENT_MDX" by (simp add: getClientType_def a)
  show "rp_pendingSeen swap6 = []" by (simp add: swap6_def updateClientHeartbeat_def Let_def a swap_slot0)
  show "live swap6 8 0"
    by (simp add: live_iff swap6_def updateClientHeartbeat_def Let_def a clientInstanceLocked_def presenceBitForClient_def
        MAX_POSSIBLE_CLIENTS_def pss_fs mdx_bits)
qed

lemma example_swapped_facts:
  "rw_rpc example_swapped = swap6" "rw_tick example_swapped = Tick_required [0]"
proof -
  let ?step = "rpc_step example_rpc_cfg"
  define v2 v3 v4 v5 v6 v7 where "v2 = ?step (Tick 7000000001) (?step (Tick 7000000001) example_up)"
    and "v3 = ?step (Poll 7000000002 (Peer_connected 12)) v2"
    and "v4 = ?step (Recv 7000000002 (Recv_message 12 (example_req REGISTER_CLIENT CLIENT_SAFETY_MONITOR 0))) v3"
    and "v5 = ?step (Poll 7000000002 (Peer_connected 13)) v4"
    and "v6 = ?step (Recv 7000000002 (Recv_message 13 (example_req REGISTER_CLIENT CLIENT_MDX 1))) v5"
    and "v7 = ?step (Recv 7000000002 (Recv_message 13 (example_req SEND_HEARTBEAT HB_MSG CLIENT_MDX))) v6"
  note v = v2_def v3_def v4_def v5_def v6_def v7_def
  have eq: "example_swapped = v7"
    unfolding example_swapped_def example_swap_steps_def v by (simp del: rpc_step.simps)
  have mx: "rc_maxFailures example_rpc_cfg \<noteq> 0" by (simp add: example_rpc_cfg_def)
  have upt: "[0..<rc_maxClients example_rpc_cfg] = 0 # [1..<rc_maxClients example_rpc_cfg]"
    using example_slots(1) by (simp add: upt_conv_Cons)
  have 2: "rw_rpc v2 = swap1" "rw_tick v2 = Tick_required [0]"
    using mx by (simp_all add: v2_def swap2_facts swap1_def case_prod_beta)
  have 3: "rw_rpc v3 = swap2" "rw_tick v3 = Tick_required [0]"
    using 2 by (simp_all add: v3_def swap2_facts swap2_def del: One_nat_def)
  have 4: "rw_rpc v4 = swap3" "rw_tick v4 = Tick_required [0]"
    unfolding v4_def using 3 swap2_facts(4) swap3_eq
    by (subst register_step [where i = 1]; simp add: example_req_def)+
  have 5: "rw_rpc v5 = swap4" "rw_tick v5 = Tick_required [0]"
    using 4 by (simp_all add: v5_def find_peer_def upt swap_slot0 swap4_def)
  have 6: "rw_rpc v6 = swap5" "rw_tick v6 = Tick_required [0]"
    unfolding v6_def using 5 swap5_eq
    by (subst register_step [where i = 0]; simp add: example_req_def find_peer_def upt swap_slot0)+
  have 7: "rw_rpc v7 = swap6" "rw_tick v7 = Tick_required [0]"
    using 6 swap6_facts(1,2)
    by (simp_all add: v7_def handle_request_def handle_heartbeat_def example_req_def swap6_def Let_def pss_fs)
  show "rw_rpc example_swapped = swap6" "rw_tick example_swapped = Tick_required [0]"
    using 7 by (simp_all add: eq)
qed

section \<open>The theorems at that run\<close>

lemma example_run_reachable: "rpc_reachable example_rpc_cfg example_up" "rpc_reachable example_rpc_cfg example_swapped"
proof -
  show up: "rpc_reachable example_rpc_cfg example_up"
    unfolding example_up_def by (rule run_reachable [OF rpc_reachable.start])
  show "rpc_reachable example_rpc_cfg example_swapped"
    unfolding example_swapped_def by (rule run_reachable [OF up])
qed

lemma example_rpc_cfg_ok: "rc_maxClients example_rpc_cfg \<le> MAX_POSSIBLE_CLIENTS" "cfg_ok example_rpc_cfg"
  by (simp_all add: example_rpc_cfg_def cfg_ok_def pss_fs)


lemma example_up_masks:
  "bit (rp_presence (rw_rpc example_up)) 0" "rp_threshold (rw_rpc example_up) = 50"
  "find_peer example_rpc_cfg (Some 11) (rw_rpc example_up) = Some 0"
  "\<not> bit (rp_presence (snd (disconnectClientLocked example_rpc_cfg 0 (rw_rpc example_up)))) 0"
  "list_all (\<lambda>i. at0 (rp_heartbeatCount (rw_rpc example_up)) i \<noteq> 0xFFFFFFFF) [0..<8]"
  "identity_required (noteReportAccepted 0 0 SENSOR_VALID (rw_rpc example_up)) 0"
  "rp_threshold (noteReportAccepted 0 0 SENSOR_VALID (rw_rpc example_up)) = 50"
  by code_simp+




theorem presence_report_exact_witness:
  "bit (rv_presenceMask (rpc_view example_rpc_cfg (rw_rpc example_up))) 0 \<and>
   (\<exists>!i. i < rc_maxClients example_rpc_cfg \<and> rp_peers (rw_rpc example_up) i \<noteq> None \<and>
      at0 (rp_heartbeatCount (rw_rpc example_up)) i \<noteq> 0 \<and> \<not> flag (rp_faultLatched (rw_rpc example_up)) i \<and>
      bit (presenceBitForClient (getClientType (rw_rpc example_up) i) (clientInstanceLocked (rw_rpc example_up) i)) 0)"
  using presence_report_exact [OF example_run_reachable(1) example_rpc_cfg_ok(1), of 0] example_up_masks(1)
  by (simp add: rpc_view_def)


theorem unusable_input_escalates_once_witness:
  "fst (noteReportRejected example_rpc_cfg 0
     ((reject example_rpc_cfg 0 ^^ 49) (noteReportAccepted 0 0 SENSOR_VALID (rw_rpc example_up))))"
proof -
  have "required_source example_rpc_cfg (noteReportAccepted 0 0 SENSOR_VALID (rw_rpc example_up)) 0"
    using example_up_masks(6) by (simp add: required_source_def)
  then show ?thesis
    using unusable_input_escalates_once [OF example_run_reachable(1) example_rpc_cfg_ok(1), of 0 49 0 SENSOR_VALID] example_up_masks(2,7)
    by (simp add: pss_fs)
qed

theorem rpc_refines_producers_witness:
  "\<exists>ops. (\<forall>op \<in> set ops. producer_ok op) \<and>
    (\<forall>m. producers example_manager_cfg ops (m\<lparr>pm_trust := rw_trust example_up\<rparr>) =
       m\<lparr>pm_trust := rw_trust (rpc_step (example_rpc_cfg\<lparr>rc_source := mc_source example_manager_cfg\<rparr>)
          (Poll 2 (Peer_gone 11)) example_up)\<rparr>)"
  by (rule rpc_refines_producers) simp_all

theorem handover_drops_successor_witness:
  "live (rw_rpc example_swapped) 8 0 \<and>
   rp_peers (rw_rpc (rpc_step example_rpc_cfg (Process 7000000003) (rpc_step example_rpc_cfg (Tick 7000000003) example_swapped))) 0 = None"
  using handover_drops_successor [OF example_run_reachable(2) example_rpc_cfg_ok(1) example_swapped_facts(2), of 0 8 7000000003]
    swap6_facts
  unfolding example_swapped_facts(1) by simp

end
