(* ===== verification/Spec2Isabelle.thy ===== *)
theory Spec2Isabelle
  imports Atl_Safety Pss_Sender_Safety Pss_Rpc_Safety
begin

text \<open>
  Verification of the Halos outside-in safety core.

  \<^bold>\<open>The program.\<close> Cameras watch a work cell. Monitors turn what they see into safety events and report them
  to the PSS daemon, which stages them and sends decision requests to the PSD gateway; the gateway forwards
  them to safety decision makers, one of which (ATL) decides whether a robot may ignore its own scanner
  (mute) and otherwise keeps it in a latched safe state.

  \<^bold>\<open>The theories\<close>, in the order the data flows, with the sources under \<^verbatim>\<open>src/safety-core\<close>.

  \<^item> \<open>Psf_Prelude\<close>: the word types, \<open>named_theorems\<close> collections and byte-image helpers all others share.
  \<^item> \<open>Pss_Protocol\<close> (\<^verbatim>\<open>pss_protocol.h\<close>): the structs as records, the enumerators as 32-bit constants, the byte
    images of the packed structs.
  \<^item> \<open>Pss_Message_Validate\<close> (\<^verbatim>\<open>pss_message_validate.c\<close>): the CRC-32, sealing and the validators. The locale
    \<open>crc_message\<close> is the contract of a message that carries a CRC; events, requests and ATL packets
    interpret it. The lemmas give exact acceptance, rejection of a corrupted byte and the seal round trip.
  \<^item> \<open>Pss_Rpc\<close>, \<open>Pss_Rpc_Inv\<close>, \<open>Pss_Rpc_Safety\<close> (\<^verbatim>\<open>NvPSSDRPC.cpp\<close>): the server the monitors talk to.
    Registration, heartbeats and their monitor thread, the presence and input-state masks, the gate every
    report passes, the losses it reports. A step relation interleaves the server with the points at which
    the monitor thread releases its mutexes; the lemmas hold of every reachable state.
  \<^item> \<open>Pss_Fusion_Health\<close>, \<open>Pss_Trust\<close>, \<open>Pss_Delivery\<close>, \<open>Pss_Staging\<close>, \<open>Pss_Events\<close>, \<open>Pss_Sender\<close>,
    \<open>Pss_Sender_Safety\<close> (\<^verbatim>\<open>NvPSSSafetyEventManager.{hpp,cpp}\<close>, \<^verbatim>\<open>NvPSSDeliveryFailSafe.hpp\<close>,
    \<^verbatim>\<open>NvPSSStatusNoop.hpp\<close>): the fusion-stage fault shared by two threads, as a step relation over their atomic
    accesses; the trust state and what the decision makers are told of it; the delivery rules; the two
    staging lanes and what they may lose; the path of an event from the input queue to a lane, with fusion
    and without; the sender that builds, seals, retries and abandons requests.
  \<^item> \<open>Gateway_Protocol\<close>, \<open>Gateway_Contract\<close> (\<^verbatim>\<open>NvPSDGatewayProtocol.h\<close>, \<^verbatim>\<open>NvPSDGatewayContract.hpp\<close>): sequence
    numbers that wrap past two reserved values (locale \<open>id_stream\<close>), registration, rate limit, forwarding.
  \<^item> \<open>Sdm_Request_State\<close>, \<open>Sdm_Sequence\<close> (\<^verbatim>\<open>decision-makers/common\<close>): what a decision maker concludes from a
    request. The locale \<open>sub_cause_evaluator\<close> is the contract of the three evaluators of held sub-causes.
  \<^item> \<open>Atl_Cmd_Packet\<close>, \<open>Atl_State\<close>, \<open>Atl_Control\<close>, \<open>Atl_Invariants\<close>, \<open>Atl_Examples\<close>, \<open>Atl_Safety\<close>
    (\<^verbatim>\<open>atl_cmd_pkt.h\<close>, \<^verbatim>\<open>ATLControl.cpp\<close>): the command packet, the state of the decision maker, its handlers, their
    invariants and the safety properties of every reachable state. The locale \<open>safe_state_latch\<close> is the
    contract of the latch.

  \<^bold>\<open>Conventions.\<close> A 32- or 64-bit field is a word and wraps as in the source; a counter that the source
  declares 64 bits wide and only ever increments by one is a natural number. A float is its bit pattern. A
  pointer the source tests for null is an option. Hash tables are maps or association lists. The clock, the
  answers of the fusion engine, what the RPC server reports and the outcome of a send are arguments.
  Loops over a container are structural recursion, so no fuel is used.

  \<^bold>\<open>Not modelled.\<close> Sockets, threads and process life cycle, log text, YAML and protobuf reading (third-party
  parsers), and the floating-point image and geometry computations of the monitors and of the fusion engine.
\<close>

end
